(* ===== verification/Interfaces.thy ===== *)
theory Interfaces
  imports Main
begin

text \<open>
  The contracts between the components of the server, one locale per interface.  Each names the
  operations a client calls, the laws the provider promises, and the facts the clients need, proved
  once from those laws.  The providers interpret them: \<open>Prelude\<close> for the SQL tables, \<open>Db\<close> for the
  incarnation tokens, \<open>Blob_Index\<close> for the path sequence, \<open>Blob_Lww\<close> for the last-writer-wins rule, and
  the stateful components for the invariants of their step relations (\<open>Doc_Server\<close>, \<open>Doc_Locks\<close>,
  \<open>Ws_Sessions\<close>, \<open>Server\<close> among them).  One more contract, that of a property every handler keeps, is in
  \<open>Blob_Frame\<close> beside the handlers it speaks of; \<open>Schema\<close> and \<open>Vault_Walls\<close> use it.
\<close>

section \<open>A table with a primary key\<close>

text \<open>
  The part of SQL the server relies on for a table with a primary key: a point query, an upsert
  (\<open>INSERT \<dots> ON CONFLICT DO UPDATE\<close>) and a point delete.  \<open>wf\<close> is the uniqueness of the key.
\<close>

locale keyed_table =
  fixes get :: "'t \<Rightarrow> 'k \<Rightarrow> 'v option"
    and put :: "'k \<Rightarrow> 'v \<Rightarrow> 't \<Rightarrow> 't"
    and del :: "'k \<Rightarrow> 't \<Rightarrow> 't"
    and wf :: "'t \<Rightarrow> bool"
  assumes get_put: "get (put k v t) = (get t)(k \<mapsto> v)"
    and get_del: "get (del k t) = (get t)(k := None)"
    and wf_put: "wf t \<Longrightarrow> wf (put k v t)"
    and wf_del: "wf t \<Longrightarrow> wf (del k t)"
begin

lemma get_put_same: "get (put k v t) k = Some v"
  by (simp add: get_put)

lemma get_put_other: "k' \<noteq> k \<Longrightarrow> get (put k v t) k' = get t k'"
  by (simp add: get_put)

lemma get_del_same: "get (del k t) k = None"
  by (simp add: get_del)

lemma get_del_other: "k' \<noteq> k \<Longrightarrow> get (del k t) k' = get t k'"
  by (simp add: get_del)

lemma put_commute: "k \<noteq> k' \<Longrightarrow> get (put k v (put k' v' t)) = get (put k' v' (put k v t))"
  by (auto simp: get_put)

lemma put_del_commute: "k \<noteq> k' \<Longrightarrow> get (put k v (del k' t)) = get (del k' (put k v t))"
  by (auto simp: get_put get_del)

lemma dom_put: "dom (get (put k v t)) = insert k (dom (get t))"
  by (auto simp: get_put)

lemma dom_del: "dom (get (del k t)) = dom (get t) - {k}"
  by (auto simp: get_del)

end

section \<open>An allocator of increasing tokens\<close>

text \<open>
  \<open>alloc\<close> hands out the token \<open>cur s\<close> and moves on, or fails when the space is exhausted.  Shared by
  the incarnation counter of a vault and by the sequence number of the blob path states.
\<close>

locale token_allocator =
  fixes alloc :: "'s \<Rightarrow> ('e + int \<times> 's)"
    and cur :: "'s \<Rightarrow> int"
  assumes alloc_token: "alloc s = Inr (n, s') \<Longrightarrow> n = cur s"
    and alloc_next: "alloc s = Inr (n, s') \<Longrightarrow> cur s' = n + 1"
begin

lemma alloc_fresh: "alloc s = Inr (n, s') \<Longrightarrow> k < cur s \<Longrightarrow> k < n"
  using alloc_token by simp

lemma alloc_bound: "alloc s = Inr (n, s') \<Longrightarrow> n < cur s'"
  using alloc_next by simp

lemma alloc_mono: "alloc s = Inr (n, s') \<Longrightarrow> cur s < cur s'"
  using alloc_next [of s n s'] alloc_token [of s n s'] by simp

text \<open>A run of allocations, possibly with other steps in between that do not lower the counter.\<close>

inductive alloc_run :: "'s \<Rightarrow> int list \<Rightarrow> 's \<Rightarrow> bool" where
  run_nil: "cur s \<le> cur s' \<Longrightarrow> alloc_run s [] s'"
| run_step: "alloc s = Inr (n, s1) \<Longrightarrow> cur s1 \<le> cur s2 \<Longrightarrow> alloc_run s2 ns s3 \<Longrightarrow>
    alloc_run s (n # ns) s3"

lemma alloc_run_ge: "alloc_run s ns s' \<Longrightarrow> \<forall>n \<in> set ns. cur s \<le> n"
proof (induction rule: alloc_run.induct)
  case (run_step s n s1 s2 ns s3)
  then show ?case
    using alloc_token [OF run_step.hyps(1)] alloc_next [OF run_step.hyps(1)] by fastforce
qed simp

lemma alloc_run_strict: "alloc_run s ns s' \<Longrightarrow> sorted_wrt (<) ns"
proof (induction rule: alloc_run.induct)
  case (run_step s n s1 s2 ns s3)
  have "\<forall>m \<in> set ns. cur s2 \<le> m"
    using run_step.hyps(3) by (rule alloc_run_ge)
  then show ?case
    using run_step alloc_next [OF run_step.hyps(1)] by fastforce
qed simp

end

section \<open>Last writer wins\<close>

text \<open>
  A register that keeps the write of greatest rank.  \<open>rank\<close> maps a write into a linear order and
  \<open>offer\<close> replaces the stored write when the offered one ranks above it, unless it is the \<open>same\<close> write
  again, which is acknowledged and changes nothing.
\<close>

locale lww_register =
  fixes rank :: "'w \<Rightarrow> 'r::linorder"
    and same :: "'w \<Rightarrow> 'w \<Rightarrow> bool"
    and offer :: "'w option \<Rightarrow> 'w \<Rightarrow> 'w option"
  assumes offer_none: "offer None w = Some w"
    and offer_same: "same c w \<Longrightarrow> offer (Some c) w = Some c"
    and offer_wins: "\<not> same c w \<Longrightarrow> rank c < rank w \<Longrightarrow> offer (Some c) w = Some w"
    and offer_loses: "rank w \<le> rank c \<Longrightarrow> offer (Some c) w = Some c"
begin

lemma offer_cases: "offer (Some c) w = (if \<not> same c w \<and> rank c < rank w then Some w else Some c)"
  using offer_same offer_wins offer_loses by (cases "rank c < rank w") (auto simp: not_less)

lemma offer_some: "\<exists>c. offer s w = Some c"
  by (cases s) (auto simp: offer_none offer_cases)

lemma offer_mono: "offer (Some c) w = Some c' \<Longrightarrow> rank c \<le> rank c'"
  by (auto simp: offer_cases split: if_splits)

lemma offers_mono: "foldl offer (Some c) ws = Some c' \<Longrightarrow> rank c \<le> rank c'"
proof (induction ws arbitrary: c)
  case (Cons w ws)
  obtain c1 where "offer (Some c) w = Some c1" using offer_some by blast
  then show ?case using Cons.IH [of c1] Cons.prems offer_mono [of c w c1] by simp
qed simp

lemma offers_member: "foldl offer (Some c) ws = Some c' \<Longrightarrow> c' = c \<or> c' \<in> set ws"
proof (induction ws arbitrary: c)
  case (Cons w ws)
  obtain c1 where c1: "offer (Some c) w = Some c1"
    using offer_some by blast
  have "c1 = c \<or> c1 = w"
    using c1 by (simp add: offer_cases split: if_splits)
  then show ?case
    using Cons.IH [of c1] Cons.prems c1 by auto
qed simp

text \<open>If only writes of one rank count as the same, the register holds the greatest rank offered.\<close>

lemma offers_max:
  assumes "\<And>x y. x \<in> insert c (set ws) \<Longrightarrow> y \<in> insert c (set ws) \<Longrightarrow> same x y \<Longrightarrow> rank x = rank y"
    and "foldl offer (Some c) ws = Some c'"
  shows "rank c \<le> rank c' \<and> (\<forall>w \<in> set ws. rank w \<le> rank c')"
  using assms
proof (induction ws arbitrary: c)
  case (Cons w ws)
  obtain c1 where c1: "offer (Some c) w = Some c1"
    using offer_some by blast
  then have in1: "c1 \<in> insert c (set (w # ws))" and rank: "rank c \<le> rank c1" "rank w \<le> rank c1"
    using Cons.prems(1) [of c w] by (auto simp: offer_cases not_less split: if_splits)
  have "rank c1 \<le> rank c' \<and> (\<forall>w \<in> set ws. rank w \<le> rank c')"
    using Cons.IH [of c1] Cons.prems in1 c1 by auto
  then show ?case using rank by auto
qed simp

text \<open>Then writes of distinct ranks give the same register whatever their order of arrival.\<close>

lemma offers_order_irrelevant:
  assumes "inj_on rank (insert c (set ws))" and "set ws = set vs"
    and same: "\<And>x y. x \<in> insert c (set ws) \<Longrightarrow> y \<in> insert c (set ws) \<Longrightarrow> same x y \<Longrightarrow> x = y"
    and "foldl offer (Some c) ws = Some x" and "foldl offer (Some c) vs = Some y"
  shows "x = y"
proof -
  have mem: "x \<in> insert c (set ws)" "y \<in> insert c (set ws)"
    using offers_member [OF assms(4)] offers_member [OF assms(5)] assms(2) by auto
  have max: "rank c \<le> rank x \<and> (\<forall>w \<in> set ws. rank w \<le> rank x)" "rank c \<le> rank y \<and> (\<forall>w \<in> set vs. rank w \<le> rank y)"
    using offers_max [OF _ assms(4)] offers_max [OF _ assms(5)] same assms(2) by metis+
  have "rank x = rank y"
    using max mem assms(2) by force
  then show ?thesis
    using inj_onD [OF assms(1)] mem by blast
qed

end

section \<open>Transition systems and their invariants\<close>

text \<open>
  \<open>start\<close> and \<open>step\<close> are the initial states and the transitions of a component, \<open>good\<close> an
  invariant of them.
\<close>

locale transition_invariant =
  fixes start :: "'s \<Rightarrow> bool"
    and step :: "'s \<Rightarrow> 's \<Rightarrow> bool"
    and good :: "'s \<Rightarrow> bool"
  assumes good_start: "start s \<Longrightarrow> good s"
    and good_step: "good s \<Longrightarrow> step s t \<Longrightarrow> good t"
begin

lemma good_steps: "step\<^sup>*\<^sup>* s t \<Longrightarrow> good s \<Longrightarrow> good t"
  by (induction rule: rtranclp_induct) (auto intro: good_step)

lemma good_reachable: "start s \<Longrightarrow> step\<^sup>*\<^sup>* s t \<Longrightarrow> good t"
  using good_start good_steps by blast

end

end
