(* ===== verification/Errors.thy ===== *)
theory Errors
  imports Prelude
begin

text \<open>
  \<open>src/errors.rs\<close> and the HTTP vocabulary of the handlers: JSON values, responses, the error type of
  the server with its two client-facing renderings, and the error-or-value results the handlers
  thread (\<open>Inl\<close> is Rust's \<open>Err\<close>).
\<close>

section \<open>Responses\<close>

datatype json =
    JNull
  | JBool bool
  | JInt int
  | JStr string
  | JArr "json list"
  | JObj "(string \<times> json) list"

record response =
  status :: nat
  body :: json
  headers :: "(string \<times> string) list"

text \<open>\<open>(status, Json(body)).into_response()\<close>, with no header the code sets itself.\<close>

definition json_response :: "nat \<Rightarrow> json \<Rightarrow> response" where
  "json_response s b = \<lparr>status = s, body = b, headers = []\<rparr>"

definition error_body :: "string \<Rightarrow> json" where
  "error_body msg = JObj [(''error'', JStr msg)]"

definition opt_json :: "('a \<Rightarrow> json) \<Rightarrow> 'a option \<Rightarrow> json" where
  "opt_json f x = (case x of None \<Rightarrow> JNull | Some v \<Rightarrow> f v)"

section \<open>The error type\<close>

text \<open>The payload of each variant is the text of the underlying error.\<close>

datatype server_error =
    Db string
  | Migration string
  | Auth string
  | TooManyRequests
  | Jwt string
  | BadFrame string
  | Sync string
  | Io string

text \<open>The em dash of two messages, in UTF-8.\<close>

definition em_dash :: string where
  "em_dash = [CHR 0xE2, CHR 0x80, CHR 0x94]"

fun client_facing :: "server_error \<Rightarrow> string \<times> string" where
  "client_facing (BadFrame _) = (''bad_frame'', ''message could not be decoded'')"
| "client_facing (Sync _) =
     (''sync_failed'', ''document could not be processed '' @ em_dash @ '' not synced'')"
| "client_facing (Db _) = (''storage_error'', ''server storage error '' @ em_dash @ '' not synced'')"
| "client_facing (Migration _) =
     (''storage_error'', ''server storage error '' @ em_dash @ '' not synced'')"
| "client_facing _ = (''internal'', ''internal server error'')"

text \<open>The \<open>Display\<close> rendering that \<open>thiserror\<close> derives from the \<open>#[error(\<dots>)]\<close> attributes.\<close>

fun to_string :: "server_error \<Rightarrow> string" where
  "to_string (Db e) = ''database error: '' @ e"
| "to_string (Migration e) = ''migration error: '' @ e"
| "to_string (Auth m) = ''auth error: '' @ m"
| "to_string TooManyRequests = ''too many requests''"
| "to_string (Jwt e) = ''jwt error: '' @ e"
| "to_string (BadFrame m) = ''bad frame: '' @ m"
| "to_string (Sync m) = ''sync error: '' @ m"
| "to_string (Io e) = ''io error: '' @ e"

fun into_response :: "server_error \<Rightarrow> response" where
  "into_response (Auth m) = json_response 401 (error_body (to_string (Auth m)))"
| "into_response TooManyRequests = json_response 429 (error_body (to_string TooManyRequests))"
| "into_response (Jwt e) = json_response 401 (error_body ''unauthorized'')"
| "into_response (Db e) = json_response 500 (error_body ''database error'')"
| "into_response (Migration e) = json_response 500 (error_body ''database error'')"
| "into_response (Sync m) = json_response 500 (error_body ''sync error'')"
| "into_response e = json_response 500 (error_body (to_string e))"

text \<open>
  The text a client of the WebSocket sees is a constant of the error's class: nothing of the
  payload, which may quote client bytes or database internals, gets out.
\<close>

lemma client_facing_codes:
  "fst (client_facing e) \<in> {''bad_frame'', ''sync_failed'', ''storage_error'', ''internal''}"
  by (cases e) auto

section \<open>Results\<close>

type_synonym 'a result = "server_error + 'a"

text \<open>The \<open>?\<close> operator on a pure result.\<close>

definition bind_result :: "'e + 'a \<Rightarrow> ('a \<Rightarrow> 'e + 'b) \<Rightarrow> 'e + 'b" where
  "bind_result r f = (case r of Inl e \<Rightarrow> Inl e | Inr x \<Rightarrow> f x)"

definition map_err :: "('e \<Rightarrow> 'f) \<Rightarrow> 'e + 'a \<Rightarrow> 'f + 'a" where
  "map_err f r = (case r of Inl e \<Rightarrow> Inl (f e) | Inr x \<Rightarrow> Inr x)"

lemma bind_result_simps [simp]:
  "bind_result (Inl e) f = Inl e" "bind_result (Inr x) f = f x"
  by (simp_all add: bind_result_def)

lemma map_err_simps [simp]: "map_err f (Inl e) = Inl (f e)" "map_err f (Inr x) = Inr x"
  by (simp_all add: map_err_def)

lemma bind_result_Inr: "bind_result r f = Inr y \<longleftrightarrow> (\<exists>x. r = Inr x \<and> f x = Inr y)"
  by (cases r) auto

lemma map_err_Inr [simp]: "map_err f r = Inr x \<longleftrightarrow> r = Inr x"
  by (cases r) auto

end
