(* ===== verification/Auth_Core.thy ===== *)
theory Auth_Core
  imports Errors
begin

text \<open>
  \<open>src/auth.rs\<close>: the constant-time comparison of secrets, the fixed-window rate limiter of the
  authentication routes, and the session tokens.  The JWT library is the parameter \<open>jwt_lib\<close>.
\<close>

unbundle bit_operations_syntax

section \<open>Constants\<close>

definition JWT_EXPIRY_SECS :: nat where "JWT_EXPIRY_SECS = 3600"
definition AUTH_REQUEST_LIMIT :: nat where "AUTH_REQUEST_LIMIT = 10"
definition AUTH_WINDOW_SECS :: nat where "AUTH_WINDOW_SECS = 60"
definition AUTH_MAX_KEYS :: nat where "AUTH_MAX_KEYS = 65536"

lemmas auth_consts = JWT_EXPIRY_SECS_def AUTH_REQUEST_LIMIT_def AUTH_WINDOW_SECS_def
  AUTH_MAX_KEYS_def

section \<open>Comparison without an early exit\<close>

text \<open>\<open>a.get(i).copied().unwrap_or(0)\<close> on the bytes of a string.\<close>

definition byte_at :: "string \<Rightarrow> nat \<Rightarrow> byte" where
  "byte_at s i = (if i < length s then of_char (s ! i) else 0)"

text \<open>The loop ors the difference of every byte pair into \<open>diff\<close>, a 64-bit \<open>usize\<close>.\<close>

definition constant_time_eq :: "string \<Rightarrow> string \<Rightarrow> bool" where
  "constant_time_eq a b =
     (let diff = (word_of_nat (length a) XOR word_of_nat (length b) :: 64 word)
      in foldl (\<lambda>d i. d OR ucast (byte_at a i XOR byte_at b i)) diff
           [0..<max (length a) (length b)] = 0)"

lemma foldl_or_zero:
  fixes d :: "'a::len word"
  shows "foldl (\<lambda>d i. d OR f i) d xs = 0 \<longleftrightarrow> d = 0 \<and> (\<forall>i \<in> set xs. f i = 0)"
  by (induction xs arbitrary: d) (auto simp: or_eq_0_iff)

lemma xor_zero_iff: "x XOR y = (0 :: 'a::len word) \<longleftrightarrow> x = y"
  by (metis xor.assoc xor.left_neutral xor.right_neutral xor_self_eq)

lemma ucast_byte_zero: "(ucast (b :: byte) :: 64 word) = 0 \<longleftrightarrow> b = 0"
proof -
  have "take_bit 64 (unat b) = unat b"
  proof (rule take_bit_nat_eq_self)
    have "unat b < 2 ^ 8" using unsigned_less [of b] by simp
    then show "unat b < 2 ^ 64" by simp
  qed
  then show ?thesis
    by (simp add: unsigned_ucast_eq word_unat_eq_iff)
qed

lemma of_char_byte_inject: "(of_char c :: byte) = of_char d \<longleftrightarrow> c = d"
proof
  assume "(of_char c :: byte) = of_char d"
  moreover have "unat (of_char x :: byte) = of_char x" for x
    by (subst of_nat_of_char [symmetric]) (simp only: unat_of_nat, simp)
  ultimately show "c = d"
    by (metis of_char_eq_iff)
qed simp

lemma constant_time_eq_iff:
  assumes "length a < 2 ^ 64" and "length b < 2 ^ 64"
  shows "constant_time_eq a b \<longleftrightarrow> a = b"
proof
  assume eq: "constant_time_eq a b"
  have bytes: "(word_of_nat (length a) :: 64 word) = word_of_nat (length b) \<and>
      (\<forall>i < max (length a) (length b). byte_at a i = byte_at b i)"
    using eq by (auto simp: constant_time_eq_def Let_def foldl_or_zero xor_zero_iff ucast_byte_zero)
  then have "unat (word_of_nat (length a) :: 64 word) = unat (word_of_nat (length b) :: 64 word)"
    by simp
  then have len: "length a = length b"
    using assms by (simp add: unat_of_nat)
  moreover have "a ! i = b ! i" if "i < length a" for i
    using bytes that len by (auto simp: byte_at_def of_char_byte_inject)
  ultimately show "a = b"
    by (rule nth_equalityI)
next
  assume "a = b"
  then show "constant_time_eq a b"
    unfolding constant_time_eq_def Let_def foldl_or_zero by simp
qed

section \<open>The rate limiter\<close>

text \<open>\<open>windows\<close> maps a client key to the start of its window and the requests counted in it.\<close>

type_synonym windows = "(string, nat \<times> nat) table"

text \<open>The entries that \<open>retain\<close> keeps at \<open>now_secs\<close>.\<close>

definition retain_windows :: "nat \<Rightarrow> windows \<Rightarrow> windows" where
  "retain_windows now_secs w = tbl_keep (\<lambda>_ (start, _). sat_sub now_secs start < AUTH_WINDOW_SECS) w"

definition check :: "windows \<Rightarrow> string \<Rightarrow> nat \<Rightarrow> bool \<times> windows" where
  "check w key now_secs =
     (let w = retain_windows now_secs w
      in if length w \<ge> AUTH_MAX_KEYS \<and> tbl_get w key = None then (False, w)
         else
           let (start, count) = (case tbl_get w key of None \<Rightarrow> (now_secs, 0) | Some e \<Rightarrow> e);
               w = tbl_put key (start, count) w
           in if count \<ge> AUTH_REQUEST_LIMIT then (False, w)
              else (True, tbl_put key (start, count + 1) w))"

text \<open>A sequence of requests (key, time), answered in order.\<close>

fun check_run :: "windows \<Rightarrow> (string \<times> nat) list \<Rightarrow> (string \<times> nat \<times> bool) list \<times> windows" where
  "check_run w [] = ([], w)"
| "check_run w ((key, now) # rs) =
     (let (ok, w) = check w key now; (as, w) = check_run w rs in ((key, now, ok) # as, w))"

definition accepts :: "string \<Rightarrow> (string \<times> nat \<times> bool) list \<Rightarrow> nat" where
  "accepts key as = length (filter (\<lambda>(k, _, ok). k = key \<and> ok) as)"

section \<open>Session tokens\<close>

record claims =
  sub :: string
  exp :: nat

text \<open>
  \<open>jsonwebtoken\<close>: encoding claims under a secret, and decoding a token under a secret at a given
  time (the default validation checks \<open>exp\<close>).
\<close>

record jwt_lib =
  encode :: "claims \<Rightarrow> string \<Rightarrow> string + string"
  decode :: "string \<Rightarrow> string \<Rightarrow> nat \<Rightarrow> string + claims"

definition jwt_sign :: "jwt_lib \<Rightarrow> nat \<Rightarrow> string \<Rightarrow> string \<Rightarrow> string result" where
  "jwt_sign J now vault_id secret =
     map_err Jwt (encode J \<lparr>sub = vault_id, exp = now + JWT_EXPIRY_SECS\<rparr> secret)"

definition jwt_verify :: "jwt_lib \<Rightarrow> nat \<Rightarrow> string \<Rightarrow> string \<Rightarrow> string result" where
  "jwt_verify J now token secret =
     bind_result (map_err Jwt (decode J token secret now)) (\<lambda>data. Inr (sub data))"

section \<open>Invariants of the limiter\<close>

text \<open>Keys are unique, no count exceeds the limit and the table is bounded.\<close>

definition limiter_wf :: "windows \<Rightarrow> bool" where
  "limiter_wf w \<longleftrightarrow> tbl_wf w \<and> length w \<le> AUTH_MAX_KEYS \<and>
     (\<forall>key start count. tbl_get w key = Some (start, count) \<longrightarrow> count \<le> AUTH_REQUEST_LIMIT)"

lemma limiter_wf_empty [simp]: "limiter_wf []"
  by (simp add: limiter_wf_def)

lemma tbl_wf_retain: "tbl_wf w \<Longrightarrow> tbl_wf (retain_windows now w)"
  by (simp add: retain_windows_def tbl_wf_keep)

lemma get_retain: "tbl_wf w \<Longrightarrow> tbl_get (retain_windows now w) key =
    (case tbl_get w key of None \<Rightarrow> None
     | Some (start, count) \<Rightarrow> if now - start < AUTH_WINDOW_SECS then Some (start, count) else None)"
  by (auto simp: retain_windows_def tbl_get_keep sat_sub_def split: option.splits)

lemma length_retain: "length (retain_windows now w) \<le> length w"
  by (simp add: retain_windows_def tbl_keep_def)

lemma limiter_wf_retain: "limiter_wf w \<Longrightarrow> limiter_wf (retain_windows now w)"
  using length_retain [of now w]
  by (auto simp: limiter_wf_def tbl_wf_retain get_retain split: option.splits if_splits)

lemma check_wf: "limiter_wf w \<Longrightarrow> limiter_wf (snd (check w key now))"
proof -
  assume "limiter_wf w"
  then have wf: "limiter_wf (retain_windows now w)"
    by (rule limiter_wf_retain)
  then show ?thesis
    unfolding check_def Let_def
    by (auto simp: limiter_wf_def sql.wf_put sql.get_put length_tbl_put split: option.splits)
qed

lemma check_run_wf: "limiter_wf w \<Longrightarrow> limiter_wf (snd (check_run w rs))"
proof (induction rs arbitrary: w)
  case (Cons r rs)
  then show ?case
    by (cases r) (simp add: Let_def split_beta check_wf)
qed simp

text \<open>
  What a key may still be granted within the period \<open>[T, T + 60)\<close>: a window that started inside the
  period does not close in it, one that started before it may close once.
\<close>

definition budget :: "nat \<Rightarrow> string \<Rightarrow> windows \<Rightarrow> nat" where
  "budget T key w = (case tbl_get w key of
      None \<Rightarrow> AUTH_REQUEST_LIMIT
    | Some (start, count) \<Rightarrow>
        if T \<le> start then AUTH_REQUEST_LIMIT - count else 2 * AUTH_REQUEST_LIMIT - count)"

lemma budget_retain:
  "limiter_wf w \<Longrightarrow> now < T + AUTH_WINDOW_SECS \<Longrightarrow>
   budget T key (retain_windows now w) \<le> budget T key w"
  by (force simp: budget_def limiter_wf_def get_retain auth_consts split: option.splits)

lemma check_budget:
  assumes "limiter_wf w" and "T \<le> now" and "now < T + AUTH_WINDOW_SECS"
  shows "budget T key (snd (check w k now)) + (if k = key \<and> fst (check w k now) then 1 else 0)
    \<le> budget T key w"
proof -
  let ?r = "retain_windows now w"
  have "budget T key (snd (check w k now)) + (if k = key \<and> fst (check w k now) then 1 else 0)
      \<le> budget T key ?r"
    using limiter_wf_retain [OF assms(1), of now] assms(2)
    by (auto simp: check_def Let_def budget_def limiter_wf_def sql.get_put auth_consts
        split: option.splits if_splits)
  also have "\<dots> \<le> budget T key w"
    using assms by (intro budget_retain)
  finally show ?thesis .
qed

lemma check_run_budget:
  "limiter_wf w \<Longrightarrow> \<forall>(k, now) \<in> set rs. T \<le> now \<and> now < T + AUTH_WINDOW_SECS \<Longrightarrow>
   accepts key (fst (check_run w rs)) + budget T key (snd (check_run w rs)) \<le> budget T key w"
proof (induction rs arbitrary: w)
  case Nil
  then show ?case by (simp add: accepts_def)
next
  case (Cons r rs)
  obtain k now where r: "r = (k, now)" by force
  let ?w = "snd (check w k now)"
  have "accepts key (fst (check_run ?w rs)) + budget T key (snd (check_run ?w rs)) \<le> budget T key ?w"
    using Cons r by (auto intro: check_wf)
  moreover have "budget T key ?w + (if k = key \<and> fst (check w k now) then 1 else 0) \<le> budget T key w"
    using Cons.prems r by (intro check_budget) auto
  ultimately show ?case
    using r by (auto simp: Let_def split_beta accepts_def)
qed

lemma budget_le: "budget T key w \<le> 2 * AUTH_REQUEST_LIMIT"
  by (auto simp: budget_def split: option.splits)

text \<open>Within its window a key is granted what is left of its ten requests.\<close>

lemma check_in_window:
  assumes "limiter_wf w" and "tbl_get w key = Some (start, count)" and "now - start < AUTH_WINDOW_SECS"
  shows "fst (check w key now) \<longleftrightarrow> count < AUTH_REQUEST_LIMIT"
    and "tbl_get (snd (check w key now)) key = Some (start, min (Suc count) AUTH_REQUEST_LIMIT)"
proof -
  have "tbl_get (retain_windows now w) key = Some (start, count)" and "count \<le> AUTH_REQUEST_LIMIT"
    using assms by (auto simp: get_retain limiter_wf_def)
  then show "fst (check w key now) \<longleftrightarrow> count < AUTH_REQUEST_LIMIT"
    and "tbl_get (snd (check w key now)) key = Some (start, min (Suc count) AUTH_REQUEST_LIMIT)"
    by (auto simp: check_def Let_def sql.get_put)
qed

lemma accepts_in_window:
  "limiter_wf w \<Longrightarrow> tbl_get w key = Some (start, count) \<Longrightarrow> count \<le> AUTH_REQUEST_LIMIT \<Longrightarrow>
   \<forall>t \<in> set ts. t - start < AUTH_WINDOW_SECS \<Longrightarrow>
   accepts key (fst (check_run w (map (Pair key) ts))) = min (AUTH_REQUEST_LIMIT - count) (length ts)"
proof (induction ts arbitrary: w count)
  case Nil
  then show ?case by (simp add: accepts_def)
next
  case (Cons t ts)
  let ?w = "snd (check w key t)" and ?c = "min (Suc count) AUTH_REQUEST_LIMIT"
  have "accepts key (fst (check_run ?w (map (Pair key) ts))) =
      min (AUTH_REQUEST_LIMIT - ?c) (length ts)"
    using Cons.prems by (intro Cons.IH) (simp_all add: check_in_window check_wf)
  then show ?case
    using Cons.prems check_in_window(1) [of w key start count t]
    by (auto simp: Let_def split_beta accepts_def)
qed

lemma check_opens_window:
  assumes "limiter_wf w" and "tbl_get (retain_windows now w) key = None" and "length w < AUTH_MAX_KEYS"
  shows "check w key now = (True, snd (check w key now))"
    and "tbl_get (snd (check w key now)) key = Some (now, 1)"
proof -
  have "length (retain_windows now w) < AUTH_MAX_KEYS"
    using length_retain [of now w] assms(3) by simp
  then show "check w key now = (True, snd (check w key now))"
    and "tbl_get (snd (check w key now)) key = Some (now, 1)"
    using assms(2) by (auto simp: check_def Let_def sql.get_put auth_consts)
qed

section \<open>Properties\<close>

text \<open>
  The comparison of secrets accepts exactly the equal strings, although it accumulates
  differences instead of returning at the first one.  (The lengths are those a 64-bit machine has.)
\<close>

theorem constant_time_eq_correct:
  assumes "length a < 2 ^ 64" and "length b < 2 ^ 64"
  shows "constant_time_eq a b \<longleftrightarrow> a = b"
  using assms by (rule constant_time_eq_iff)

theorem constant_time_eq_correct_witness:
  "constant_time_eq ''secret'' ''secret'' \<and> \<not> constant_time_eq ''secret'' ''secreT''"
  using constant_time_eq_correct [of "''secret''" "''secret''"]
    constant_time_eq_correct [of "''secret''" "''secreT''"] by simp

text \<open>
  Whatever requests came before, from whatever keys, a key is granted at most twenty requests
  within any sixty seconds (two windows of ten can touch such a period).
\<close>

theorem limiter_bounds_requests:
  assumes "\<forall>(k, now) \<in> set period. T \<le> now \<and> now < T + AUTH_WINDOW_SECS"
  shows "accepts key (fst (check_run (snd (check_run [] history)) period)) \<le> 2 * AUTH_REQUEST_LIMIT"
proof -
  let ?w = "snd (check_run [] history)"
  have "limiter_wf ?w"
    by (intro check_run_wf limiter_wf_empty)
  then have "accepts key (fst (check_run ?w period)) \<le> budget T key ?w"
    using check_run_budget [OF _ assms, of ?w key] by simp
  then show ?thesis
    using budget_le [of T key ?w] by linarith
qed

theorem limiter_bounds_requests_witness:
  "accepts ''ip'' (fst (check_run (snd (check_run [] [(''ip'', 5), (''jp'', 6)])) [(''ip'', 40)])) \<le> 20"
  using limiter_bounds_requests [of "[(''ip'', 40)]" 10 "''ip''" "[(''ip'', 5), (''jp'', 6)]"]
  by (simp add: auth_consts)

text \<open>
  Under any sequence of requests the table of the limiter stays within its cap, and a request is
  granted exactly when its key has an open window with requests left, or has none and the table has
  room: a full table refuses unknown keys.
\<close>

theorem limiter_bounded_fails_closed:
  fixes history :: "(string \<times> nat) list"
  defines "w \<equiv> snd (check_run [] history)"
  shows "length w \<le> AUTH_MAX_KEYS \<and>
    fst (check w key now) = (case tbl_get (retain_windows now w) key of
        Some (start, count) \<Rightarrow> count < AUTH_REQUEST_LIMIT
      | None \<Rightarrow> length (retain_windows now w) < AUTH_MAX_KEYS)"
  using check_run_wf [OF limiter_wf_empty, of history]
  by (auto simp: w_def limiter_wf_def check_def Let_def auth_consts split: option.splits)

text \<open>
  A client with no open window, while the table has room, is granted exactly its first ten
  requests of the window that its first request opens.
\<close>

theorem limiter_grants_ten:
  assumes "w = snd (check_run [] history)" and "length w < AUTH_MAX_KEYS"
    and "tbl_get (retain_windows t w) key = None"
    and "\<forall>t' \<in> set ts. t' - t < AUTH_WINDOW_SECS"
  shows "accepts key (fst (check_run w (map (Pair key) (t # ts)))) = min AUTH_REQUEST_LIMIT (Suc (length ts))"
proof -
  have wf: "limiter_wf w"
    unfolding assms(1) by (intro check_run_wf limiter_wf_empty)
  note open_w = check_opens_window [OF wf assms(3,2)]
  have "accepts key (fst (check_run (snd (check w key t)) (map (Pair key) ts))) =
      min (AUTH_REQUEST_LIMIT - 1) (length ts)"
    using assms(4) open_w(2) check_wf [OF wf, of key t]
    by (intro accepts_in_window) (simp_all add: auth_consts)
  moreover have "fst (check w key t)"
    by (subst open_w(1)) simp
  ultimately show ?thesis
    by (simp add: Let_def split_beta accepts_def auth_consts)
qed

theorem limiter_grants_ten_witness:
  "accepts ''ip'' (fst (check_run [] (map (Pair ''ip'') (100 # replicate 14 (120::nat))))) = 10"
  using limiter_grants_ten [of "[]" "[]" 100 "''ip''" "replicate 14 120"]
  by (simp add: auth_consts retain_windows_def tbl_keep_def)

end
