(* ===== verification/Sql.thy ===== *)
theory Sql
  imports Errors
begin

text \<open>
  The database: the tables of \<open>migrations/*.sql\<close> as a record, and the connection of \<open>src/db.rs\<close>
  (\<open>Db\<close>, one SQLite connection behind a mutex) as a state that a computation threads.

  A computation of type \<open>'a io\<close> returns a value or a \<open>ServerError\<close> and the connection it leaves.
  \<open>and_then\<close> is the \<open>?\<close> operator.  Every SQL statement is a \<open>stmt\<close>, and every statement may fail:
  \<open>faults\<close> is the schedule of the failures SQLite will report (disk full, busy, I/O error), one entry
  per statement, unknown to the code; a statement that fails changes nothing.  \<open>transaction\<close> restores
  the tables when its body or its commit fails, as dropping a \<open>rusqlite::Transaction\<close> does.  \<open>now\<close> is
  what \<open>datetime('now')\<close> reads.
\<close>

section \<open>Schema\<close>

record vault_row =
  api_key :: string
  vault_created_at :: timestamp
  quota_bytes :: "int option"

record doc_row =
  snapshot_blob :: bytes
  vv_blob :: bytes
  updated_at :: timestamp
  incarnation :: int

record tombstone_row =
  deleted_by :: string
  deleted_at :: timestamp
  content_hash :: "string option"
  tombstone_incarnation :: int

record peer_row =
  device_name :: string
  last_seen_at :: timestamp

record invite_row =
  invite_vault_id :: string
  token_hash :: string
  inviter_peer_id :: string
  invite_device_name :: "string option"
  invite_created_at :: timestamp
  expires_at :: timestamp
  used_at :: "timestamp option"

record device_key_row =
  key_hash :: string
  key_device_name :: "string option"
  key_created_at :: timestamp
  revoked_at :: "timestamp option"

record blob_row =
  blob_size :: int
  blob_created_at :: timestamp

record path_row =
  display_path :: string
  key_version :: int
  generation :: int
  path_state :: string
  path_hash :: "string option"
  path_size :: "int option"
  path_peer_id :: string
  path_updated_at :: timestamp
  seq :: int
  env_json :: "string option"

record upload_row =
  upload_vault_id :: string
  hash_claimed :: string
  size_claimed :: int
  received_bytes :: int
  upload_created_at :: timestamp
  upload_updated_at :: timestamp

text \<open>Each table is keyed by its primary key; \<open>invites\<close> by its autoincremented id.\<close>

record db =
  vaults :: "(string, vault_row) table"
  documents :: "(string \<times> string, doc_row) table"
  tombstones :: "(string \<times> string, tombstone_row) table"
  vault_incarnation :: "(string, int) table"
  peers :: "(string \<times> string, peer_row) table"
  invites :: "(int, invite_row) table"
  invites_seq :: int
  device_keys :: "(string \<times> string, device_key_row) table"
  blobs :: "(string \<times> string, blob_row) table"
  blob_path_states :: "(string \<times> string, path_row) table"
  blob_uploads :: "(string, upload_row) table"
  blob_seq :: int

definition empty_db :: db where
  "empty_db = \<lparr>vaults = [], documents = [], tombstones = [], vault_incarnation = [], peers = [],
     invites = [], invites_seq = 0, device_keys = [], blobs = [], blob_path_states = [],
     blob_uploads = [], blob_seq = 0\<rparr>"

text \<open>The uniqueness of every primary key and the \<open>CHECK\<close> of \<open>006_incarnation.sql\<close>.\<close>

definition db_wf :: "db \<Rightarrow> bool" where
  "db_wf d \<longleftrightarrow> tbl_wf (vaults d) \<and> tbl_wf (documents d) \<and> tbl_wf (tombstones d) \<and>
     tbl_wf (vault_incarnation d) \<and> tbl_wf (peers d) \<and> tbl_wf (invites d) \<and>
     tbl_wf (device_keys d) \<and> tbl_wf (blobs d) \<and> tbl_wf (blob_path_states d) \<and>
     tbl_wf (blob_uploads d) \<and> (\<forall>v n. tbl_get (vault_incarnation d) v = Some n \<longrightarrow> 2 \<le> n)"

lemma empty_db_wf: "db_wf empty_db"
  by (simp add: db_wf_def empty_db_def)

section \<open>The connection\<close>

record conn =
  tables :: db
  faults :: "string option list"
  now :: timestamp

type_synonym 'a io = "conn \<Rightarrow> 'a result \<times> conn"

definition ok :: "'a \<Rightarrow> 'a io" where
  "ok x c = (Inr x, c)"

definition lift :: "'a result \<Rightarrow> 'a io" where
  "lift r c = (r, c)"

definition and_then :: "'a io \<Rightarrow> ('a \<Rightarrow> 'b io) \<Rightarrow> 'b io" where
  "and_then m f c = (case m c of (Inl e, c') \<Rightarrow> (Inl e, c') | (Inr x, c') \<Rightarrow> f x c')"

text \<open>
  One SQL statement at the current time: it fails if the schedule says so or if the statement itself
  does (a constraint), and then changes nothing.
\<close>

definition stmt :: "(timestamp \<Rightarrow> db \<Rightarrow> string + 'a \<times> db) \<Rightarrow> 'a io" where
  "stmt f c =
     (let fault = (case faults c of [] \<Rightarrow> None | x # _ \<Rightarrow> x);
          c = c\<lparr>faults := tl (faults c)\<rparr>
      in case fault of
           Some e \<Rightarrow> (Inl (Db e), c)
         | None \<Rightarrow> (case f (now c) (tables c) of
               Inl e \<Rightarrow> (Inl (Db e), c)
             | Inr (x, d) \<Rightarrow> (Inr x, c\<lparr>tables := d\<rparr>)))"

definition query :: "(timestamp \<Rightarrow> db \<Rightarrow> 'a) \<Rightarrow> 'a io" where
  "query f = stmt (\<lambda>t d. Inr (f t d, d))"

definition exec :: "(timestamp \<Rightarrow> db \<Rightarrow> db) \<Rightarrow> unit io" where
  "exec f = stmt (\<lambda>t d. Inr ((), f t d))"

text \<open>\<open>BEGIN\<close>, the body, \<open>COMMIT\<close>; an error anywhere leaves the tables as they were.\<close>

definition transaction :: "'a io \<Rightarrow> 'a io" where
  "transaction m c =
     (case and_then (exec (\<lambda>_ d. d)) (\<lambda>_. and_then m (\<lambda>x. and_then (exec (\<lambda>_ d. d)) (\<lambda>_. ok x))) c of
        (Inl e, c') \<Rightarrow> (Inl e, c'\<lparr>tables := tables c\<rparr>)
      | (Inr x, c') \<Rightarrow> (Inr x, c'))"

text \<open>
  A gap in which the mutex of the connection is released: other requests do \<open>g\<close>, which may change the
  tables, the clock and the failures to come in any way.
\<close>

definition unlocked :: "(conn \<Rightarrow> conn) \<Rightarrow> unit io" where
  "unlocked g c = (Inr (), g c)"

section \<open>Rules\<close>

text \<open>
  The components need two shapes of fact: what a successful run does to the tables, and that every
  run, failed or not, keeps a property of the tables.
\<close>

lemma ok_run [simp]: "ok x c = (Inr x, c)"
  by (simp add: ok_def)

lemma lift_run [simp]: "lift r c = (r, c)"
  by (simp add: lift_def)

lemma unlocked_run [simp]: "unlocked g c = (Inr (), g c)"
  by (simp add: unlocked_def)

lemma and_then_Inr: "and_then m f c = (Inr y, c') \<longleftrightarrow>
    (\<exists>x c1. m c = (Inr x, c1) \<and> f x c1 = (Inr y, c'))"
  by (auto simp: and_then_def split: prod.splits sum.splits)

lemma and_then_Inl: "and_then m f c = (Inl e, c') \<longleftrightarrow>
    m c = (Inl e, c') \<or> (\<exists>x c1. m c = (Inr x, c1) \<and> f x c1 = (Inl e, c'))"
  by (auto simp: and_then_def split: prod.splits sum.splits)

lemma stmt_Inr: "stmt f c = (Inr x, c') \<longleftrightarrow>
    (\<exists>d. (case faults c of [] \<Rightarrow> True | x # _ \<Rightarrow> x = None) \<and> f (now c) (tables c) = Inr (x, d) \<and>
       c' = c\<lparr>faults := tl (faults c), tables := d\<rparr>)"
  by (auto simp: stmt_def Let_def split: option.splits sum.splits list.splits)

lemma stmt_Inl_tables: "stmt f c = (Inl e, c') \<Longrightarrow> tables c' = tables c"
  by (auto simp: stmt_def Let_def split: option.splits sum.splits list.splits prod.splits)

lemma query_Inr: "query f c = (Inr x, c') \<Longrightarrow> x = f (now c) (tables c) \<and> tables c' = tables c \<and> now c' = now c"
  by (auto simp: query_def stmt_Inr)

lemma query_tables: "tables (snd (query f c)) = tables c"
  by (auto simp: query_def stmt_def Let_def split: option.splits sum.splits list.splits)

lemma exec_Inr: "exec f c = (Inr u, c') \<Longrightarrow> tables c' = f (now c) (tables c) \<and> now c' = now c"
  by (auto simp: exec_def stmt_Inr)

lemma transaction_Inl: "transaction m c = (Inl e, c') \<Longrightarrow> tables c' = tables c"
  by (auto simp: transaction_def split: prod.splits sum.splits)

lemma transaction_Inr: "transaction m c = (Inr x, c') \<Longrightarrow>
    \<exists>c1 c2. tables c1 = tables c \<and> now c1 = now c \<and> m c1 = (Inr x, c2) \<and> tables c' = tables c2"
  by (auto simp: transaction_def and_then_Inr split: prod.splits sum.splits dest!: exec_Inr)

text \<open>With nothing scheduled to fail, the computations are the plain functions they describe.\<close>

lemma stmt_no_fault: "faults c = [] \<Longrightarrow> stmt f c =
    (case f (now c) (tables c) of Inl e \<Rightarrow> (Inl (Db e), c) | Inr (x, d) \<Rightarrow> (Inr x, c\<lparr>tables := d\<rparr>))"
  by (cases c) (auto simp: stmt_def Let_def split: sum.splits)

lemma query_no_fault: "faults c = [] \<Longrightarrow> query f c = (Inr (f (now c) (tables c)), c)"
  by (simp add: query_def stmt_no_fault)

lemma exec_no_fault:
  "faults c = [] \<Longrightarrow> exec f c = (Inr (), c\<lparr>tables := f (now c) (tables c)\<rparr>)"
  by (simp add: exec_def stmt_no_fault)

lemmas no_fault = stmt_no_fault query_no_fault exec_no_fault

text \<open>A computation keeps a property of the tables if it holds after every outcome.\<close>

definition keeps :: "(db \<Rightarrow> bool) \<Rightarrow> 'a io \<Rightarrow> bool" where
  "keeps P m \<longleftrightarrow> (\<forall>c. P (tables c) \<longrightarrow> P (tables (snd (m c))))"

named_theorems keeps_intros \<open>rules for computations that keep a property of the tables\<close>

lemma keepsD: "keeps P m \<Longrightarrow> m c = (r, c') \<Longrightarrow> P (tables c) \<Longrightarrow> P (tables c')"
  by (auto simp: keeps_def dest: spec [where x = c])

lemma keeps_ok [keeps_intros]: "keeps P (ok x)"
  by (simp add: keeps_def)

lemma keeps_lift [keeps_intros]: "keeps P (lift r)"
  by (simp add: keeps_def)

lemma keeps_query [keeps_intros]: "keeps P (query f)"
  by (simp add: keeps_def query_tables)

lemma keeps_and_then [keeps_intros]:
  "keeps P m \<Longrightarrow> (\<And>x. keeps P (f x)) \<Longrightarrow> keeps P (and_then m f)"
  by (auto simp: keeps_def and_then_def split: prod.splits sum.splits)

lemma keeps_stmt:
  "(\<And>t d x d'. P d \<Longrightarrow> f t d = Inr (x, d') \<Longrightarrow> P d') \<Longrightarrow> keeps P (stmt f)"
  unfolding keeps_def stmt_def Let_def
  by (auto split: option.splits sum.splits list.splits prod.splits)

lemma keeps_exec: "(\<And>t d. P d \<Longrightarrow> P (f t d)) \<Longrightarrow> keeps P (exec f)"
  unfolding exec_def by (rule keeps_stmt) auto

lemma keeps_transaction:
  "keeps P m \<Longrightarrow> keeps P (transaction m)"
proof -
  assume m: "keeps P m"
  have "keeps P (and_then (exec (\<lambda>_ d. d)) (\<lambda>_. and_then m (\<lambda>x. and_then (exec (\<lambda>_ d. d)) (\<lambda>_. ok x))))"
    using m by (intro keeps_and_then keeps_exec keeps_ok)
  then show ?thesis
    unfolding keeps_def transaction_def
    by (auto split: prod.splits sum.splits)
qed

lemma keeps_option [keeps_intros]:
  "(x = None \<Longrightarrow> keeps P m) \<Longrightarrow> (\<And>y. x = Some y \<Longrightarrow> keeps P (f y)) \<Longrightarrow>
   keeps P (case x of None \<Rightarrow> m | Some y \<Rightarrow> f y)"
  by (cases x) auto

lemma keeps_if [keeps_intros]:
  "(b \<Longrightarrow> keeps P m) \<Longrightarrow> (\<not> b \<Longrightarrow> keeps P m') \<Longrightarrow> keeps P (if b then m else m')"
  by simp

lemma keeps_prod [keeps_intros]: "(\<And>a b. keeps P (f a b)) \<Longrightarrow> keeps P (case x of (a, b) \<Rightarrow> f a b)"
  by (cases x) auto

end
