(* ===== verification/Fnv.thy ===== *)
theory Fnv
  imports Prelude
begin

text \<open>
  \<open>src/fnv.rs\<close>: FNV-1a over the UTF-16 code units of a text, in 64-bit arithmetic that wraps, printed
  as 16 hexadecimal digits.  A text is the list of its Unicode scalar values.
\<close>

unbundle bit_operations_syntax

section \<open>UTF-16\<close>

type_synonym scalar = nat

definition is_scalar :: "scalar \<Rightarrow> bool" where
  "is_scalar c \<longleftrightarrow> c < 0xD800 \<or> 0xE000 \<le> c \<and> c < 0x110000"

text \<open>\<open>str::encode_utf16\<close>: a unit for a scalar of the basic plane, else a surrogate pair.\<close>

fun encode_scalar :: "scalar \<Rightarrow> nat list" where
  "encode_scalar c =
     (if c < 0x10000 then [c]
      else [0xD800 + (c - 0x10000) div 0x400, 0xDC00 + (c - 0x10000) mod 0x400])"

definition encode_utf16 :: "scalar list \<Rightarrow> nat list" where
  "encode_utf16 s = concat (map encode_scalar s)"

text \<open>The decoding that JavaScript's string iterator does, to state that no text is confused.\<close>

fun decode_utf16 :: "nat list \<Rightarrow> scalar list" where
  "decode_utf16 (u # v # us) =
     (if 0xD800 \<le> u \<and> u < 0xDC00 then (0x10000 + (u - 0xD800) * 0x400 + (v - 0xDC00)) # decode_utf16 us
      else u # decode_utf16 (v # us))"
| "decode_utf16 us = us"

section \<open>The hash\<close>

definition OFFSET :: "64 word" where
  "OFFSET = 0xcbf29ce484222325"

definition PRIME :: "64 word" where
  "PRIME = 0x100000001b3"

definition fnv_step :: "64 word \<Rightarrow> nat \<Rightarrow> 64 word" where
  "fnv_step hash unit = (hash XOR word_of_nat unit) * PRIME"

definition hex_digit :: "nat \<Rightarrow> char" where
  "hex_digit d = (if d < 10 then char_of (48 + d) else char_of (87 + d))"

text \<open>\<open>format!("{:0wx}", n)\<close> for \<open>n < 16 ^ w\<close>: the \<open>w\<close> low digits.\<close>

fun hex_padded :: "nat \<Rightarrow> nat \<Rightarrow> string" where
  "hex_padded 0 n = []"
| "hex_padded (Suc w) n = hex_padded w (n div 16) @ [hex_digit (n mod 16)]"

definition fnv1a_64_hex :: "scalar list \<Rightarrow> string" where
  "fnv1a_64_hex s = hex_padded 16 (unat (foldl fnv_step OFFSET (encode_utf16 s)))"

section \<open>Facts\<close>

lemma decode_encode_scalar:
  "is_scalar c \<Longrightarrow> decode_utf16 (encode_scalar c @ us) = c # decode_utf16 us"
proof (cases "c < 0x10000")
  case True
  assume "is_scalar c"
  with True show ?thesis
    by (cases us) (auto simp: is_scalar_def)
next
  case False
  assume "is_scalar c"
  with False have lt: "(c - 0x10000) div 0x400 < 0x400"
    by (auto simp: is_scalar_def div_less_iff_less_mult)
  have "0x10000 + (c - 0x10000) div 0x400 * 0x400 + (c - 0x10000) mod 0x400 = c"
    using False by simp
  with lt False show ?thesis by simp
qed

lemma decode_encode_utf16:
  "list_all is_scalar s \<Longrightarrow> decode_utf16 (encode_utf16 s) = s"
  unfolding encode_utf16_def
  by (induction s) (auto simp: decode_encode_scalar simp del: encode_scalar.simps)

lemma length_hex_padded [simp]: "length (hex_padded w n) = w"
  by (induction w arbitrary: n) auto

lemma hex_digit_value:
  "d < 16 \<Longrightarrow> code (hex_digit d) = (if d < 10 then 48 + d else 87 + d)"
  by (simp add: hex_digit_def code_def)

definition is_hex_lower :: "char \<Rightarrow> bool" where
  "is_hex_lower c \<longleftrightarrow> is_ascii_digit c \<or> 97 \<le> code c \<and> code c \<le> 102"

lemma is_hex_lower_digit: "d < 16 \<Longrightarrow> is_hex_lower (hex_digit d)"
  by (simp add: is_hex_lower_def is_ascii_digit_def hex_digit_value)

lemma hex_padded_lower: "list_all is_hex_lower (hex_padded w n)"
  by (induction w arbitrary: n) (auto simp: is_hex_lower_digit)

lemma hex_digit_inject: "d < 16 \<Longrightarrow> e < 16 \<Longrightarrow> hex_digit d = hex_digit e \<Longrightarrow> d = e"
proof -
  assume "d < 16" "e < 16" "hex_digit d = hex_digit e"
  then have "(if d < 10 then 48 + d else 87 + d) = (if e < 10 then 48 + e else 87 + e)"
    using hex_digit_value [of d] hex_digit_value [of e] by simp
  then show "d = e"
    using \<open>d < 16\<close> \<open>e < 16\<close> by (simp split: if_splits)
qed

lemma hex_padded_inject:
  "m < 16 ^ w \<Longrightarrow> n < 16 ^ w \<Longrightarrow> hex_padded w m = hex_padded w n \<Longrightarrow> m = n"
proof (induction w arbitrary: m n)
  case (Suc w)
  have "m div 16 < 16 ^ w" "n div 16 < 16 ^ w"
    using Suc.prems(1,2) by (simp_all add: div_less_iff_less_mult mult.commute)
  moreover have "hex_padded w (m div 16) = hex_padded w (n div 16)"
    and "hex_digit (m mod 16) = hex_digit (n mod 16)"
    using Suc.prems(3) by simp_all
  ultimately have "m div 16 = n div 16" "m mod 16 = n mod 16"
    using Suc.IH hex_digit_inject by auto
  then show ?case
    by (metis div_mult_mod_eq)
qed simp

text \<open>The multiplier is odd, so a step of the hash loses nothing of the running value.\<close>

definition PRIME_INV :: "64 word" where
  "PRIME_INV = 0xce965057aff6957b"

lemma PRIME_inverse: "PRIME * PRIME_INV = 1"
  by (simp add: PRIME_def PRIME_INV_def)

lemma fnv_step_inject: "fnv_step h u = fnv_step k u \<Longrightarrow> h = k"
proof -
  assume "fnv_step h u = fnv_step k u"
  then have "(h XOR word_of_nat u) * PRIME * PRIME_INV = (k XOR word_of_nat u) * PRIME * PRIME_INV"
    by (simp add: fnv_step_def)
  then have "h XOR word_of_nat u = k XOR word_of_nat u"
    by (simp add: mult.assoc PRIME_inverse)
  then have "(h XOR word_of_nat u) XOR word_of_nat u = (k XOR word_of_nat u) XOR word_of_nat u"
    by simp
  then show "h = k"
    by (simp add: xor.assoc)
qed

lemma foldl_fnv_inject: "foldl fnv_step h us = foldl fnv_step k us \<Longrightarrow> h = k"
  by (induction us arbitrary: h k) (auto dest: fnv_step_inject)

lemma fnv_step_unit_inject:
  "u < 2 ^ 16 \<Longrightarrow> v < 2 ^ 16 \<Longrightarrow> fnv_step h u = fnv_step h v \<Longrightarrow> u = v"
proof -
  assume bounds: "u < 2 ^ 16" "v < 2 ^ 16" and eq: "fnv_step h u = fnv_step h v"
  from eq have "(h XOR word_of_nat u) * PRIME * PRIME_INV = (h XOR word_of_nat v) * PRIME * PRIME_INV"
    by (simp add: fnv_step_def)
  then have "h XOR word_of_nat u = h XOR word_of_nat v"
    by (simp add: mult.assoc PRIME_inverse)
  then have "h XOR (h XOR word_of_nat u) = h XOR (h XOR word_of_nat v)"
    by simp
  then have "(word_of_nat u :: 64 word) = word_of_nat v"
    by (simp add: xor.assoc [symmetric])
  then have "unat (word_of_nat u :: 64 word) = unat (word_of_nat v :: 64 word)"
    by simp
  then show "u = v"
    using bounds by (simp add: unat_of_nat)
qed

section \<open>Properties\<close>

text \<open>
  The hash of any text prints as sixteen lowercase hexadecimal digits, and two texts print alike
  only when their 64-bit hashes are equal.
\<close>

theorem fnv_hex_format:
  "length (fnv1a_64_hex s) = 16 \<and> list_all is_hex_lower (fnv1a_64_hex s) \<and>
   (fnv1a_64_hex s = fnv1a_64_hex t \<longleftrightarrow>
     foldl fnv_step OFFSET (encode_utf16 s) = foldl fnv_step OFFSET (encode_utf16 t))"
proof -
  have "unat (h :: 64 word) < 16 ^ 16" for h
    using unsigned_less [of h] by simp
  then show ?thesis
    unfolding fnv1a_64_hex_def
    using hex_padded_inject [of _ 16] by (auto simp: hex_padded_lower word_unat_eq_iff)
qed

text \<open>
  An edit of a note that changes one UTF-16 code unit changes the printed hash, so the hash a
  tombstone keeps tells the deleted text from every text one unit away.
\<close>

theorem fnv_detects_unit_edit:
  assumes "encode_utf16 s = a @ u # b" and "encode_utf16 t = a @ v # b"
    and "u < 2 ^ 16" and "v < 2 ^ 16" and "u \<noteq> v"
  shows "fnv1a_64_hex s \<noteq> fnv1a_64_hex t"
proof
  assume eq: "fnv1a_64_hex s = fnv1a_64_hex t"
  let ?h = "foldl fnv_step OFFSET a"
  have "unat (h :: 64 word) < 16 ^ 16" for h
    using unsigned_less [of h] by simp
  then have "foldl fnv_step OFFSET (a @ u # b) = foldl fnv_step OFFSET (a @ v # b)"
    using eq hex_padded_inject [of _ 16] assms(1,2)
    by (simp add: fnv1a_64_hex_def word_unat_eq_iff)
  then have "fnv_step ?h u = fnv_step ?h v"
    using foldl_fnv_inject by simp
  then show False
    using fnv_step_unit_inject assms(3-5) by blast
qed

lemma hex_padded_numeral:
  "hex_padded (numeral w) n = hex_padded (pred_numeral w) (n div 16) @ [hex_digit (n mod 16)]"
  by (subst numeral_eq_Suc) (rule hex_padded.simps)

lemmas fnv_eval = fnv1a_64_hex_def encode_utf16_def fnv_step_def OFFSET_def PRIME_def code_def
  hex_padded_numeral hex_digit_def char_of_def bit_Suc_0_iff

lemma fnv_golden:
  "fnv1a_64_hex [] = ''cbf29ce484222325''"
  "fnv1a_64_hex (map code ''vaultcrdt fnv golden'') = ''a6a9b25f2a464e61''"
  "fnv1a_64_hex ([228, 246, 252, 8364] @ map code '' deleter t'' @ [228] @ map code ''st'') =
     ''708d67b2a1da6d2f''"
  by (simp_all add: fnv_eval)

theorem fnv_detects_unit_edit_witness: "fnv1a_64_hex [65] \<noteq> fnv1a_64_hex [66]"
  by (rule fnv_detects_unit_edit [of _ "[]" 65 "[]" _ 66]) (simp_all add: encode_utf16_def)

end
