(* ===== verification/Loro.thy ===== *)
theory Loro
  imports Errors Fnv
begin

text \<open>
  The third-party code the document lane calls, as a record of functions that the definitions take
  as an argument: the Loro CRDT (\<open>LoroDoc\<close> and the binary form of its version vectors) and
  \<open>serde_json\<close> on string-keyed integer maps.  Then \<open>src/vv_serde.rs\<close>, the two encodings of a version
  vector.  Of the libraries only the documented facts below are ever assumed, each a predicate of
  its own that a theorem names where it needs it.
\<close>

section \<open>The libraries\<close>

text \<open>A version vector maps a peer id (\<open>u64\<close>) to a counter (\<open>i32\<close>), in its iteration order.\<close>

type_synonym version_vector = "(nat, int) table"

record blob_meta =
  change_num :: nat
  start_frontiers :: "(nat \<times> int) list"

record 'doc libs =
  new_doc :: 'doc
  import_doc :: "'doc \<Rightarrow> bytes \<Rightarrow> string + 'doc"
  oplog_vv :: "'doc \<Rightarrow> version_vector"
  export_snapshot :: "'doc \<Rightarrow> string + bytes"
  export_updates :: "'doc \<Rightarrow> version_vector \<Rightarrow> string + bytes"
  decode_import_blob_meta :: "bytes \<Rightarrow> string + blob_meta"
  content_text :: "'doc \<Rightarrow> scalar list"
  vv_encode :: "version_vector \<Rightarrow> bytes"
  vv_decode :: "bytes \<Rightarrow> string + version_vector"
  json_to_vec :: "(string, int) table \<Rightarrow> bytes"
  json_from_slice :: "bytes \<Rightarrow> string + (string, int) table"

section \<open>Version vectors on the wire and in the database\<close>

definition vv_to_json_bytes :: "'doc libs \<Rightarrow> version_vector \<Rightarrow> bytes" where
  "vv_to_json_bytes L vv = json_to_vec L (map (\<lambda>(k, v). (show_nat k, v)) vv)"

text \<open>The loop over the decoded map: it stops at the first key that is not a peer id.\<close>

fun insert_peers :: "version_vector \<Rightarrow> (string, int) table \<Rightarrow> version_vector result" where
  "insert_peers vv [] = Inr vv"
| "insert_peers vv ((peer_str, counter) # m) =
     (case parse_u64 peer_str of
        None \<Rightarrow> Inl (Sync (''invalid peer ID in VV: '' @ peer_str))
      | Some peer \<Rightarrow> insert_peers (tbl_put peer counter vv) m)"

definition vv_from_json_bytes :: "'doc libs \<Rightarrow> bytes \<Rightarrow> version_vector result" where
  "vv_from_json_bytes L bs =
     bind_result (map_err (\<lambda>e. Sync (''invalid VV JSON: '' @ e)) (json_from_slice L bs))
       (\<lambda>m. insert_peers [] m)"

definition vv_to_db_bytes :: "'doc libs \<Rightarrow> version_vector \<Rightarrow> bytes" where
  "vv_to_db_bytes L vv = vv_encode L vv"

definition vv_from_db_bytes :: "'doc libs \<Rightarrow> bytes \<Rightarrow> version_vector result" where
  "vv_from_db_bytes L bs = map_err (\<lambda>e. Sync (''invalid VV bytes: '' @ e)) (vv_decode L bs)"

section \<open>What is assumed of the libraries\<close>

text \<open>\<open>vv_le a b\<close>: whatever history \<open>a\<close> has, \<open>b\<close> has.\<close>

definition vv_le :: "version_vector \<Rightarrow> version_vector \<Rightarrow> bool" where
  "vv_le a b \<longleftrightarrow> (\<forall>p c. tbl_get a p = Some c \<longrightarrow> (\<exists>c'. tbl_get b p = Some c' \<and> c \<le> c'))"

text \<open>Importing never forgets: the history of the document only grows.\<close>

definition import_monotone :: "'doc libs \<Rightarrow> bool" where
  "import_monotone L \<longleftrightarrow> (\<forall>d b d'. import_doc L d b = Inr d' \<longrightarrow>
     vv_le (oplog_vv L d) (oplog_vv L d'))"

text \<open>A snapshot imported into an empty document gives the history it was exported with.\<close>

definition snapshot_faithful :: "'doc libs \<Rightarrow> bool" where
  "snapshot_faithful L \<longleftrightarrow> (\<forall>d b. export_snapshot L d = Inr b \<longrightarrow>
     (\<exists>d'. import_doc L (new_doc L) b = Inr d' \<and>
        tbl_get (oplog_vv L d') = tbl_get (oplog_vv L d)))"

text \<open>The binary encoding of a version vector decodes to the same mapping.\<close>

definition vv_codec_faithful :: "'doc libs \<Rightarrow> bool" where
  "vv_codec_faithful L \<longleftrightarrow> (\<forall>vv. \<exists>vv'. vv_decode L (vv_encode L vv) = Inr vv' \<and>
     tbl_get vv' = tbl_get vv)"

text \<open>\<open>serde_json\<close> reads a map back as it wrote it, up to the order of the entries.\<close>

definition json_faithful :: "'doc libs \<Rightarrow> bool" where
  "json_faithful L \<longleftrightarrow> (\<forall>m. tbl_wf m \<longrightarrow>
     (\<exists>m'. json_from_slice L (json_to_vec L m) = Inr m' \<and> tbl_wf m' \<and> set m' = set m))"

lemma vv_le_refl [simp]: "vv_le a a"
  by (auto simp: vv_le_def)

lemma vv_le_trans: "vv_le a b \<Longrightarrow> vv_le b c \<Longrightarrow> vv_le a c"
  unfolding vv_le_def by (meson order_trans)

lemma vv_le_get: "vv_le a b \<Longrightarrow> tbl_get b = tbl_get c \<Longrightarrow> vv_le a c"
  by (simp add: vv_le_def)

lemma insert_peers_shown:
  assumes "\<forall>(k, c) \<in> set vv. k < 2 ^ 64" and "distinct (map fst vv)"
  shows "\<exists>r. insert_peers acc (map (\<lambda>(k, v). (show_nat k, v)) vv) = Inr r \<and>
    (\<forall>p. tbl_get r p = (case tbl_get vv p of None \<Rightarrow> tbl_get acc p | Some c \<Rightarrow> Some c))"
  using assms
proof (induction vv arbitrary: acc)
  case Nil
  then show ?case by simp
next
  case (Cons e vv)
  obtain k c where e: "e = (k, c)" by force
  obtain r where r: "insert_peers (tbl_put k c acc) (map (\<lambda>(k, v). (show_nat k, v)) vv) = Inr r"
      "\<And>p. tbl_get r p = (case tbl_get vv p of None \<Rightarrow> tbl_get (tbl_put k c acc) p | Some c \<Rightarrow> Some c)"
    using Cons.IH [of "tbl_put k c acc"] Cons.prems by auto
  have k: "parse_u64 (show_nat k) = Some k"
    using Cons.prems(1) e by (intro parse_show_nat) simp
  have "tbl_get vv k = None"
    using Cons.prems(2) e by (simp add: tbl_get_def map_of_eq_None_iff)
  then have "tbl_get r p = (case tbl_get (e # vv) p of None \<Rightarrow> tbl_get acc p | Some c \<Rightarrow> Some c)" for p
    using r(2) [of p] e by (auto simp: sql.get_put split: option.splits)
  then show ?case
    using r(1) e k by simp
qed

lemma show_nat_inject: "show_nat m = show_nat n \<Longrightarrow> m = n"
  by (metis digits_value_show_nat)

lemma tbl_wf_show: "tbl_wf (map (\<lambda>(k, v). (show_nat k, v)) vv) \<longleftrightarrow> tbl_wf vv"
proof -
  have "map fst (map (\<lambda>(k, v). (show_nat k, v)) vv) = map show_nat (map fst vv)"
    by (induction vv) auto
  moreover have "inj_on show_nat (set (map fst vv))"
    by (rule inj_onI) (rule show_nat_inject)
  ultimately show ?thesis
    unfolding tbl_wf_def by (simp only: distinct_map [of show_nat]) simp
qed

section \<open>Properties\<close>

text \<open>
  C40: a version vector written to the wire as JSON with decimal peer ids reads back as the same
  mapping, for every set of distinct 64-bit peer ids, whatever order \<open>serde_json\<close> gives the entries.
\<close>

theorem vv_json_roundtrip:
  assumes "json_faithful L" and "tbl_wf vv" and "\<forall>(k, c) \<in> set vv. k < 2 ^ 64"
  shows "\<exists>vv'. vv_from_json_bytes L (vv_to_json_bytes L vv) = Inr vv' \<and> tbl_get vv' = tbl_get vv"
proof -
  let ?m = "map (\<lambda>(k, v). (show_nat k, v)) vv"
  have "tbl_wf ?m"
    using assms(2) by (simp add: tbl_wf_show)
  then obtain m' where m': "json_from_slice L (json_to_vec L ?m) = Inr m'" "tbl_wf m'" "set m' = set ?m"
    using assms(1) by (auto simp: json_faithful_def)
  define ww where "ww = map (\<lambda>(s, v). (digits_value s, v)) m'"
  have ww: "map (\<lambda>(k, v). (show_nat k, v)) ww = m'"
    unfolding ww_def using m'(3) by (force simp: comp_def intro!: map_idI)
  have set_ww: "set ww = set vv"
    unfolding ww_def using m'(3) by (force simp: image_iff)
  have "distinct (map fst ww)"
    using m'(2) unfolding ww [symmetric] tbl_wf_show by (simp add: tbl_wf_def)
  moreover have "\<forall>(k, c) \<in> set ww. k < 2 ^ 64"
    using assms(3) set_ww by simp
  ultimately obtain r where r: "insert_peers [] m' = Inr r"
      "\<And>p. tbl_get r p = (case tbl_get ww p of None \<Rightarrow> tbl_get [] p | Some c \<Rightarrow> Some c)"
    using insert_peers_shown [of ww "[]"] ww by auto
  have "tbl_get r p = tbl_get ww p" for p
    using r(2) [of p] by (cases "tbl_get ww p") simp_all
  then have "tbl_get r = tbl_get ww" ..
  moreover have "tbl_get ww = tbl_get vv"
    using \<open>distinct (map fst ww)\<close> assms(2) set_ww
    by (simp add: tbl_get_def tbl_wf_def map_of_inject_set)
  ultimately show ?thesis
    using m'(1) r(1) by (auto simp: vv_from_json_bytes_def vv_to_json_bytes_def)
qed

end
