(* ===== verification/Db.thy ===== *)
theory Db
  imports Sql Loro
begin

text \<open>
  \<open>src/db.rs\<close>: secrets, vaults, documents with their incarnation tokens, tombstones, statistics, peers
  and retention, one definition per function.  \<open>argon2\<close> and \<open>password_hash\<close> are the parameter
  \<open>argon\<close>.  Timestamps are seconds; \<open>datetime('now', '-N days')\<close> is \<open>NULL\<close> for a negative \<open>N\<close> (the
  modifier \<open>--5 days\<close> does not parse), and a comparison with \<open>NULL\<close> selects no row.
\<close>

section \<open>Rows of the answers\<close>

record doc_entry =
  entry_doc_uuid :: string
  entry_updated_at :: timestamp
  entry_server_vv :: bytes
  entry_incarnation :: "int option"

record tombstone_entry =
  tomb_doc_uuid :: string
  tomb_content_hash :: "string option"

definition INVALID_VV_SENTINEL_JSON :: bytes where
  "INVALID_VV_SENTINEL_JSON = map of_char ''__vaultcrdt_invalid_vv__''"

section \<open>Secrets\<close>

text \<open>Argon2id with its random salt as an argument, and the PHC string format.\<close>

record argon =
  hash_password :: "string \<Rightarrow> string \<Rightarrow> string + string"
  phc_parses :: "string \<Rightarrow> bool"
  verify_password :: "string \<Rightarrow> string \<Rightarrow> bool"

definition hash_secret :: "argon \<Rightarrow> string \<Rightarrow> string \<Rightarrow> string result" where
  "hash_secret A salt plaintext =
     map_err (\<lambda>e. Auth (''hash error: '' @ e)) (hash_password A salt plaintext)"

definition verify_secret :: "argon \<Rightarrow> string \<Rightarrow> string \<Rightarrow> bool" where
  "verify_secret A plaintext stored =
     (if starts_with stored ''$argon2''
      then phc_parses A stored \<and> verify_password A plaintext stored
      else stored = plaintext)"

section \<open>Vaults\<close>

definition create_vault :: "argon \<Rightarrow> string \<Rightarrow> string \<Rightarrow> string \<Rightarrow> bool io" where
  "create_vault A salt vault_id key =
     and_then (lift (hash_secret A salt key)) (\<lambda>hashed.
       stmt (\<lambda>t d. case tbl_get (vaults d) vault_id of
           Some _ \<Rightarrow> Inr (False, d)
         | None \<Rightarrow> Inr (True, d\<lparr>vaults := tbl_put vault_id
             \<lparr>api_key = hashed, vault_created_at = t, quota_bytes = None\<rparr> (vaults d)\<rparr>)))"

definition list_vaults :: "(string \<times> timestamp \<times> int option) list io" where
  "list_vaults = query (\<lambda>_ d.
     map (\<lambda>(v, r). (v, vault_created_at r, quota_bytes r)) (sort_key fst (vaults d)))"

definition set_vault_quota :: "string \<Rightarrow> int option \<Rightarrow> bool io" where
  "set_vault_quota vault_id q = stmt (\<lambda>_ d. case tbl_get (vaults d) vault_id of
       None \<Rightarrow> Inr (False, d)
     | Some r \<Rightarrow> Inr (True, d\<lparr>vaults := tbl_put vault_id (r\<lparr>quota_bytes := q\<rparr>) (vaults d)\<rparr>))"

definition get_vault_quota :: "string \<Rightarrow> int option option io" where
  "get_vault_quota vault_id = query (\<lambda>_ d. map_option quota_bytes (tbl_get (vaults d) vault_id))"

definition vault_exists :: "string \<Rightarrow> bool io" where
  "vault_exists vault_id = query (\<lambda>_ d. tbl_get (vaults d) vault_id \<noteq> None)"

text \<open>
  The verification runs with the mutex released (\<open>g\<close> is what others do meanwhile); the upgrade of a
  legacy plaintext key then overwrites whatever the row holds.
\<close>

definition verify_vault :: "argon \<Rightarrow> string \<Rightarrow> (conn \<Rightarrow> conn) \<Rightarrow> string \<Rightarrow> string \<Rightarrow> bool io" where
  "verify_vault A salt g vault_id key =
     and_then (query (\<lambda>_ d. map_option api_key (tbl_get (vaults d) vault_id))) (\<lambda>stored.
     and_then (unlocked g) (\<lambda>_.
       case stored of
         None \<Rightarrow> ok False
       | Some stored \<Rightarrow>
           if \<not> verify_secret A key stored then ok False
           else if \<not> starts_with stored ''$argon2'' then
             and_then (lift (hash_secret A salt key)) (\<lambda>hashed.
             and_then (exec (\<lambda>_ d. d\<lparr>vaults := (case tbl_get (vaults d) vault_id of
                 None \<Rightarrow> vaults d
               | Some r \<Rightarrow> tbl_put vault_id (r\<lparr>api_key := hashed\<rparr>) (vaults d))\<rparr>)) (\<lambda>_.
             ok True))
           else ok True))"

section \<open>Documents\<close>

text \<open>
  The upsert of \<open>vault_incarnation\<close>: a fresh counter is 2, an existing one is increased while it is
  below \<open>i64::MAX\<close>; otherwise no row is returned, which the code reports as an exhausted space.
\<close>

definition bump_incarnation :: "string \<Rightarrow> db \<Rightarrow> string + int \<times> db" where
  "bump_incarnation vault_id d =
     (case tbl_get (vault_incarnation d) vault_id of
        None \<Rightarrow> Inr (2, d\<lparr>vault_incarnation := tbl_put vault_id 2 (vault_incarnation d)\<rparr>)
      | Some n \<Rightarrow>
          if n < i64_max
          then Inr (n + 1, d\<lparr>vault_incarnation := tbl_put vault_id (n + 1) (vault_incarnation d)\<rparr>)
          else Inl ''incarnation space exhausted'')"

definition allocate_incarnation :: "string \<Rightarrow> int io" where
  "allocate_incarnation vault_id =
     and_then (stmt (\<lambda>_. bump_incarnation vault_id)) (\<lambda>next_value. ok (next_value - 1))"

definition store_snapshot_with_vv :: "string \<Rightarrow> string \<Rightarrow> bytes \<Rightarrow> bytes \<Rightarrow> int io" where
  "store_snapshot_with_vv vault_id doc_uuid snapshot vv =
     transaction (
       and_then (query (\<lambda>_ d. map_option incarnation (tbl_get (documents d) (vault_id, doc_uuid)))) (\<lambda>existing.
       and_then (case existing of Some token \<Rightarrow> ok token | None \<Rightarrow> allocate_incarnation vault_id) (\<lambda>inc.
       and_then (exec (\<lambda>t d. d\<lparr>documents := tbl_put (vault_id, doc_uuid)
           (case tbl_get (documents d) (vault_id, doc_uuid) of
              None \<Rightarrow> \<lparr>snapshot_blob = snapshot, vv_blob = vv, updated_at = t, incarnation = inc\<rparr>
            | Some r \<Rightarrow> r\<lparr>snapshot_blob := snapshot, vv_blob := vv, updated_at := t\<rparr>)
           (documents d)\<rparr>)) (\<lambda>_.
       ok inc))))"

definition store_snapshot_replacing_tombstone ::
  "string \<Rightarrow> string \<Rightarrow> bytes \<Rightarrow> bytes \<Rightarrow> int io" where
  "store_snapshot_replacing_tombstone vault_id doc_uuid snapshot vv =
     transaction (
       and_then (allocate_incarnation vault_id) (\<lambda>inc.
       and_then (exec (\<lambda>t d. d\<lparr>documents := tbl_put (vault_id, doc_uuid)
           \<lparr>snapshot_blob = snapshot, vv_blob = vv, updated_at = t, incarnation = inc\<rparr>
           (documents d)\<rparr>)) (\<lambda>_.
       and_then (exec (\<lambda>_ d. d\<lparr>tombstones := tbl_del (vault_id, doc_uuid) (tombstones d)\<rparr>)) (\<lambda>_.
       ok inc))))"

definition get_snapshot_with_incarnation :: "string \<Rightarrow> string \<Rightarrow> (bytes \<times> int) option io" where
  "get_snapshot_with_incarnation vault_id doc_uuid = query (\<lambda>_ d.
     map_option (\<lambda>r. (snapshot_blob r, incarnation r)) (tbl_get (documents d) (vault_id, doc_uuid)))"

definition get_snapshot_with_vv :: "string \<Rightarrow> string \<Rightarrow> (bytes \<times> bytes) option io" where
  "get_snapshot_with_vv vault_id doc_uuid = query (\<lambda>_ d.
     map_option (\<lambda>r. (snapshot_blob r, vv_blob r)) (tbl_get (documents d) (vault_id, doc_uuid)))"

text \<open>The rows of a vault, \<open>ORDER BY\<close> the second component of the key (bytewise).\<close>

definition vault_rows :: "string \<Rightarrow> (string \<times> string, 'r) table \<Rightarrow> (string \<times> 'r) list" where
  "vault_rows vault_id t =
     sort_key fst (map (\<lambda>((_, k), r). (k, r)) (filter (\<lambda>((v, _), _). v = vault_id) t))"

definition list_docs_with_vv :: "'doc libs \<Rightarrow> string \<Rightarrow> doc_entry list io" where
  "list_docs_with_vv L vault_id = query (\<lambda>_ d.
     map (\<lambda>(doc_uuid, r).
       \<lparr>entry_doc_uuid = doc_uuid, entry_updated_at = updated_at r,
        entry_server_vv = (case vv_from_db_bytes L (vv_blob r) of
            Inr vv \<Rightarrow> vv_to_json_bytes L vv
          | Inl _ \<Rightarrow> INVALID_VV_SENTINEL_JSON),
        entry_incarnation = Some (incarnation r)\<rparr>)
     (vault_rows vault_id (documents d)))"

section \<open>Tombstones\<close>

definition tombstone :: "string \<Rightarrow> string \<Rightarrow> string \<Rightarrow> unit io" where
  "tombstone vault_id doc_uuid by_peer = exec (\<lambda>t d. d\<lparr>tombstones := tbl_put (vault_id, doc_uuid)
     (case tbl_get (tombstones d) (vault_id, doc_uuid) of
        None \<Rightarrow> \<lparr>deleted_by = by_peer, deleted_at = t, content_hash = None, tombstone_incarnation = 1\<rparr>
      | Some r \<Rightarrow> r\<lparr>deleted_by := by_peer, deleted_at := t\<rparr>)
     (tombstones d)\<rparr>)"

definition list_tombstones :: "string \<Rightarrow> string list io" where
  "list_tombstones vault_id = query (\<lambda>_ d. map fst (vault_rows vault_id (tombstones d)))"

definition list_tombstones_with_hash :: "string \<Rightarrow> tombstone_entry list io" where
  "list_tombstones_with_hash vault_id = query (\<lambda>_ d.
     map (\<lambda>(doc_uuid, r). \<lparr>tomb_doc_uuid = doc_uuid, tomb_content_hash = content_hash r\<rparr>)
       (vault_rows vault_id (tombstones d)))"

definition is_tombstoned :: "string \<Rightarrow> string \<Rightarrow> bool io" where
  "is_tombstoned vault_id doc_uuid = query (\<lambda>_ d. tbl_get (tombstones d) (vault_id, doc_uuid) \<noteq> None)"

definition remove_tombstone :: "string \<Rightarrow> string \<Rightarrow> unit io" where
  "remove_tombstone vault_id doc_uuid =
     exec (\<lambda>_ d. d\<lparr>tombstones := tbl_del (vault_id, doc_uuid) (tombstones d)\<rparr>)"

definition delete_doc :: "string \<Rightarrow> string \<Rightarrow> unit io" where
  "delete_doc vault_id doc_uuid =
     exec (\<lambda>_ d. d\<lparr>documents := tbl_del (vault_id, doc_uuid) (documents d)\<rparr>)"

definition content_hash_from_snapshot_blob :: "'doc libs \<Rightarrow> bytes \<Rightarrow> string option" where
  "content_hash_from_snapshot_blob L snapshot =
     (case import_doc L (new_doc L) snapshot of
        Inl _ \<Rightarrow> None
      | Inr doc \<Rightarrow> Some (fnv1a_64_hex (content_text L doc)))"

datatype delete_outcome =
    Deleted "string option" int
  | IdempotentNoLive "string option"
  | Rejected int

text \<open>\<open>COALESCE\<close> of two nullable values.\<close>

definition coalesce :: "'a option \<Rightarrow> 'a option \<Rightarrow> 'a option" where
  "coalesce a b = (case a of Some _ \<Rightarrow> a | None \<Rightarrow> b)"

definition delete_doc_guarded ::
  "'doc libs \<Rightarrow> string \<Rightarrow> string \<Rightarrow> string \<Rightarrow> int option \<Rightarrow> delete_outcome io" where
  "delete_doc_guarded L vault_id doc_uuid by_peer expected =
     transaction (
       and_then (query (\<lambda>_ d. map_option (\<lambda>r. (snapshot_blob r, incarnation r))
           (tbl_get (documents d) (vault_id, doc_uuid)))) (\<lambda>live.
       let inc = map_option snd live;
           live_incarnation = (case inc of None \<Rightarrow> 0 | Some n \<Rightarrow> n)
       in if (case expected of None \<Rightarrow> False | Some token \<Rightarrow> token \<noteq> live_incarnation)
          then ok (Rejected live_incarnation)
          else
            let hash = Option.bind live (\<lambda>(snapshot, _). content_hash_from_snapshot_blob L snapshot)
            in and_then (exec (\<lambda>_ d. d\<lparr>documents := tbl_del (vault_id, doc_uuid) (documents d)\<rparr>)) (\<lambda>_.
               and_then (exec (\<lambda>t d. d\<lparr>tombstones := tbl_put (vault_id, doc_uuid)
                   (case tbl_get (tombstones d) (vault_id, doc_uuid) of
                      None \<Rightarrow> \<lparr>deleted_by = by_peer, deleted_at = t, content_hash = hash,
                               tombstone_incarnation = (case inc of None \<Rightarrow> 1 | Some n \<Rightarrow> n)\<rparr>
                    | Some r \<Rightarrow> r\<lparr>deleted_by := by_peer, deleted_at := t,
                        content_hash := coalesce hash (content_hash r),
                        tombstone_incarnation :=
                          (case inc of None \<Rightarrow> tombstone_incarnation r | Some n \<Rightarrow> n)\<rparr>)
                   (tombstones d)\<rparr>)) (\<lambda>_.
               and_then (stmt (\<lambda>_ d. case tbl_get (tombstones d) (vault_id, doc_uuid) of
                   None \<Rightarrow> Inl ''Query returned no rows''
                 | Some r \<Rightarrow> Inr (content_hash r, d))) (\<lambda>stored_hash.
               ok (case inc of
                     Some n \<Rightarrow> Deleted stored_hash n
                   | None \<Rightarrow> IdempotentNoLive stored_hash))))))"

section \<open>Statistics\<close>

record doc_size =
  size_doc_uuid :: string
  snapshot_bytes :: nat

record vault_stats_row =
  doc_count :: nat
  total_snapshot_bytes :: nat
  total_vv_bytes :: nat
  largest_docs :: "doc_size list"

definition vault_stats :: "string \<Rightarrow> vault_stats_row io" where
  "vault_stats vault_id =
     and_then (query (\<lambda>_ d. let rows = filter (\<lambda>((v, _), _). v = vault_id) (documents d) in
         (length rows, sum_list (map (\<lambda>(_, r). length (snapshot_blob r)) rows),
          sum_list (map (\<lambda>(_, r). length (vv_blob r)) rows)))) (\<lambda>(cnt, snap, vv).
     and_then (query (\<lambda>_ d. take 10 (rev (sort_key snapshot_bytes (rev (map (\<lambda>((_, u), r).
           \<lparr>size_doc_uuid = u, snapshot_bytes = length (snapshot_blob r)\<rparr>)
         (filter (\<lambda>((v, _), _). v = vault_id) (documents d)))))))) (\<lambda>largest.
     ok \<lparr>doc_count = cnt, total_snapshot_bytes = snap, total_vv_bytes = vv, largest_docs = largest\<rparr>))"

section \<open>Peers and retention\<close>

record peer_info =
  info_peer_id :: string
  info_device_name :: string
  info_last_seen_at :: timestamp

definition upsert_peer :: "string \<Rightarrow> string \<Rightarrow> string \<Rightarrow> unit io" where
  "upsert_peer vault_id peer_id name = exec (\<lambda>t d. d\<lparr>peers := tbl_put (vault_id, peer_id)
     \<lparr>device_name = name, last_seen_at = t\<rparr> (peers d)\<rparr>)"

definition list_peers :: "string \<Rightarrow> peer_info list io" where
  "list_peers vault_id = query (\<lambda>_ d. rev (sort_key info_last_seen_at (rev
     (map (\<lambda>((_, p), r). \<lparr>info_peer_id = p, info_device_name = device_name r,
        info_last_seen_at = last_seen_at r\<rparr>)
       (filter (\<lambda>((v, _), _). v = vault_id) (peers d))))))"

definition get_peer :: "string \<Rightarrow> string \<Rightarrow> peer_info option io" where
  "get_peer vault_id peer_id = query (\<lambda>_ d. map_option
     (\<lambda>r. \<lparr>info_peer_id = peer_id, info_device_name = device_name r, info_last_seen_at = last_seen_at r\<rparr>)
     (tbl_get (peers d) (vault_id, peer_id)))"

definition delete_peer :: "string \<Rightarrow> string \<Rightarrow> nat io" where
  "delete_peer vault_id peer_id = stmt (\<lambda>_ d.
     Inr (if tbl_get (peers d) (vault_id, peer_id) = None then 0 else 1,
          d\<lparr>peers := tbl_del (vault_id, peer_id) (peers d)\<rparr>))"

definition count_peer_blocked_tombstones :: "string \<Rightarrow> timestamp \<Rightarrow> nat io" where
  "count_peer_blocked_tombstones vault_id last_seen = query (\<lambda>_ d.
     length (filter (\<lambda>((v, _), r). v = vault_id \<and> last_seen \<le> deleted_at r) (tombstones d)))"

text \<open>\<open>x < datetime('now', '-' || days || ' days')\<close>.\<close>

definition older_than :: "timestamp \<Rightarrow> int \<Rightarrow> timestamp \<Rightarrow> bool" where
  "older_than t days x \<longleftrightarrow> 0 \<le> days \<and> x < t - days * 86400"

definition expire_tombstones :: "int \<Rightarrow> nat io" where
  "expire_tombstones max_age_days = stmt (\<lambda>t d.
     let kept = tbl_keep (\<lambda>(v, _) r. \<not> (older_than t max_age_days (deleted_at r) \<and>
           \<not> list_ex (\<lambda>((v', _), p). v' = v \<and> last_seen_at p \<le> deleted_at r) (peers d)))
         (tombstones d)
     in Inr (length (tombstones d) - length kept, d\<lparr>tombstones := kept\<rparr>))"

definition expire_stale_peers :: "int \<Rightarrow> nat io" where
  "expire_stale_peers max_age_days = stmt (\<lambda>t d.
     let kept = tbl_keep (\<lambda>_ p. \<not> older_than t max_age_days (last_seen_at p)) (peers d)
     in Inr (length (peers d) - length kept, d\<lparr>peers := kept\<rparr>))"

end
