(* ===== verification/Messages.thy ===== *)
theory Messages
  imports Db
begin

text \<open>
  The messages of \<open>src/ws.rs\<close> (module \<open>msg\<close>), the broadcast events and identifier caps of
  \<open>src/lib.rs\<close>.  A connection id is a \<open>u64\<close>, a protocol version a \<open>u32\<close>, a token an \<open>i64\<close>.
\<close>

definition MAX_DOC_UUID_BYTES :: nat where "MAX_DOC_UUID_BYTES = 1024"
definition MAX_PEER_ID_BYTES :: nat where "MAX_PEER_ID_BYTES = 128"
definition MAX_REQUEST_ID_BYTES :: nat where "MAX_REQUEST_ID_BYTES = 128"
definition PROTOCOL_VERSION :: nat where "PROTOCOL_VERSION = 1"

lemmas id_caps = MAX_DOC_UUID_BYTES_def MAX_PEER_ID_BYTES_def MAX_REQUEST_ID_BYTES_def

text \<open>Fields in the order of the source.\<close>

datatype client_msg =
    AuthMsg (auth_token: string) (auth_version: nat) (auth_features: "string list")
  | Ping
  | RequestDocList
  | SyncStart (start_uuid: string) (client_vv: "bytes option")
  | SyncPush (push_uuid: string) (push_delta: bytes) (push_peer: string) (push_request: "string option")
  | DocCreate (create_uuid: string) (create_snapshot: bytes) (create_peer: string)
      (replace_tombstone: bool) (create_request: "string option")
  | DocDelete (delete_uuid: string) (delete_peer_id: string) (expected_incarnation: "int option")
      (intent_id: "string option") (delete_request: "string option")

datatype server_msg =
    AuthOk nat "string list option"
  | Pong
  | Ack "int option" "string option"
  | ErrorMsg string string "string option"
  | DeleteRejected string "string option" "string option"
  | DocList "doc_entry list" "string list" "tombstone_entry list"
  | SyncDelta string bytes bytes "int option"
  | DocUnknown string
  | DeltaBroadcast string bytes string bytes "int option"
  | DocDeleted string "string option"
  | DocTombstoned string
  | CreateConflict string
  | BlobPathChanged string int

datatype broadcast_event =
    DeltaEvent (delta_vault: string) (delta_doc: string) (delta_bytes: bytes) (delta_peer: string)
      (delta_sender: nat) (delta_server_vv: bytes) (delta_incarnation: "int option")
  | DeleteEvent (deleted_vault: string) (deleted_doc: string) (deleted_sender: nat)
      (deleted_hash: "string option")
  | BlobPathEvent (path_vault: string) (path_event_key: string) (path_event_seq: int)

fun event_vault :: "broadcast_event \<Rightarrow> string" where
  "event_vault (DeltaEvent v _ _ _ _ _ _) = v"
| "event_vault (DeleteEvent v _ _ _) = v"
| "event_vault (BlobPathEvent v _ _) = v"

fun event_sender :: "broadcast_event \<Rightarrow> nat option" where
  "event_sender (DeltaEvent _ _ _ _ k _ _) = Some k"
| "event_sender (DeleteEvent _ _ k _) = Some k"
| "event_sender (BlobPathEvent _ _ _) = None"

end
