(* ===== verification/Handlers.thy ===== *)
theory Handlers
  imports Messages
begin

text \<open>
  \<open>src/handlers.rs\<close>: from a binary frame to the reply and the broadcast.  The handlers of push, create
  and delete run under the lock of their document (\<open>Doc_Locks\<close>), so each is one computation on the
  connection.  \<open>from_slice\<close> stands for \<open>rmp_serde::from_slice\<close>; logging is left out.
\<close>

type_synonym reply = "server_msg \<times> broadcast_event option"

definition check_len :: "string \<Rightarrow> string \<Rightarrow> nat \<Rightarrow> unit result" where
  "check_len field v limit =
     (if length v > limit then Inl (BadFrame (field @ '' too long'')) else Inr ())"

text \<open>The checks of \<open>process_inner\<close> before it dispatches.\<close>

definition check_ids :: "string \<Rightarrow> string \<Rightarrow> string option \<Rightarrow> unit result" where
  "check_ids doc_uuid peer_id request_id =
     bind_result (check_len ''doc_uuid'' doc_uuid MAX_DOC_UUID_BYTES) (\<lambda>_.
     bind_result (check_len ''peer_id'' peer_id MAX_PEER_ID_BYTES) (\<lambda>_.
       case request_id of
         Some rid \<Rightarrow> check_len ''request_id'' rid MAX_REQUEST_ID_BYTES
       | None \<Rightarrow> Inr ()))"

fun check_caps :: "client_msg \<Rightarrow> unit result" where
  "check_caps (SyncStart doc_uuid _) = check_len ''doc_uuid'' doc_uuid MAX_DOC_UUID_BYTES"
| "check_caps (SyncPush doc_uuid _ peer_id request_id) = check_ids doc_uuid peer_id request_id"
| "check_caps (DocCreate doc_uuid _ peer_id _ request_id) = check_ids doc_uuid peer_id request_id"
| "check_caps (DocDelete doc_uuid peer_id _ intent request_id) =
     bind_result (check_ids doc_uuid peer_id request_id) (\<lambda>_.
       case intent of
         Some iid \<Rightarrow> check_len ''intent_id'' iid MAX_REQUEST_ID_BYTES
       | None \<Rightarrow> Inr ())"
| "check_caps _ = Inr ()"

section \<open>SyncStart\<close>

definition handle_sync_start ::
  "'doc libs \<Rightarrow> string \<Rightarrow> string \<Rightarrow> bytes option \<Rightarrow> reply io" where
  "handle_sync_start L vault_id doc_uuid client_vv_bytes =
     and_then (get_snapshot_with_incarnation vault_id doc_uuid) (\<lambda>existing.
       case existing of
         None \<Rightarrow> ok (DocUnknown doc_uuid, None)
       | Some (snapshot, inc) \<Rightarrow>
           and_then (lift (map_err (\<lambda>e. Sync (''loro import existing: '' @ e))
               (import_doc L (new_doc L) snapshot))) (\<lambda>doc.
           let server_vv_json = vv_to_json_bytes L (oplog_vv L doc) in
           case client_vv_bytes of
             Some vv_bytes \<Rightarrow>
               and_then (lift (vv_from_json_bytes L vv_bytes)) (\<lambda>cvv.
               and_then (lift (map_err (\<lambda>e. Sync (''loro export delta: '' @ e))
                   (export_updates L doc cvv))) (\<lambda>delta.
               ok (SyncDelta doc_uuid delta server_vv_json (Some inc), None)))
           | None \<Rightarrow> ok (SyncDelta doc_uuid snapshot server_vv_json (Some inc), None)))"

section \<open>SyncPush\<close>

text \<open>The delta starts from nothing while the stored document has a history.\<close>

definition push_disjoint :: "'doc libs \<Rightarrow> bytes \<Rightarrow> bytes \<Rightarrow> bool result" where
  "push_disjoint L existing_vv_blob delta =
     (case vv_from_db_bytes L existing_vv_blob of
        Inr stored_vv \<Rightarrow>
          bind_result (map_err (\<lambda>e. Sync (''loro decode client delta: '' @ e))
              (decode_import_blob_meta L delta)) (\<lambda>meta.
          Inr (stored_vv \<noteq> [] \<and> change_num meta > 0 \<and> start_frontiers meta = []))
      | Inl _ \<Rightarrow> Inr True)"

text \<open>Import the stored snapshot, if any, then the client's bytes; export the result.\<close>

definition merge_docs :: "'doc libs \<Rightarrow> string \<Rightarrow> bytes option \<Rightarrow> bytes \<Rightarrow> (bytes \<times> version_vector) result" where
  "merge_docs L what existing incoming =
     bind_result (case existing of
         Some snapshot \<Rightarrow> map_err (\<lambda>e. Sync (''loro import existing: '' @ e))
           (import_doc L (new_doc L) snapshot)
       | None \<Rightarrow> Inr (new_doc L)) (\<lambda>doc.
     bind_result (map_err (\<lambda>e. Sync (what @ e)) (import_doc L doc incoming)) (\<lambda>doc.
     bind_result (map_err (\<lambda>e. Sync (''loro export snapshot: '' @ e)) (export_snapshot L doc)) (\<lambda>snap.
     Inr (snap, oplog_vv L doc))))"

definition handle_sync_push ::
  "'doc libs \<Rightarrow> string \<Rightarrow> string \<Rightarrow> bytes \<Rightarrow> string \<Rightarrow> nat \<Rightarrow> reply io" where
  "handle_sync_push L vault_id doc_uuid delta peer_id conn_id =
     and_then (get_snapshot_with_vv vault_id doc_uuid) (\<lambda>existing.
     and_then (if existing = None then is_tombstoned vault_id doc_uuid else ok False) (\<lambda>dead.
     if dead then ok (DocTombstoned doc_uuid, None)
     else
       and_then (case existing of
           Some (_, existing_vv_blob) \<Rightarrow> lift (push_disjoint L existing_vv_blob delta)
         | None \<Rightarrow> ok False) (\<lambda>disjoint.
       if disjoint then ok (CreateConflict doc_uuid, None)
       else
         and_then (lift (merge_docs L ''loro import client delta: '' (map_option fst existing) delta))
           (\<lambda>(new_snapshot, new_vv).
         and_then (store_snapshot_with_vv vault_id doc_uuid new_snapshot (vv_to_db_bytes L new_vv)) (\<lambda>token.
         let inc = (if existing = None then Some token else None)
         in ok (Ack inc None,
              Some (DeltaEvent vault_id doc_uuid delta peer_id conn_id (vv_to_json_bytes L new_vv) inc)))))))"

section \<open>DocCreate\<close>

text \<open>The client's snapshot shares no peer with the stored history.\<close>

definition create_disjoint :: "'doc libs \<Rightarrow> bytes \<Rightarrow> bytes \<Rightarrow> bool result" where
  "create_disjoint L existing_vv_blob snapshot =
     (case vv_from_db_bytes L existing_vv_blob of
        Inr stored_vv \<Rightarrow>
          bind_result (map_err (\<lambda>e. Sync (''loro import client snapshot: '' @ e))
              (import_doc L (new_doc L) snapshot)) (\<lambda>probe.
          let incoming_vv = oplog_vv L probe
          in Inr (stored_vv \<noteq> [] \<and> incoming_vv \<noteq> [] \<and>
               \<not> list_ex (\<lambda>(peer, _). tbl_get incoming_vv peer \<noteq> None) stored_vv))
      | Inl _ \<Rightarrow> Inr True)"

definition handle_doc_create ::
  "'doc libs \<Rightarrow> string \<Rightarrow> string \<Rightarrow> bytes \<Rightarrow> string \<Rightarrow> nat \<Rightarrow> bool \<Rightarrow> reply io" where
  "handle_doc_create L vault_id doc_uuid snapshot peer_id conn_id replace =
     and_then (get_snapshot_with_vv vault_id doc_uuid) (\<lambda>existing.
     and_then (if existing = None then is_tombstoned vault_id doc_uuid else ok False) (\<lambda>was_tombstoned.
     if was_tombstoned \<and> \<not> replace then ok (DocTombstoned doc_uuid, None)
     else
       let effective_replace = (was_tombstoned \<and> replace)
       in and_then (if replace \<and> \<not> was_tombstoned \<and> existing \<noteq> None
             then is_tombstoned vault_id doc_uuid else ok False) (\<lambda>clear_stale_tombstone.
          and_then (case existing of
              Some (_, existing_vv_blob) \<Rightarrow>
                if \<not> effective_replace then lift (create_disjoint L existing_vv_blob snapshot)
                else ok False
            | None \<Rightarrow> ok False) (\<lambda>disjoint.
          if disjoint then ok (CreateConflict doc_uuid, None)
          else
            and_then (lift (merge_docs L ''loro import client snapshot: ''
                (if \<not> effective_replace then map_option fst existing else None) snapshot))
              (\<lambda>(new_snapshot, new_vv).
            and_then (if effective_replace \<or> clear_stale_tombstone
                then store_snapshot_replacing_tombstone vault_id doc_uuid new_snapshot (vv_to_db_bytes L new_vv)
                else store_snapshot_with_vv vault_id doc_uuid new_snapshot (vv_to_db_bytes L new_vv)) (\<lambda>token.
            let inc = (if existing = None \<or> effective_replace \<or> clear_stale_tombstone
                       then Some token else None)
            in ok (Ack inc None,
                 Some (DeltaEvent vault_id doc_uuid snapshot peer_id conn_id
                   (vv_to_json_bytes L new_vv) inc))))))))"

section \<open>DocDelete and dispatch\<close>

definition handle_doc_delete ::
  "'doc libs \<Rightarrow> string \<Rightarrow> nat \<Rightarrow> string \<Rightarrow> string \<Rightarrow> int option \<Rightarrow> string option \<Rightarrow> string option \<Rightarrow> reply io" where
  "handle_doc_delete L vault_id conn_id doc_uuid peer_id expected intent request_id =
     and_then (delete_doc_guarded L vault_id doc_uuid peer_id expected) (\<lambda>outcome.
       case outcome of
         Rejected _ \<Rightarrow> ok (DeleteRejected doc_uuid intent request_id, None)
       | Deleted hash _ \<Rightarrow>
           ok (Ack None request_id, Some (DeleteEvent vault_id doc_uuid conn_id hash))
       | IdempotentNoLive hash \<Rightarrow>
           ok (Ack None request_id, Some (DeleteEvent vault_id doc_uuid conn_id hash)))"

definition handle_doc_list :: "'doc libs \<Rightarrow> string \<Rightarrow> reply io" where
  "handle_doc_list L vault_id =
     and_then (list_docs_with_vv L vault_id) (\<lambda>docs.
     and_then (list_tombstones vault_id) (\<lambda>tombs.
     and_then (list_tombstones_with_hash vault_id) (\<lambda>hashes.
     ok (DocList docs tombs hashes, None))))"

fun dispatch :: "'doc libs \<Rightarrow> string \<Rightarrow> nat \<Rightarrow> client_msg \<Rightarrow> reply io" where
  "dispatch L vault_id conn_id (AuthMsg _ _ _) = lift (Inl (BadFrame ''unexpected auth frame''))"
| "dispatch L vault_id conn_id Ping = ok (Pong, None)"
| "dispatch L vault_id conn_id RequestDocList = handle_doc_list L vault_id"
| "dispatch L vault_id conn_id (SyncStart doc_uuid cvv) = handle_sync_start L vault_id doc_uuid cvv"
| "dispatch L vault_id conn_id (SyncPush doc_uuid delta peer_id _) =
     handle_sync_push L vault_id doc_uuid delta peer_id conn_id"
| "dispatch L vault_id conn_id (DocCreate doc_uuid snapshot peer_id replace _) =
     handle_doc_create L vault_id doc_uuid snapshot peer_id conn_id replace"
| "dispatch L vault_id conn_id (DocDelete doc_uuid peer_id expected intent request_id) =
     handle_doc_delete L vault_id conn_id doc_uuid peer_id expected intent request_id"

definition process_inner :: "'doc libs \<Rightarrow> string \<Rightarrow> nat \<Rightarrow> client_msg \<Rightarrow> reply io" where
  "process_inner L vault_id conn_id m =
     and_then (lift (check_caps m)) (\<lambda>_. dispatch L vault_id conn_id m)"

fun request_id_of :: "client_msg \<Rightarrow> string option" where
  "request_id_of (SyncPush _ _ _ rid) = rid"
| "request_id_of (DocCreate _ _ _ _ rid) = rid"
| "request_id_of (DocDelete _ _ _ _ rid) = rid"
| "request_id_of _ = None"

text \<open>The echo of the request id in an acknowledgement.\<close>

fun echo_request :: "string option \<Rightarrow> server_msg \<Rightarrow> server_msg" where
  "echo_request rid (Ack inc _) = Ack inc rid"
| "echo_request rid m = m"

definition process_message ::
  "'doc libs \<Rightarrow> (bytes \<Rightarrow> string + client_msg) \<Rightarrow> bytes \<Rightarrow> string \<Rightarrow> nat \<Rightarrow> conn \<Rightarrow> reply \<times> conn" where
  "process_message L from_slice data vault_id conn_id c =
     (let parsed = map_err (\<lambda>e. BadFrame (''invalid msgpack: '' @ e)) (from_slice data);
          request_id = (case parsed of Inr m \<Rightarrow> request_id_of m | Inl _ \<Rightarrow> None);
          (result, c) = (case parsed of
              Inr m \<Rightarrow> process_inner L vault_id conn_id m c
            | Inl e \<Rightarrow> (Inl e, c))
      in case result of
           Inr (response, broadcast) \<Rightarrow> ((echo_request request_id response, broadcast), c)
         | Inl e \<Rightarrow>
             (let (err_code, message) = client_facing e
              in ((ErrorMsg err_code message request_id, None), c)))"

end
