(* ===== verification/Db_Facts.thy ===== *)
theory Db_Facts
  imports Db
begin

text \<open>
  What the operations of \<open>Db\<close> do to the tables: the incarnation counter as a token allocator, the
  outcomes of the three writing transactions, and the two rules the handlers need, that a
  computation which only reads changes nothing and that a failed one has changed nothing.
\<close>

section \<open>Incarnation tokens\<close>

text \<open>The next token of a vault, and the allocation of one, as a function of the tables.\<close>

definition next_token :: "string \<Rightarrow> db \<Rightarrow> int" where
  "next_token v d = (case tbl_get (vault_incarnation d) v of None \<Rightarrow> 1 | Some n \<Rightarrow> n)"

definition alloc_token :: "string \<Rightarrow> db \<Rightarrow> string + int \<times> db" where
  "alloc_token v d = (case bump_incarnation v d of Inl e \<Rightarrow> Inl e | Inr (n, d') \<Rightarrow> Inr (n - 1, d'))"

interpretation inc: token_allocator "alloc_token v" "next_token v" for v
  by unfold_locales
    (auto simp: alloc_token_def bump_incarnation_def next_token_def sql.get_put
      split: option.splits if_splits sum.splits)

text \<open>The tables after the allocation of token \<open>n\<close>.\<close>

definition spend :: "string \<Rightarrow> int \<Rightarrow> db \<Rightarrow> db" where
  "spend v n d = d\<lparr>vault_incarnation := tbl_put v (n + 1) (vault_incarnation d)\<rparr>"

lemma spend_frame [simp]: "documents (spend v n d) = documents d" "tombstones (spend v n d) = tombstones d"
  by (simp_all add: spend_def)

lemma alloc_token_frame: "alloc_token v d = Inr (n, d') \<Longrightarrow> d' = spend v n d"
  by (auto simp: alloc_token_def bump_incarnation_def spend_def split: option.splits if_splits)

lemma next_token_other: "v' \<noteq> v \<Longrightarrow> alloc_token v d = Inr (n, d') \<Longrightarrow> next_token v' d' = next_token v' d"
  by (auto dest!: alloc_token_frame simp: next_token_def spend_def sql.get_put)

lemma allocate_incarnation_Inr:
  "allocate_incarnation v c = (Inr n, c') \<Longrightarrow>
   alloc_token v (tables c) = Inr (n, spend v n (tables c)) \<and> tables c' = spend v n (tables c) \<and>
   now c' = now c"
proof -
  assume "allocate_incarnation v c = (Inr n, c')"
  then have "alloc_token v (tables c) = Inr (n, tables c')" "now c' = now c"
    by (auto simp: allocate_incarnation_def and_then_Inr stmt_Inr alloc_token_def)
  then show ?thesis
    using alloc_token_frame by auto
qed

section \<open>Outcomes of the writing transactions\<close>

lemma store_Inr:
  assumes "store_snapshot_with_vv v u snap vv c = (Inr n, c')"
  shows "case tbl_get (documents (tables c)) (v, u) of
      Some r \<Rightarrow> n = incarnation r \<and> tables c' = (tables c)\<lparr>documents := tbl_put (v, u)
        (r\<lparr>snapshot_blob := snap, vv_blob := vv, updated_at := now c\<rparr>) (documents (tables c))\<rparr>
    | None \<Rightarrow> alloc_token v (tables c) = Inr (n, spend v n (tables c)) \<and>
        tables c' = (spend v n (tables c))\<lparr>documents := tbl_put (v, u)
        \<lparr>snapshot_blob = snap, vv_blob = vv, updated_at = now c, incarnation = n\<rparr> (documents (tables c))\<rparr>"
proof -
  from assms obtain c1 c2 where c1: "tables c1 = tables c" "now c1 = now c" and c2: "tables c' = tables c2"
    and run: "and_then (query (\<lambda>_ d. map_option incarnation (tbl_get (documents d) (v, u)))) (\<lambda>existing.
       and_then (case existing of Some token \<Rightarrow> ok token | None \<Rightarrow> allocate_incarnation v) (\<lambda>inc.
       and_then (exec (\<lambda>t d. d\<lparr>documents := tbl_put (v, u)
           (case tbl_get (documents d) (v, u) of
              None \<Rightarrow> \<lparr>snapshot_blob = snap, vv_blob = vv, updated_at = t, incarnation = inc\<rparr>
            | Some r \<Rightarrow> r\<lparr>snapshot_blob := snap, vv_blob := vv, updated_at := t\<rparr>)
           (documents d)\<rparr>)) (\<lambda>_. ok inc))) c1 = (Inr n, c2)"
    unfolding store_snapshot_with_vv_def by (blast dest!: transaction_Inr)
  show ?thesis
  proof (cases "tbl_get (documents (tables c)) (v, u)")
    case None
    then show ?thesis
      using run c1 c2
      by (auto simp: and_then_Inr dest!: query_Inr exec_Inr allocate_incarnation_Inr)
  next
    case (Some r)
    then show ?thesis
      using run c1 c2 by (auto simp: and_then_Inr dest!: query_Inr exec_Inr)
  qed
qed

lemma store_replacing_Inr:
  assumes "store_snapshot_replacing_tombstone v u snap vv c = (Inr n, c')"
  shows "alloc_token v (tables c) = Inr (n, spend v n (tables c)) \<and>
        tables c' = (spend v n (tables c))\<lparr>documents := tbl_put (v, u)
      \<lparr>snapshot_blob = snap, vv_blob = vv, updated_at = now c, incarnation = n\<rparr> (documents (tables c)),
      tombstones := tbl_del (v, u) (tombstones (tables c))\<rparr>"
  using assms unfolding store_snapshot_replacing_tombstone_def
  by (auto dest!: transaction_Inr simp: and_then_Inr
      dest!: exec_Inr allocate_incarnation_Inr)

text \<open>The tombstone a delete writes, given the row it deletes and the tombstone it finds.\<close>

definition buried :: "'doc libs \<Rightarrow> string \<Rightarrow> timestamp \<Rightarrow> doc_row option \<Rightarrow> tombstone_row option \<Rightarrow> tombstone_row" where
  "buried L by_peer t live old =
     (let hash = Option.bind live (\<lambda>r. content_hash_from_snapshot_blob L (snapshot_blob r))
      in \<lparr>deleted_by = by_peer, deleted_at = t,
          content_hash = coalesce hash (Option.bind old content_hash),
          tombstone_incarnation = (case live of Some r \<Rightarrow> incarnation r
            | None \<Rightarrow> (case old of None \<Rightarrow> 1 | Some o' \<Rightarrow> tombstone_incarnation o'))\<rparr>)"

text \<open>The token a guarded delete compares with.\<close>

definition live_token :: "db \<Rightarrow> string \<Rightarrow> string \<Rightarrow> int" where
  "live_token d v u = (case tbl_get (documents d) (v, u) of None \<Rightarrow> 0 | Some r \<Rightarrow> incarnation r)"

definition refused :: "int option \<Rightarrow> int \<Rightarrow> bool" where
  "refused expected token \<longleftrightarrow> (case expected of None \<Rightarrow> False | Some e \<Rightarrow> e \<noteq> token)"

lemma delete_Inr_refused:
  assumes "delete_doc_guarded L v u by_peer expected c = (Inr out, c')"
    and "refused expected (live_token (tables c) v u)"
  shows "out = Rejected (live_token (tables c) v u) \<and> tables c' = tables c"
  using assms unfolding delete_doc_guarded_def refused_def live_token_def
  by (cases "tbl_get (documents (tables c)) (v, u)"; cases expected)
    (auto simp: Let_def and_then_Inr dest!: transaction_Inr query_Inr)

lemma tombstone_overwrite:
  "(r::tombstone_row)\<lparr>deleted_by := p, deleted_at := t\<rparr> =
     \<lparr>deleted_by = p, deleted_at = t, content_hash = content_hash r,
      tombstone_incarnation = tombstone_incarnation r\<rparr>"
  by (cases r) simp

lemma delete_Inr_done:
  assumes "delete_doc_guarded L v u by_peer expected c = (Inr out, c')"
    and "\<not> refused expected (live_token (tables c) v u)"
    and "tbl_get (documents (tables c)) (v, u) = live"
    and "tbl_get (tombstones (tables c)) (v, u) = old"
    and "grave = buried L by_peer (now c) live old"
  shows "out = (case live of Some r \<Rightarrow> Deleted (content_hash grave) (incarnation r)
      | None \<Rightarrow> IdempotentNoLive (content_hash grave)) \<and>
    tables c' = (tables c)\<lparr>documents := tbl_del (v, u) (documents (tables c)),
      tombstones := tbl_put (v, u) grave (tombstones (tables c))\<rparr>"
proof (cases live)
  case None
  then show ?thesis
    using assms unfolding delete_doc_guarded_def refused_def live_token_def
    by (cases expected; cases old)
      (auto simp: Let_def and_then_Inr stmt_Inr buried_def coalesce_def sql.get_put tombstone_overwrite
        dest!: transaction_Inr query_Inr exec_Inr)
next
  case (Some r)
  then show ?thesis
    using assms unfolding delete_doc_guarded_def refused_def live_token_def
    by (cases expected; cases old; cases "content_hash_from_snapshot_blob L (snapshot_blob r)")
      (auto simp: Let_def and_then_Inr stmt_Inr buried_def coalesce_def sql.get_put tombstone_overwrite
        dest!: transaction_Inr query_Inr exec_Inr)
qed

section \<open>Reading and failing\<close>

definition reads :: "'a io \<Rightarrow> bool" where
  "reads m \<longleftrightarrow> (\<forall>c. tables (snd (m c)) = tables c \<and> now (snd (m c)) = now c)"

text \<open>A failure has changed nothing.\<close>

definition atomic :: "'a io \<Rightarrow> bool" where
  "atomic m \<longleftrightarrow> (\<forall>c e c'. m c = (Inl e, c') \<longrightarrow> tables c' = tables c)"

definition returns :: "'a io \<Rightarrow> bool" where
  "returns m \<longleftrightarrow> (\<forall>c. \<exists>x. m c = (Inr x, c))"

named_theorems io_rules \<open>which computations only read, which fail without a trace\<close>

lemma readsD: "reads m \<Longrightarrow> m c = (r, c') \<Longrightarrow> tables c' = tables c \<and> now c' = now c"
  by (metis reads_def snd_conv)

lemma atomicD: "atomic m \<Longrightarrow> m c = (Inl e, c') \<Longrightarrow> tables c' = tables c"
  by (simp add: atomic_def)

lemma reads_query [io_rules]: "reads (query f)"
  by (auto simp: reads_def query_def stmt_def Let_def split: option.splits list.splits)

lemma reads_ok [io_rules]: "reads (ok x)" and reads_lift [io_rules]: "reads (lift r)"
  by (simp_all add: reads_def)

lemma reads_and_then [io_rules]: "reads m \<Longrightarrow> (\<And>x. reads (f x)) \<Longrightarrow> reads (and_then m f)"
  unfolding reads_def and_then_def
  by (auto split: prod.splits sum.splits) (metis snd_conv)+

lemma reads_option [io_rules]: "reads m \<Longrightarrow> (\<And>y. reads (f y)) \<Longrightarrow> reads (case x of None \<Rightarrow> m | Some y \<Rightarrow> f y)"
  and reads_if [io_rules]: "reads m \<Longrightarrow> reads m' \<Longrightarrow> reads (if b then m else m')"
  and reads_prod [io_rules]: "(\<And>a b. reads (g a b)) \<Longrightarrow> reads (case z of (a, b) \<Rightarrow> g a b)"
  by (auto split: option.splits prod.splits)

lemma atomic_reads: "reads m \<Longrightarrow> atomic m"
  by (auto simp: atomic_def dest: readsD)

lemma atomic_stmt: "atomic (stmt f)"
  by (auto simp: atomic_def dest: stmt_Inl_tables)

lemma atomic_transaction: "atomic (transaction m)"
  by (auto simp: atomic_def dest: transaction_Inl)

lemma atomic_read_then: "reads m \<Longrightarrow> (\<And>x. atomic (f x)) \<Longrightarrow> atomic (and_then m f)"
  by (fastforce simp: atomic_def and_then_Inl dest: readsD)

lemma atomic_then_return: "atomic m \<Longrightarrow> (\<And>x. returns (f x)) \<Longrightarrow> atomic (and_then m f)"
  unfolding atomic_def and_then_Inl returns_def by (metis Inl_Inr_False prod.inject)

lemma returns_ok: "returns (ok x)"
  by (simp add: returns_def)

lemma atomic_if: "atomic m \<Longrightarrow> atomic m' \<Longrightarrow> atomic (if b then m else m')"
  and atomic_prod: "(\<And>a b. atomic (g a b)) \<Longrightarrow> atomic (case z of (a, b) \<Rightarrow> g a b)"
  by (auto split: prod.splits)

lemma atomic_store: "atomic (store_snapshot_with_vv v u s vv)"
  and atomic_store_replacing: "atomic (store_snapshot_replacing_tombstone v u s vv)"
  and atomic_delete: "atomic (delete_doc_guarded L v u p e)"
  by (simp_all add: store_snapshot_with_vv_def store_snapshot_replacing_tombstone_def
      delete_doc_guarded_def atomic_transaction)

lemma reads_gets [io_rules]:
  "reads (get_snapshot_with_incarnation v u)" "reads (get_snapshot_with_vv v u)"
  "reads (is_tombstoned v u)" "reads (list_docs_with_vv L v)" "reads (list_tombstones v)"
  "reads (list_tombstones_with_hash v)"
  by (simp_all add: get_snapshot_with_incarnation_def get_snapshot_with_vv_def is_tombstoned_def
      list_docs_with_vv_def list_tombstones_def list_tombstones_with_hash_def reads_query)

lemma get_snapshot_with_vv_Inr: "get_snapshot_with_vv v u c = (Inr x, c') \<Longrightarrow>
    x = map_option (\<lambda>r. (snapshot_blob r, vv_blob r)) (tbl_get (documents (tables c)) (v, u)) \<and>
    tables c' = tables c \<and> now c' = now c"
  by (auto simp: get_snapshot_with_vv_def dest!: query_Inr)

lemma is_tombstoned_Inr: "is_tombstoned v u c = (Inr x, c') \<Longrightarrow>
    x = (tbl_get (tombstones (tables c)) (v, u) \<noteq> None) \<and> tables c' = tables c \<and> now c' = now c"
  by (auto simp: is_tombstoned_def dest!: query_Inr)

end
