(* ===== verification/Handlers_Facts.thy ===== *)
theory Handlers_Facts
  imports Handlers Db_Facts
begin

text \<open>
  The handlers of \<open>Handlers\<close>, branch by branch: what a successful run answered and which transaction
  it committed, and that a failed run has changed nothing.
\<close>

section \<open>Branches\<close>

lemma push_Inr:
  assumes "handle_sync_push L v u delta p k c = (Inr r, c')"
    and "tbl_get (documents (tables c)) (v, u) = row"
    and "tbl_get (tombstones (tables c)) (v, u) = grave"
  obtains
    (dead) "row = None" "grave \<noteq> None" "r = (DocTombstoned u, None)" "tables c' = tables c"
  | (conflict) x where "row = Some x" "push_disjoint L (vv_blob x) delta = Inr True"
      "r = (CreateConflict u, None)" "tables c' = tables c"
  | (stored) snap vv n c1 inc where
      "row = None \<Longrightarrow> grave = None" "\<And>x. row = Some x \<Longrightarrow> push_disjoint L (vv_blob x) delta = Inr False"
      "merge_docs L ''loro import client delta: '' (map_option snapshot_blob row) delta = Inr (snap, vv)"
      "tables c1 = tables c" "now c1 = now c"
      "store_snapshot_with_vv v u snap (vv_to_db_bytes L vv) c1 = (Inr n, c')"
      "inc = (if row = None then Some n else None)"
      "r = (Ack inc None, Some (DeltaEvent v u delta p k (vv_to_json_bytes L vv) inc))"
proof (cases row)
  case None
  then show ?thesis
    using assms that(1) that(3) unfolding handle_sync_push_def
    by (cases grave) (auto simp: and_then_Inr Let_def
        dest!: get_snapshot_with_vv_Inr is_tombstoned_Inr)
next
  case (Some x)
  then show ?thesis
    using assms that(2) that(3) unfolding handle_sync_push_def
    by (auto simp: and_then_Inr Let_def split: if_splits dest!: get_snapshot_with_vv_Inr)
qed

lemma create_Inr:
  assumes "handle_doc_create L v u snapshot p k replace c = (Inr r, c')"
    and "tbl_get (documents (tables c)) (v, u) = row"
    and "tbl_get (tombstones (tables c)) (v, u) = grave"
  obtains
    (dead) "row = None" "grave \<noteq> None" "\<not> replace" "r = (DocTombstoned u, None)" "tables c' = tables c"
  | (conflict) x where "row = Some x" "create_disjoint L (vv_blob x) snapshot = Inr True"
      "r = (CreateConflict u, None)" "tables c' = tables c"
  | (stored) snap vv n c1 inc where
      "grave = None \<or> row \<noteq> None \<and> \<not> replace"
      "\<And>x. row = Some x \<Longrightarrow> create_disjoint L (vv_blob x) snapshot = Inr False"
      "merge_docs L ''loro import client snapshot: '' (map_option snapshot_blob row) snapshot = Inr (snap, vv)"
      "tables c1 = tables c" "now c1 = now c"
      "store_snapshot_with_vv v u snap (vv_to_db_bytes L vv) c1 = (Inr n, c')"
      "inc = (if row = None then Some n else None)"
      "r = (Ack inc None, Some (DeltaEvent v u snapshot p k (vv_to_json_bytes L vv) inc))"
  | (replaced) snap vv n c1 where
      "replace" "grave \<noteq> None"
      "\<And>x. row = Some x \<Longrightarrow> create_disjoint L (vv_blob x) snapshot = Inr False"
      "merge_docs L ''loro import client snapshot: '' (map_option snapshot_blob row) snapshot = Inr (snap, vv)"
      "tables c1 = tables c" "now c1 = now c"
      "store_snapshot_replacing_tombstone v u snap (vv_to_db_bytes L vv) c1 = (Inr n, c')"
      "r = (Ack (Some n) None, Some (DeltaEvent v u snapshot p k (vv_to_json_bytes L vv) (Some n)))"
proof (cases row)
  case row: None
  show ?thesis
  proof (cases grave)
    case None
    then show ?thesis
      using that(3) by (cases replace)
        (insert assms row, auto simp: handle_doc_create_def and_then_Inr Let_def
          dest!: get_snapshot_with_vv_Inr is_tombstoned_Inr)
  next
    case (Some g)
    then show ?thesis
      using that(1) that(4) by (cases replace)
        (insert assms row, auto simp: handle_doc_create_def and_then_Inr Let_def
          dest!: get_snapshot_with_vv_Inr is_tombstoned_Inr)
  qed
next
  case row: (Some x)
  note run = handle_doc_create_def and_then_Inr Let_def
  let ?merge = "merge_docs L ''loro import client snapshot: '' (Some (snapshot_blob x)) snapshot"
  consider (err) e where "create_disjoint L (vv_blob x) snapshot = Inl e"
    | (yes) "create_disjoint L (vv_blob x) snapshot = Inr True"
    | (no) "create_disjoint L (vv_blob x) snapshot = Inr False"
    by (cases "create_disjoint L (vv_blob x) snapshot") auto
  then show ?thesis
  proof cases
    case err
    then show ?thesis
      using assms row by (cases replace)
        (auto simp: run dest!: get_snapshot_with_vv_Inr is_tombstoned_Inr)
  next
    case yes
    then show ?thesis
      using assms row that(2) [OF row] by (cases replace)
        (auto simp: run dest!: get_snapshot_with_vv_Inr is_tombstoned_Inr)
  next
    case no
    show ?thesis
    proof (cases "replace \<and> grave \<noteq> None")
      case False
      with no have "\<exists>snap vv n c1. ?merge = Inr (snap, vv) \<and> tables c1 = tables c \<and> now c1 = now c \<and>
          store_snapshot_with_vv v u snap (vv_to_db_bytes L vv) c1 = (Inr n, c') \<and>
          r = (Ack None None, Some (DeltaEvent v u snapshot p k (vv_to_json_bytes L vv) None))"
        using assms row by (cases replace)
          (auto simp: run dest!: get_snapshot_with_vv_Inr is_tombstoned_Inr, blast+)
      then show ?thesis
        using no row False by (elim exE conjE) (rule that(3); auto)
    next
      case True
      with no have "\<exists>snap vv n c1. ?merge = Inr (snap, vv) \<and> tables c1 = tables c \<and> now c1 = now c \<and>
          store_snapshot_replacing_tombstone v u snap (vv_to_db_bytes L vv) c1 = (Inr n, c') \<and>
          r = (Ack (Some n) None, Some (DeltaEvent v u snapshot p k (vv_to_json_bytes L vv) (Some n)))"
        using assms row
        by (auto simp: run dest!: get_snapshot_with_vv_Inr is_tombstoned_Inr, blast+)
      then show ?thesis
        using no row True by (elim exE conjE) (rule that(4); auto)
    qed
  qed
qed

lemma delete_msg_Inr:
  assumes "handle_doc_delete L v k u p expected intent rid c = (Inr r, c')"
  obtains
    (refused) "refused expected (live_token (tables c) v u)"
      "r = (DeleteRejected u intent rid, None)" "tables c' = tables c"
  | (deleted) grave where "\<not> refused expected (live_token (tables c) v u)"
      "grave = buried L p (now c) (tbl_get (documents (tables c)) (v, u))
         (tbl_get (tombstones (tables c)) (v, u))"
      "r = (Ack None rid, Some (DeleteEvent v u k (content_hash grave)))"
      "tables c' = (tables c)\<lparr>documents := tbl_del (v, u) (documents (tables c)),
         tombstones := tbl_put (v, u) grave (tombstones (tables c))\<rparr>"
proof -
  obtain out c1 where out: "delete_doc_guarded L v u p expected c = (Inr out, c1)"
    and r: "(case out of Rejected _ \<Rightarrow> ok (DeleteRejected u intent rid, None)
       | Deleted hash _ \<Rightarrow> ok (Ack None rid, Some (DeleteEvent v u k hash))
       | IdempotentNoLive hash \<Rightarrow> ok (Ack None rid, Some (DeleteEvent v u k hash))) c1 = (Inr r, c')"
    using assms by (auto simp: handle_doc_delete_def and_then_Inr)
  show ?thesis
  proof (cases "refused expected (live_token (tables c) v u)")
    case True
    then show ?thesis
      using delete_Inr_refused [OF out] r by (intro that(1)) auto
  next
    case False
    then show ?thesis
      using delete_Inr_done [OF out False refl refl refl] r
      by (cases "tbl_get (documents (tables c)) (v, u)") (auto intro: that(2))
  qed
qed

section \<open>Failures\<close>

lemma reads_sync_start: "reads (handle_sync_start L v u cvv)"
  unfolding handle_sync_start_def Let_def by (intro io_rules)

lemma reads_doc_list: "reads (handle_doc_list L v)"
  unfolding handle_doc_list_def by (intro io_rules)

lemma atomic_push: "atomic (handle_sync_push L v u delta p k)"
  unfolding handle_sync_push_def Let_def
  by (intro atomic_read_then atomic_if atomic_prod atomic_then_return atomic_store returns_ok io_rules
      atomic_reads [OF reads_ok])

lemma atomic_create: "atomic (handle_doc_create L v u s p k replace)"
  unfolding handle_doc_create_def Let_def
  by (intro atomic_read_then atomic_if atomic_prod atomic_then_return atomic_store
      atomic_store_replacing returns_ok io_rules atomic_reads [OF reads_ok])

lemma atomic_delete_msg: "atomic (handle_doc_delete L v k u p expected intent rid)"
  unfolding handle_doc_delete_def
  by (intro atomic_then_return atomic_delete) (auto simp: returns_def split: delete_outcome.splits)

lemma atomic_dispatch: "atomic (dispatch L v k m)"
  by (cases m) (simp_all add: atomic_reads reads_lift reads_ok reads_sync_start reads_doc_list
      atomic_push atomic_create atomic_delete_msg)

lemma process_inner_Inl: "process_inner L v k m c = (Inl e, c') \<Longrightarrow> tables c' = tables c"
  by (auto simp: process_inner_def and_then_Inl dest: atomicD [OF atomic_dispatch])

lemma process_inner_Inr: "process_inner L v k m c = (Inr r, c') \<Longrightarrow>
    check_caps m = Inr () \<and> dispatch L v k m c = (Inr r, c')"
  by (auto simp: process_inner_def and_then_Inr)

text \<open>A frame either leaves the tables alone or is a request whose handler succeeded.\<close>

lemma process_message_cases:
  assumes "process_message L from_slice data v k c = (r, c')"
  obtains
    (same) "tables c' = tables c"
  | (handled) m resp where "from_slice data = Inr m" "check_caps m = Inr ()"
      "dispatch L v k m c = (Inr (resp, snd r), c')" "fst r = echo_request (request_id_of m) resp"
proof (cases "from_slice data")
  case (Inl e)
  then show ?thesis
    using assms that(1) by (auto simp: process_message_def Let_def split: prod.splits)
next
  case (Inr m)
  obtain res c1 where run: "process_inner L v k m c = (res, c1)" by force
  show ?thesis
  proof (cases res)
    case (Inl e)
    then show ?thesis
      using assms Inr run that(1)
      by (auto simp: process_message_def Let_def split: prod.splits dest: process_inner_Inl)
  next
    case (Inr r')
    then show ?thesis
      using assms \<open>from_slice data = Inr m\<close> run that(2)
      by (auto simp: process_message_def Let_def split: prod.splits dest!: process_inner_Inr)
  qed
qed

lemma dispatch_unchanged:
  assumes "dispatch L v k m c = (Inr r, c')"
    and "case m of SyncPush _ _ _ _ \<Rightarrow> False | DocCreate _ _ _ _ _ \<Rightarrow> False
      | DocDelete _ _ _ _ _ \<Rightarrow> False | _ \<Rightarrow> True"
  shows "tables c' = tables c"
  using assms
  by (cases m) (auto dest: readsD [OF reads_sync_start] readsD [OF reads_doc_list])

end
