(* ===== verification/Path_Spec.thy ===== *)
theory Path_Spec
  imports Handlers_Facts
begin

text \<open>
  The promise of the document lane, without snapshots, rows and replies: each path of a vault is
  absent, live under an incarnation token, or dead; each vault hands out tokens in increasing order.
  The actions are the life of a path.  The section on refinement shows that every frame a client
  sends performs one of the actions its message permits.
\<close>

section \<open>The abstract vault\<close>

datatype status = Absent | Live int | Dead

record vault_spec =
  next_tok :: int
  status_of :: "string \<Rightarrow> status"

datatype action =
    Skip
  | Create string
  | Recreate string
  | Renew string
  | Edit string
  | Delete string
  | Expire "string set"

definition establish :: "string \<Rightarrow> vault_spec \<Rightarrow> vault_spec" where
  "establish u s = \<lparr>next_tok = next_tok s + 1, status_of = (status_of s)(u := Live (next_tok s))\<rparr>"

text \<open>A dead path comes back only by \<open>Recreate\<close>, and always under a token never used before.\<close>

inductive spec_step :: "vault_spec \<Rightarrow> action \<Rightarrow> vault_spec \<Rightarrow> bool" where
  skip: "spec_step s Skip s"
| create: "status_of s u = Absent \<Longrightarrow> spec_step s (Create u) (establish u s)"
| recreate: "status_of s u = Dead \<Longrightarrow> spec_step s (Recreate u) (establish u s)"
| renew: "status_of s u = Live n \<Longrightarrow> spec_step s (Renew u) (establish u s)"
| edit: "status_of s u = Live n \<Longrightarrow> spec_step s (Edit u) s"
| delete: "spec_step s (Delete u) (s\<lparr>status_of := (status_of s)(u := Dead)\<rparr>)"
| expire: "\<forall>u \<in> us. status_of s u = Dead \<Longrightarrow>
    spec_step s (Expire us) (s\<lparr>status_of := \<lambda>u. if u \<in> us then Absent else status_of s u\<rparr>)"

inductive_simps spec_step_simps:
  "spec_step s Skip t" "spec_step s (Create u) t" "spec_step s (Recreate u) t" "spec_step s (Renew u) t"
  "spec_step s (Edit u) t" "spec_step s (Delete u) t" "spec_step s (Expire us) t"

definition tokens_below :: "vault_spec \<Rightarrow> bool" where
  "tokens_below s \<longleftrightarrow> 1 \<le> next_tok s \<and> (\<forall>u n. status_of s u = Live n \<longrightarrow> 1 \<le> n \<and> n < next_tok s)"

lemma spec_step_tokens_below: "spec_step s a t \<Longrightarrow> tokens_below s \<Longrightarrow> tokens_below t"
  by (induction rule: spec_step.induct) (force simp: tokens_below_def establish_def)+

lemma spec_step_next: "spec_step s a t \<Longrightarrow> next_tok s \<le> next_tok t"
  by (induction rule: spec_step.induct) (simp_all add: establish_def)

text \<open>A step that leaves a path live under a token kept the token or took the next one.\<close>

lemma spec_step_live:
  "spec_step s a t \<Longrightarrow> status_of t u = Live m \<Longrightarrow> status_of s u = Live m \<or> m = next_tok s"
  by (induction rule: spec_step.induct) (auto simp: establish_def split: if_splits)

abbreviation some_step :: "vault_spec \<Rightarrow> vault_spec \<Rightarrow> bool" where
  "some_step s t \<equiv> \<exists>a. spec_step s a t"

interpretation spec: transition_invariant "\<lambda>s. next_tok s = 1 \<and> (\<forall>u. status_of s u = Absent)"
  some_step tokens_below
  by unfold_locales (simp add: tokens_below_def, blast intro: spec_step_tokens_below)

lemma steps_next: "some_step\<^sup>*\<^sup>* s t \<Longrightarrow> next_tok s \<le> next_tok t"
  by (induction rule: rtranclp_induct) (auto dest: spec_step_next)

text \<open>After any steps a live path has the token it had, or one that was not yet handed out.\<close>

lemma steps_live:
  "some_step\<^sup>*\<^sup>* s t \<Longrightarrow> status_of t u = Live m \<Longrightarrow> status_of s u = Live m \<or> next_tok s \<le> m"
proof (induction arbitrary: m rule: rtranclp_induct)
  case (step t1 t2)
  then obtain a where "spec_step t1 a t2" by blast
  then have "status_of t1 u = Live m \<or> m = next_tok t1"
    using step.prems by (rule spec_step_live)
  then show ?case
    using step.IH steps_next [OF step.hyps(1)] by auto
qed simp

lemma token_never_reused:
  assumes "tokens_below s" and "status_of s u = Live n"
    and "some_step\<^sup>*\<^sup>* s s1" and "status_of s1 u \<noteq> Live n"
    and "some_step\<^sup>*\<^sup>* s1 s2" and "status_of s2 u = Live m"
  shows "n < m"
proof -
  have "n < next_tok s1"
    using assms(1-3) steps_next [OF assms(3)] by (force simp: tokens_below_def)
  moreover have "status_of s1 u = Live m \<or> next_tok s1 \<le> m"
    using assms(5,6) by (rule steps_live)
  moreover have "status_of s1 u = Live m \<Longrightarrow> next_tok s \<le> m"
    using steps_live [OF assms(3)] assms(2,4) by force
  ultimately show ?thesis
    using assms(1,2) by (force simp: tokens_below_def)
qed

section \<open>Refinement\<close>

text \<open>What the tables say of a vault.  A live row is authoritative over a tombstone beside it.\<close>

definition abs_vault :: "string \<Rightarrow> db \<Rightarrow> vault_spec" where
  "abs_vault v d =
     \<lparr>next_tok = next_token v d,
      status_of = (\<lambda>u. case tbl_get (documents d) (v, u) of
          Some r \<Rightarrow> Live (incarnation r)
        | None \<Rightarrow> if tbl_get (tombstones d) (v, u) \<noteq> None then Dead else Absent)\<rparr>"

fun permits :: "client_msg \<Rightarrow> action \<Rightarrow> bool" where
  "permits (SyncPush u _ _ _) a \<longleftrightarrow> a = Skip \<or> a = Create u \<or> a = Edit u"
| "permits (DocCreate u _ _ replace _) a \<longleftrightarrow>
     a = Skip \<or> a = Create u \<or> a = Edit u \<or> replace \<and> (a = Recreate u \<or> a = Renew u)"
| "permits (DocDelete u _ _ _ _) a \<longleftrightarrow> a = Skip \<or> a = Delete u"
| "permits _ a \<longleftrightarrow> a = Skip"

lemma next_token_spend: "next_token v (spend v' n d) = (if v = v' then n + 1 else next_token v d)"
  by (simp add: next_token_def spend_def sql.get_put)

lemma next_token_frame [simp]:
  "next_token v (d\<lparr>documents := x\<rparr>) = next_token v d"
  "next_token v (d\<lparr>tombstones := y\<rparr>) = next_token v d"
  by (simp_all add: next_token_def)

lemma abs_store:
  assumes "store_snapshot_with_vv v u snap vv c = (Inr n, c')"
  shows "abs_vault v (tables c') = (if tbl_get (documents (tables c)) (v, u) = None
    then establish u (abs_vault v (tables c)) else abs_vault v (tables c))"
proof (cases "tbl_get (documents (tables c)) (v, u)")
  case None
  with store_Inr [OF assms] have "alloc_token v (tables c) = Inr (n, spend v n (tables c))"
    and "tables c' = (spend v n (tables c))\<lparr>documents := tbl_put (v, u)
        \<lparr>snapshot_blob = snap, vv_blob = vv, updated_at = now c, incarnation = n\<rparr> (documents (tables c))\<rparr>"
    by simp_all
  then show ?thesis
    using None inc.alloc_token [of v "tables c" n]
    by (auto simp: abs_vault_def establish_def next_token_spend sql.get_put fun_eq_iff split: option.split)
next
  case (Some r)
  with store_Inr [OF assms] show ?thesis
    by (simp add: abs_vault_def sql.get_put fun_eq_iff split: option.split)
qed

lemma abs_store_replacing:
  assumes "store_snapshot_replacing_tombstone v u snap vv c = (Inr n, c')"
  shows "abs_vault v (tables c') = establish u (abs_vault v (tables c))"
  using store_replacing_Inr [OF assms] inc.alloc_token [of v "tables c" n]
  by (auto simp: abs_vault_def establish_def next_token_spend sql.get_put sql.get_del fun_eq_iff split: option.split)

lemma abs_delete:
  "abs_vault v (d\<lparr>documents := tbl_del (v, u) (documents d), tombstones := tbl_put (v, u) g (tombstones d)\<rparr>) =
   (abs_vault v d)\<lparr>status_of := (status_of (abs_vault v d))(u := Dead)\<rparr>"
  by (simp add: abs_vault_def sql.get_put sql.get_del fun_eq_iff split: option.split)

lemma status_abs: "status_of (abs_vault v d) u = (case tbl_get (documents d) (v, u) of
    Some r \<Rightarrow> Live (incarnation r)
  | None \<Rightarrow> if tbl_get (tombstones d) (v, u) \<noteq> None then Dead else Absent)"
  by (simp add: abs_vault_def)

text \<open>The two commits as actions: a store creates or edits, a replacing store revives or renews.\<close>

lemma store_action:
  assumes "store_snapshot_with_vv v u snap vv c1 = (Inr n, c')" and "tables c1 = tables c"
    and "tbl_get (documents (tables c)) (v, u) = None \<Longrightarrow> tbl_get (tombstones (tables c)) (v, u) = None"
  shows "\<exists>a \<in> {Create u, Edit u}. spec_step (abs_vault v (tables c)) a (abs_vault v (tables c'))"
proof (cases "tbl_get (documents (tables c)) (v, u)")
  case None
  then have "spec_step (abs_vault v (tables c)) (Create u) (establish u (abs_vault v (tables c)))"
    using assms(3) by (intro spec_step.create) (simp add: status_abs)
  then show ?thesis
    using abs_store [OF assms(1)] assms(2) None by simp
next
  case (Some r)
  then have "spec_step (abs_vault v (tables c)) (Edit u) (abs_vault v (tables c))"
    by (intro spec_step.edit) (simp add: status_abs)
  then show ?thesis
    using abs_store [OF assms(1)] assms(2) Some by simp
qed

lemma replace_action:
  assumes "store_snapshot_replacing_tombstone v u snap vv c1 = (Inr n, c')" and "tables c1 = tables c"
    and "tbl_get (tombstones (tables c)) (v, u) \<noteq> None"
  shows "\<exists>a \<in> {Recreate u, Renew u}. spec_step (abs_vault v (tables c)) a (abs_vault v (tables c'))"
proof (cases "tbl_get (documents (tables c)) (v, u)")
  case None
  then have "spec_step (abs_vault v (tables c)) (Recreate u) (establish u (abs_vault v (tables c)))"
    using assms(3) by (intro spec_step.recreate) (simp add: status_abs)
  then show ?thesis
    using abs_store_replacing [OF assms(1)] assms(2) by simp
next
  case (Some r)
  then have "spec_step (abs_vault v (tables c)) (Renew u) (establish u (abs_vault v (tables c)))"
    by (intro spec_step.renew) (simp add: status_abs)
  then show ?thesis
    using abs_store_replacing [OF assms(1)] assms(2) by simp
qed

lemma push_refines:
  assumes "handle_sync_push L v u delta p k c = (Inr r, c')"
  shows "\<exists>a. permits (SyncPush u delta p rid) a \<and> spec_step (abs_vault v (tables c)) a (abs_vault v (tables c'))"
  using assms refl refl
proof (cases rule: push_Inr)
  case (stored snap vv n c1 inc)
  then show ?thesis
    using store_action [OF stored(6,4)] by fastforce
qed (auto intro: spec_step.skip)

lemma create_refines:
  assumes "handle_doc_create L v u snapshot p k replace c = (Inr r, c')"
  shows "\<exists>a. permits (DocCreate u snapshot p replace rid) a \<and>
    spec_step (abs_vault v (tables c)) a (abs_vault v (tables c'))"
  using assms refl refl
proof (cases rule: create_Inr)
  case (stored snap vv n c1 inc)
  then show ?thesis
    using store_action [OF stored(6,4)] by fastforce
next
  case (replaced snap vv n c1)
  then show ?thesis
    using replace_action [OF replaced(7,5,2)] by fastforce
qed (auto intro: spec_step.skip)

lemma delete_refines:
  assumes "handle_doc_delete L v k u p expected intent rid c = (Inr r, c')"
  shows "\<exists>a. permits (DocDelete u p expected intent rid) a \<and>
    spec_step (abs_vault v (tables c)) a (abs_vault v (tables c'))"
  using assms
proof (cases rule: delete_msg_Inr)
  case (deleted grave)
  then show ?thesis by (auto simp: spec_step_simps abs_delete)
qed (auto intro: spec_step.skip)

lemma dispatch_refines:
  assumes "dispatch L v k m c = (Inr r, c')"
  shows "\<exists>a. permits m a \<and> spec_step (abs_vault v (tables c)) a (abs_vault v (tables c'))"
proof (cases m)
  case (SyncPush u delta p rid)
  from assms [unfolded SyncPush, simplified] show ?thesis unfolding SyncPush by (rule push_refines)
next
  case (DocCreate u s p replace rid)
  from assms [unfolded DocCreate, simplified] show ?thesis unfolding DocCreate by (rule create_refines)
next
  case (DocDelete u p expected intent rid)
  from assms [unfolded DocDelete, simplified] show ?thesis unfolding DocDelete by (rule delete_refines)
qed (use assms dispatch_unchanged [OF assms] in \<open>auto intro: spec_step.skip\<close>)

lemma process_refines:
  assumes "process_message L from_slice data v k c = (r, c')"
  shows "\<exists>a. (case from_slice data of Inr m \<Rightarrow> permits m a | Inl _ \<Rightarrow> a = Skip) \<and>
    spec_step (abs_vault v (tables c)) a (abs_vault v (tables c'))"
  using assms
proof (cases rule: process_message_cases)
  case same
  have "permits m Skip" for m by (cases m) simp_all
  then show ?thesis
    using same by (auto intro!: exI [of _ Skip] intro: spec_step.skip split: sum.splits)
next
  case (handled m resp)
  then show ?thesis using dispatch_refines by fastforce
qed

end
