(* ===== verification/Example_Libs.thy ===== *)
theory Example_Libs
  imports Loro
begin

text \<open>
  A small executable stand-in for the libraries of \<open>Loro\<close>, at which the theorems with a library
  parameter are evaluated.  A document is a version vector and a text; every blob is a list of
  numbers in unary (ones closed by a zero).  It satisfies all four assumptions on the libraries,
  which therefore can hold together.
\<close>

section \<open>Numbers as bytes\<close>

fun unary :: "nat \<Rightarrow> bytes" where
  "unary 0 = [0]"
| "unary (Suc n) = 1 # unary n"

definition enc_nats :: "nat list \<Rightarrow> bytes" where
  "enc_nats ns = concat (map unary ns)"

fun dec_from :: "nat \<Rightarrow> bytes \<Rightarrow> nat list" where
  "dec_from n [] = []"
| "dec_from n (b # bs) = (if b = 0 then n # dec_from 0 bs else dec_from (Suc n) bs)"

lemma dec_from_unary: "dec_from k (unary n @ bs) = (k + n) # dec_from 0 bs"
  by (induction n arbitrary: k) simp_all

lemma dec_enc_nats [simp]: "dec_from 0 (enc_nats ns) = ns"
  by (induction ns) (simp_all add: enc_nats_def dec_from_unary)

fun put_int :: "int \<Rightarrow> nat list" where
  "put_int i = [if i < 0 then 1 else 0, nat \<bar>i\<bar>]"

fun get_int :: "nat \<Rightarrow> nat \<Rightarrow> int" where
  "get_int s a = (if s = 0 then int a else - int a)"

section \<open>Version vectors and maps\<close>

fun put_pairs :: "version_vector \<Rightarrow> nat list" where
  "put_pairs [] = []"
| "put_pairs ((p, c) # vv) = p # put_int c @ put_pairs vv"

fun get_pairs :: "nat list \<Rightarrow> version_vector" where
  "get_pairs (p # s # a # ns) = (p, get_int s a) # get_pairs ns"
| "get_pairs _ = []"

lemma get_put_pairs [simp]: "get_pairs (put_pairs vv) = vv"
  by (induction vv rule: put_pairs.induct) auto

fun put_map :: "(string, int) table \<Rightarrow> nat list" where
  "put_map [] = []"
| "put_map ((k, c) # m) = map (\<lambda>x. Suc (of_char x)) k @ 0 # put_int c @ put_map m"

fun get_map :: "string \<Rightarrow> nat list \<Rightarrow> (string, int) table" where
  "get_map k (0 # s # a # ns) = (k, get_int s a) # get_map [] ns"
| "get_map k (Suc x # ns) = get_map (k @ [char_of x]) ns"
| "get_map k _ = []"

lemma get_map_key: "get_map k (map (\<lambda>x. Suc (of_char x)) k' @ ns) = get_map (k @ k') ns"
  by (induction k' arbitrary: k) simp_all

lemma get_put_map [simp]: "get_map [] (put_map m) = m"
  by (induction m rule: put_map.induct) (auto simp: get_map_key)

section \<open>Documents\<close>

type_synonym toy_doc = "version_vector \<times> scalar list"

text \<open>A blob: the counter it starts from (0 for nothing), the number of changes, the pairs, the text.\<close>

definition blob :: "nat \<Rightarrow> version_vector \<Rightarrow> scalar list \<Rightarrow> bytes" where
  "blob start vv txt = enc_nats (start # length vv # put_pairs vv @ txt)"

fun raise_to :: "version_vector \<Rightarrow> version_vector \<Rightarrow> version_vector" where
  "raise_to vv [] = vv"
| "raise_to vv ((p, c) # ps) =
     raise_to (tbl_put p (case tbl_get vv p of None \<Rightarrow> c | Some c' \<Rightarrow> max c c') vv) ps"

definition toy_import :: "toy_doc \<Rightarrow> bytes \<Rightarrow> string + toy_doc" where
  "toy_import d b = (case dec_from 0 b of
       start # n # ns \<Rightarrow> Inr (raise_to (fst d) (get_pairs (take (3 * n) ns)), snd d @ drop (3 * n) ns)
     | _ \<Rightarrow> Inl ''malformed'')"

definition toy_meta :: "bytes \<Rightarrow> string + blob_meta" where
  "toy_meta b = (case dec_from 0 b of
       start # n # ns \<Rightarrow> Inr \<lparr>change_num = n, start_frontiers = (if start = 0 then [] else [(start, 0)])\<rparr>
     | _ \<Rightarrow> Inl ''malformed'')"

definition toy_libs :: "toy_doc libs" where
  "toy_libs =
     \<lparr>new_doc = ([], []),
      import_doc = toy_import,
      oplog_vv = fst,
      export_snapshot = (\<lambda>d. if tbl_wf (fst d) then Inr (blob 0 (fst d) (snd d)) else Inl ''corrupt''),
      export_updates = (\<lambda>d vv. Inr (blob 1
         (filter (\<lambda>(p, c). case tbl_get vv p of None \<Rightarrow> True | Some c' \<Rightarrow> c' < c) (fst d)) [])),
      decode_import_blob_meta = toy_meta,
      content_text = snd,
      vv_encode = (\<lambda>vv. enc_nats (put_pairs vv)),
      vv_decode = (\<lambda>b. Inr (get_pairs (dec_from 0 b))),
      json_to_vec = (\<lambda>m. enc_nats (put_map m)),
      json_from_slice = (\<lambda>b. Inr (get_map [] (dec_from 0 b)))\<rparr>"

lemma vv_le_put: "vv_le vv (tbl_put p (case tbl_get vv p of None \<Rightarrow> c | Some c' \<Rightarrow> max c c') vv)"
  by (auto simp: vv_le_def sql.get_put)

lemma vv_le_raise: "vv_le vv (raise_to vv ps)"
  by (induction vv ps rule: raise_to.induct) (auto intro: vv_le_put vv_le_trans)

lemma get_raise: "tbl_wf ps \<Longrightarrow> (\<forall>k \<in> set (map fst ps). tbl_get vv k = None) \<Longrightarrow>
    tbl_get (raise_to vv ps) k = (case tbl_get ps k of None \<Rightarrow> tbl_get vv k | Some c \<Rightarrow> Some c)"
proof (induction vv ps rule: raise_to.induct)
  case (2 vv p c ps)
  have "p \<notin> set (map fst ps)"
    using "2.prems"(1) by (simp add: tbl_wf_def)
  then have "tbl_get ps p = None"
    by (simp add: tbl_get_def map_of_eq_None_iff)
  moreover have vvp: "tbl_get vv p = None"
    using "2.prems"(2) by simp
  moreover have "\<forall>k \<in> set (map fst ps). tbl_get (tbl_put p c vv) k = None"
    using "2.prems"(2) \<open>p \<notin> set (map fst ps)\<close> by (auto simp: sql.get_put)
  then have "tbl_get (raise_to (tbl_put p c vv) ps) k =
      (case tbl_get ps k of None \<Rightarrow> tbl_get (tbl_put p c vv) k | Some c \<Rightarrow> Some c)"
    using "2.IH" "2.prems"(1) vvp by (simp add: tbl_wf_def split: option.splits)
  ultimately show ?case
    using "2.prems"(2) by (auto simp: sql.get_put split: option.splits)
qed simp

lemma length_put_pairs: "length (put_pairs vv) = 3 * length vv"
  by (induction vv rule: put_pairs.induct) auto

lemma toy_import_blob: "toy_import d (blob s vv txt) = Inr (raise_to (fst d) vv, snd d @ txt)"
  by (simp add: toy_import_def blob_def length_put_pairs)

lemma toy_import_monotone: "import_monotone toy_libs"
  by (auto simp: import_monotone_def toy_libs_def toy_import_def vv_le_raise split: list.splits)

lemma toy_snapshot_faithful: "snapshot_faithful toy_libs"
  by (auto simp: snapshot_faithful_def toy_libs_def toy_import_blob get_raise fun_eq_iff
      split: if_splits option.splits)

lemma toy_vv_codec_faithful: "vv_codec_faithful toy_libs"
  by (simp add: vv_codec_faithful_def toy_libs_def)

lemma toy_json_faithful: "json_faithful toy_libs"
  by (auto simp: json_faithful_def toy_libs_def)

lemmas toy_faithful = toy_import_monotone toy_snapshot_faithful toy_vv_codec_faithful toy_json_faithful

theorem vv_json_roundtrip_witness:
  "\<exists>vv'. vv_from_json_bytes toy_libs (vv_to_json_bytes toy_libs [(3, 14), (12, -1)]) = Inr vv' \<and>
    tbl_get vv' = tbl_get [(3, 14), (12, -1)]"
  by (rule vv_json_roundtrip [OF toy_json_faithful]) (simp_all add: tbl_wf_def)

end
