(* ===== verification/Isolation.thy ===== *)
theory Isolation
  imports Handlers_Facts Example_Libs
begin

text \<open>
  Vaults do not see each other.  \<open>slice v d\<close> is what the document lane holds of vault \<open>v\<close>;
  \<open>confined v m\<close> says that the answer of the computation \<open>m\<close> and the slice it leaves are functions
  of that slice, and that \<open>m\<close> leaves the slice of every other vault alone.  The rules compose, so each
  handler is confined because its statements are.
\<close>

section \<open>Slices\<close>

definition own :: "string \<Rightarrow> (string \<times> string, 'r) table \<Rightarrow> (string \<times> string, 'r) table" where
  "own v t = filter (\<lambda>((w, _), _). w = v) t"

record slice =
  own_documents :: "(string \<times> string, doc_row) table"
  own_tombstones :: "(string \<times> string, tombstone_row) table"
  own_token :: "int option"

definition slice_of :: "string \<Rightarrow> db \<Rightarrow> slice" where
  "slice_of v d = \<lparr>own_documents = own v (documents d), own_tombstones = own v (tombstones d),
     own_token = tbl_get (vault_incarnation d) v\<rparr>"

lemma slice_eq: "slice_of v d = slice_of v d' \<longleftrightarrow> own v (documents d) = own v (documents d') \<and>
    own v (tombstones d) = own v (tombstones d') \<and>
    tbl_get (vault_incarnation d) v = tbl_get (vault_incarnation d') v"
  by (simp add: slice_of_def)

lemma get_own: "tbl_get (own v t) (v, u) = tbl_get t (v, u)"
  unfolding own_def tbl_get_def by (induction t) auto

lemma get_own_cong: "own v t = own v t' \<Longrightarrow> tbl_get t (v, u) = tbl_get t' (v, u)"
  by (metis get_own)

lemma own_put: "own w (tbl_put (v, u) r t) = (if w = v then tbl_put (v, u) r (own w t) else own w t)"
  unfolding own_def tbl_put_def by (induction t) auto

lemma own_del: "own w (tbl_del (v, u) t) = (if w = v then tbl_del (v, u) (own w t) else own w t)"
  unfolding own_def tbl_del_def AList.delete_eq by (induction t) auto

lemma vault_rows_own: "vault_rows v t = vault_rows v (own v t)"
  by (simp add: vault_rows_def own_def)

lemma vault_rows_cong: "own v t = own v t' \<Longrightarrow> vault_rows v t = vault_rows v t'"
  using vault_rows_own [of v t] vault_rows_own [of v t'] by simp

text \<open>Equal slices answer the same point queries and listings.\<close>

lemma slice_sameD:
  assumes "slice_of v d = slice_of v d'"
  shows "own v (documents d) = own v (documents d') \<and> own v (tombstones d) = own v (tombstones d') \<and>
    tbl_get (vault_incarnation d) v = tbl_get (vault_incarnation d') v \<and>
    (\<forall>u. tbl_get (documents d) (v, u) = tbl_get (documents d') (v, u)) \<and>
    (\<forall>u. tbl_get (tombstones d) (v, u) = tbl_get (tombstones d') (v, u)) \<and>
    vault_rows v (documents d) = vault_rows v (documents d') \<and>
    vault_rows v (tombstones d) = vault_rows v (tombstones d')"
  using assms by (auto simp: slice_eq intro: get_own_cong vault_rows_cong)

lemmas slice_sameI = slice_eq [THEN iffD2]
lemmas slice_simps = own_put own_del sql.get_put

section \<open>Confined computations\<close>

text \<open>Two connections a client of vault \<open>v\<close> cannot tell apart.\<close>

definition alike :: "string \<Rightarrow> conn \<Rightarrow> conn \<Rightarrow> bool" where
  "alike v c c' \<longleftrightarrow> slice_of v (tables c) = slice_of v (tables c') \<and> faults c = faults c' \<and> now c = now c'"

definition confined :: "string \<Rightarrow> 'a io \<Rightarrow> bool" where
  "confined v m \<longleftrightarrow>
     (\<forall>c c'. alike v c c' \<longrightarrow> fst (m c) = fst (m c') \<and> alike v (snd (m c)) (snd (m c'))) \<and>
     (\<forall>w c. w \<noteq> v \<longrightarrow> slice_of w (tables (snd (m c))) = slice_of w (tables c))"

named_theorems confined_rules \<open>which computations stay within their vault\<close>

lemma confined_alike: "confined v m \<Longrightarrow> alike v c c' \<Longrightarrow> fst (m c) = fst (m c') \<and> alike v (snd (m c)) (snd (m c'))"
  by (simp add: confined_def)

lemma confined_other: "confined v m \<Longrightarrow> w \<noteq> v \<Longrightarrow> slice_of w (tables (snd (m c))) = slice_of w (tables c)"
  by (simp add: confined_def)

lemma confined_ok [confined_rules]: "confined v (ok x)"
  and confined_lift [confined_rules]: "confined v (lift r)"
  by (simp_all add: confined_def)

lemma confined_and_then [confined_rules]:
  assumes "confined v m" and "\<And>x. confined v (f x)"
  shows "confined v (and_then m f)"
  unfolding confined_def
proof (intro conjI allI impI)
  fix c c'
  assume "alike v c c'"
  with assms(1) have m: "fst (m c) = fst (m c')" "alike v (snd (m c)) (snd (m c'))"
    by (auto dest: confined_alike)
  then show "fst (and_then m f c) = fst (and_then m f c')"
    and "alike v (snd (and_then m f c)) (snd (and_then m f c'))"
    using confined_alike [OF assms(2) m(2)]
    by (auto simp: and_then_def split: prod.splits sum.splits)
next
  fix w c
  assume w: "w \<noteq> v"
  show "slice_of w (tables (snd (and_then m f c))) = slice_of w (tables c)"
    using confined_other [OF assms(1) w, of c] confined_other [OF assms(2) w]
    by (auto simp: and_then_def split: prod.splits sum.splits)
qed

lemma confined_stmt:
  assumes "\<And>t d d'. slice_of v d = slice_of v d' \<Longrightarrow>
      rel_sum (=) (\<lambda>(x, e) (x', e'). x = x' \<and> slice_of v e = slice_of v e') (f t d) (f t d')"
    and "\<And>t d x e w. f t d = Inr (x, e) \<Longrightarrow> w \<noteq> v \<Longrightarrow> slice_of w e = slice_of w d"
  shows "confined v (stmt f)"
  unfolding confined_def
proof (intro conjI allI impI)
  fix c c'
  assume "alike v c c'"
  then have c: "slice_of v (tables c) = slice_of v (tables c')" "faults c = faults c'" "now c = now c'"
    by (simp_all add: alike_def)
  show "fst (stmt f c) = fst (stmt f c')" and "alike v (snd (stmt f c)) (snd (stmt f c'))"
    using c assms(1) [OF c(1), of "now c"]
    by (auto simp: stmt_def Let_def alike_def split: option.splits sum.splits list.splits)
next
  fix w c
  assume "w \<noteq> v"
  then show "slice_of w (tables (snd (stmt f c))) = slice_of w (tables c)"
    using assms(2) by (auto simp: stmt_def Let_def split: option.splits sum.splits list.splits)
qed

lemma confined_query:
  assumes "\<And>t d d'. slice_of v d = slice_of v d' \<Longrightarrow> f t d = f t d'"
  shows "confined v (query f)"
  unfolding query_def
proof (rule confined_stmt)
  fix t d d'
  assume s: "slice_of v d = slice_of v d'"
  then have "f t d = f t d'" by (rule assms)
  with s show "rel_sum (=) (\<lambda>(x, e) (x', e'). x = x' \<and> slice_of v e = slice_of v e')
      (Inr (f t d, d)) (Inr (f t d', d'))"
    by simp
qed simp

lemma confined_exec:
  assumes "\<And>t d d'. slice_of v d = slice_of v d' \<Longrightarrow> slice_of v (f t d) = slice_of v (f t d')"
    and "\<And>t d w. w \<noteq> v \<Longrightarrow> slice_of w (f t d) = slice_of w d"
  shows "confined v (exec f)"
  unfolding exec_def
proof (rule confined_stmt)
  fix t d d'
  assume "slice_of v d = slice_of v d'"
  then have "slice_of v (f t d) = slice_of v (f t d')" by (rule assms(1))
  then show "rel_sum (=) (\<lambda>(x, e) (x', e'). x = x' \<and> slice_of v e = slice_of v e')
      (Inr ((), f t d)) (Inr ((), f t d'))"
    by simp
qed (auto simp: assms(2))

lemma confined_transaction [confined_rules]:
  assumes "confined v m"
  shows "confined v (transaction m)"
proof -
  let ?m = "and_then (exec (\<lambda>_ d. d)) (\<lambda>_. and_then m (\<lambda>x. and_then (exec (\<lambda>_ d. d)) (\<lambda>_. ok x)))"
  have m: "confined v ?m"
    by (intro confined_and_then confined_exec confined_ok assms refl)
  have "fst (transaction m c) = fst (?m c)"
    and "tables (snd (transaction m c)) = (case fst (?m c) of Inl _ \<Rightarrow> tables c | Inr _ \<Rightarrow> tables (snd (?m c)))"
    and "faults (snd (transaction m c)) = faults (snd (?m c))"
    and "now (snd (transaction m c)) = now (snd (?m c))" for c
    by (auto simp: transaction_def split: prod.splits sum.splits)
  note run = this
  show ?thesis
    unfolding confined_def
  proof (intro conjI allI impI)
    fix c c'
    assume c: "alike v c c'"
    from m c have step: "fst (?m c) = fst (?m c')" "alike v (snd (?m c)) (snd (?m c'))"
      by (simp_all only: confined_alike)
    show "fst (transaction m c) = fst (transaction m c')"
      unfolding run by (rule step)
    show "alike v (snd (transaction m c)) (snd (transaction m c'))"
      unfolding alike_def run step(1) using step(2) c [unfolded alike_def]
      by (cases "fst (?m c')") (simp_all add: alike_def)
  next
    fix w c
    assume "w \<noteq> v"
    then have "slice_of w (tables (snd (?m c))) = slice_of w (tables c)"
      by (rule confined_other [OF m])
    then show "slice_of w (tables (snd (transaction m c))) = slice_of w (tables c)"
      unfolding run by (cases "fst (?m c)") simp_all
  qed
qed

lemma confined_option [confined_rules]:
  "confined v m \<Longrightarrow> (\<And>y. confined v (f y)) \<Longrightarrow> confined v (case x of None \<Rightarrow> m | Some y \<Rightarrow> f y)"
  and confined_if [confined_rules]: "confined v m \<Longrightarrow> confined v m' \<Longrightarrow> confined v (if b then m else m')"
  and confined_prod [confined_rules]: "(\<And>a b. confined v (g a b)) \<Longrightarrow> confined v (case z of (a, b) \<Rightarrow> g a b)"
  by (auto split: option.splits prod.splits)

section \<open>The document lane is confined\<close>

lemma confined_reads [confined_rules]:
  "confined v (get_snapshot_with_vv v u)" "confined v (get_snapshot_with_incarnation v u)"
  "confined v (is_tombstoned v u)" "confined v (list_docs_with_vv L v)" "confined v (list_tombstones v)"
  "confined v (list_tombstones_with_hash v)"
  unfolding get_snapshot_with_vv_def get_snapshot_with_incarnation_def is_tombstoned_def
    list_docs_with_vv_def list_tombstones_def list_tombstones_with_hash_def
  by (auto intro!: confined_query dest!: slice_sameD)

lemma confined_allocate [confined_rules]: "confined v (allocate_incarnation v)"
proof -
  have "confined v (stmt (\<lambda>_. bump_incarnation v))"
  proof (rule confined_stmt)
    fix d d'
    assume "slice_of v d = slice_of v d'"
    then show "rel_sum (=) (\<lambda>(x, e) (x', e'). x = x' \<and> slice_of v e = slice_of v e')
        (bump_incarnation v d) (bump_incarnation v d')"
      by (cases "tbl_get (vault_incarnation d') v")
        (auto simp: bump_incarnation_def slice_simps slice_eq)
  next
    fix d x e w
    assume "bump_incarnation v d = Inr (x, e)" and "w \<noteq> v"
    then show "slice_of w e = slice_of w d"
      by (auto simp: bump_incarnation_def slice_simps slice_eq split: option.splits if_splits)
  qed
  then show ?thesis
    unfolding allocate_incarnation_def by (intro confined_and_then confined_ok)
qed

lemma confined_store [confined_rules]: "confined v (store_snapshot_with_vv v u snap vv)"
  unfolding store_snapshot_with_vv_def
  by (intro confined_rules confined_query confined_exec)
    (auto simp: slice_simps dest!: slice_sameD intro!: slice_sameI)

lemma confined_store_replacing [confined_rules]: "confined v (store_snapshot_replacing_tombstone v u snap vv)"
  unfolding store_snapshot_replacing_tombstone_def
  by (intro confined_rules confined_exec) (auto simp: slice_simps dest!: slice_sameD intro!: slice_sameI)

lemma confined_fetch_hash: "confined v (stmt (\<lambda>_ d. case tbl_get (tombstones d) (v, u) of
    None \<Rightarrow> Inl e | Some r \<Rightarrow> Inr (content_hash r, d)))"
proof (rule confined_stmt)
  fix d d' :: db
  assume s: "slice_of v d = slice_of v d'"
  then have "tbl_get (tombstones d) (v, u) = tbl_get (tombstones d') (v, u)"
    by (auto dest!: slice_sameD)
  then show "rel_sum (=) (\<lambda>(x, e) (x', e'). x = x' \<and> slice_of v e = slice_of v e')
      (case tbl_get (tombstones d) (v, u) of None \<Rightarrow> Inl e | Some r \<Rightarrow> Inr (content_hash r, d))
      (case tbl_get (tombstones d') (v, u) of None \<Rightarrow> Inl e | Some r \<Rightarrow> Inr (content_hash r, d'))"
    using s by (simp split: option.splits)
qed (auto split: option.splits)

lemma confined_delete [confined_rules]: "confined v (delete_doc_guarded L v u p expected)"
  unfolding delete_doc_guarded_def Let_def
  by (intro confined_rules confined_fetch_hash confined_query confined_exec)
    (auto simp: slice_simps dest!: slice_sameD intro!: slice_sameI)

lemma confined_dispatch [confined_rules]: "confined v (dispatch L v k m)"
proof (cases m)
  case (DocDelete u p expected intent rid)
  have "confined v (case out of Rejected _ \<Rightarrow> ok (DeleteRejected u intent rid, None)
       | Deleted hash _ \<Rightarrow> ok (Ack None rid, Some (DeleteEvent v u k hash))
       | IdempotentNoLive hash \<Rightarrow> ok (Ack None rid, Some (DeleteEvent v u k hash)))" for out
    by (cases out) (simp_all add: confined_rules)
  then show ?thesis
    unfolding DocDelete dispatch.simps handle_doc_delete_def
    by (intro confined_and_then confined_delete)
qed (simp_all only: dispatch.simps handle_sync_start_def handle_sync_push_def handle_doc_create_def
    handle_doc_list_def Let_def, (intro confined_rules)+)

lemma confined_process_inner [confined_rules]: "confined v (process_inner L v k m)"
  unfolding process_inner_def by (intro confined_rules)

lemma process_message_run:
  "process_message L from_slice data v k c =
     (let m = from_slice data;
          rid = (case m of Inr x \<Rightarrow> request_id_of x | Inl _ \<Rightarrow> None);
          out = (case m of Inr x \<Rightarrow> process_inner L v k x c
            | Inl e \<Rightarrow> (Inl (BadFrame (''invalid msgpack: '' @ e)), c))
      in (case fst out of
            Inr (response, broadcast) \<Rightarrow> (echo_request rid response, broadcast)
          | Inl e \<Rightarrow> (ErrorMsg (fst (client_facing e)) (snd (client_facing e)) rid, None), snd out))"
  by (auto simp: process_message_def Let_def split: sum.splits prod.splits)

section \<open>Properties\<close>

text \<open>
  C10: no frame sent in one vault reads or changes another vault.  The reply, the broadcast and what
  the frame leaves of its own vault's documents, tombstones and token counter are the same on any
  two databases that agree on that vault alone (under the same clock and the same storage failures),
  and the slice of every other vault is left as it was.
\<close>

theorem vaults_are_isolated:
  assumes "alike v c c'" and "w \<noteq> v"
  shows "fst (process_message L from_slice data v k c) = fst (process_message L from_slice data v k c') \<and>
    alike v (snd (process_message L from_slice data v k c)) (snd (process_message L from_slice data v k c')) \<and>
    slice_of w (tables (snd (process_message L from_slice data v k c))) = slice_of w (tables c)"
proof (cases "from_slice data")
  case (Inl e)
  then show ?thesis
    using assms by (simp add: process_message_run)
next
  case (Inr m)
  then show ?thesis
    using confined_alike [OF confined_process_inner assms(1), of L k m]
      confined_other [OF confined_process_inner assms(2), of L k m c]
    by (simp add: process_message_run Let_def)
qed

theorem vaults_are_isolated_witness:
  "fst (process_message toy_libs (\<lambda>_. Inr (SyncPush ''n'' (blob 0 [(1, 2)] []) ''p'' None)) [] ''a'' 7
      \<lparr>tables = empty_db, faults = [], now = 5\<rparr>) =
   fst (process_message toy_libs (\<lambda>_. Inr (SyncPush ''n'' (blob 0 [(1, 2)] []) ''p'' None)) [] ''a'' 7
      \<lparr>tables = empty_db\<lparr>documents := [((''b'', ''n''), \<lparr>snapshot_blob = [0], vv_blob = [], updated_at = 1,
         incarnation = 1\<rparr>)]\<rparr>, faults = [], now = 5\<rparr>)"
  by (rule vaults_are_isolated [where w = "''b''", THEN conjunct1])
    (simp_all add: alike_def slice_eq own_def empty_db_def)

end
