(* ===== verification/Doc_Server.thy ===== *)
theory Doc_Server
  imports Path_Spec Isolation
begin

text \<open>
  The document lane as a transition system over the database: frames of any connection in any vault,
  the retention job, and whatever else the server does that leaves the tables of the lane alone
  (peers, invites, attachments, the clock, storage failures).  Then its invariant and the properties
  of runs: tokens are never reused, a deleted path stays deleted, histories only grow, failures leave
  no trace.
\<close>

section \<open>Steps\<close>

definition doc_tables :: "db \<Rightarrow> (string \<times> string, doc_row) table \<times> (string \<times> string, tombstone_row) table \<times> (string, int) table" where
  "doc_tables d = (documents d, tombstones d, vault_incarnation d)"

datatype label =
    Frame string "string + client_msg"
  | Retention
  | Elsewhere

inductive server_step ::
  "'doc libs \<Rightarrow> (bytes \<Rightarrow> string + client_msg) \<Rightarrow> conn \<Rightarrow> label \<Rightarrow> conn \<Rightarrow> bool"
  for L :: "'doc libs" and from_slice :: "bytes \<Rightarrow> string + client_msg" where
  frame: "process_message L from_slice data v k c = (r, c') \<Longrightarrow>
    server_step L from_slice c (Frame v (from_slice data)) c'"
| retention: "expire_tombstones days c = (r, c') \<Longrightarrow> server_step L from_slice c Retention c'"
| elsewhere: "doc_tables (tables c') = doc_tables (tables c) \<Longrightarrow> server_step L from_slice c Elsewhere c'"

inductive_cases server_step_cases: "server_step L from_slice c l c'"

abbreviation any_step where
  "any_step L from_slice c c' \<equiv> \<exists>l. server_step L from_slice c l c'"

text \<open>A decoded frame either failed, leaving no trace, or its handler answered.\<close>

lemma process_parsed:
  assumes "from_slice data = Inr m" and "process_message L from_slice data v k c = (r, c')"
  obtains
    (failed) code msg where "r = (ErrorMsg code msg (request_id_of m), None)" "tables c' = tables c"
  | (answered) resp where "dispatch L v k m c = (Inr (resp, snd r), c')"
      "fst r = echo_request (request_id_of m) resp" "check_caps m = Inr ()"
proof (cases "fst (process_inner L v k m c)")
  case (Inl e)
  have "process_inner L v k m c = (Inl e, snd (process_inner L v k m c))"
    using Inl by (simp add: prod_eq_iff)
  then show ?thesis
    using process_inner_Inl assms Inl by (auto simp: process_message_run intro!: failed)
next
  case (Inr rep)
  then have run: "process_inner L v k m c = (Inr rep, snd (process_inner L v k m c))"
    by (simp add: prod_eq_iff)
  show ?thesis
    using process_inner_Inr [OF run] assms Inr
    by (cases rep) (auto simp: process_message_run intro!: answered [of "fst rep"])
qed

section \<open>Effects on the abstract vault\<close>

lemma abs_vault_slice: "slice_of v d = slice_of v d' \<Longrightarrow> abs_vault v d = abs_vault v d'"
  by (auto simp: abs_vault_def next_token_def cong: option.case_cong dest!: slice_sameD)

lemma abs_vault_doc_tables: "doc_tables d = doc_tables d' \<Longrightarrow> abs_vault v d = abs_vault v d'"
  by (simp add: abs_vault_def next_token_def doc_tables_def cong: option.case_cong)

lemma process_other_vault:
  assumes "w \<noteq> v"
  shows "slice_of w (tables (snd (process_message L from_slice data v k c))) = slice_of w (tables c)"
proof (cases "from_slice data")
  case (Inr m)
  then show ?thesis
    using confined_other [OF confined_process_inner assms, of L k m c]
    by (simp add: process_message_run Let_def)
qed (simp add: process_message_run)

text \<open>What the retention job removes of a vault.\<close>

lemma expire_Inr:
  "expire_tombstones days c = (Inr n, c') \<Longrightarrow>
   tables c' = (tables c)\<lparr>tombstones := tbl_keep (\<lambda>(v, _) r. \<not> (older_than (now c) days (deleted_at r) \<and>
     \<not> list_ex (\<lambda>((v', _), p). v' = v \<and> last_seen_at p \<le> deleted_at r) (peers (tables c))))
     (tombstones (tables c))\<rparr>"
  by (auto simp: expire_tombstones_def stmt_Inr Let_def)

lemma expire_run:
  assumes "expire_tombstones days c = (r, c')"
  obtains P where "tables c' = (tables c)\<lparr>tombstones := tbl_keep P (tombstones (tables c))\<rparr>"
proof (cases r)
  case (Inl e)
  then have "tables c' = tables c"
    using assms by (auto simp: expire_tombstones_def dest: stmt_Inl_tables)
  then show ?thesis
    by (intro that [of "\<lambda>_ _. True"]) (simp add: tbl_keep_def)
next
  case (Inr n)
  then show ?thesis
    using assms expire_Inr [of days c n c'] that by auto
qed

lemma abs_keep:
  assumes "tbl_wf (tombstones d)"
  shows "\<exists>us. spec_step (abs_vault v d) (Expire us)
    (abs_vault v (d\<lparr>tombstones := tbl_keep P (tombstones d)\<rparr>))"
proof -
  let ?us = "{u. tbl_get (documents d) (v, u) = None \<and>
    (\<exists>g. tbl_get (tombstones d) (v, u) = Some g \<and> \<not> P (v, u) g)}"
  have "spec_step (abs_vault v d) (Expire ?us) ((abs_vault v d)\<lparr>status_of :=
      \<lambda>u. if u \<in> ?us then Absent else status_of (abs_vault v d) u\<rparr>)"
    by (rule spec_step.expire) (auto simp: status_abs)
  moreover have "(abs_vault v d)\<lparr>status_of :=
      \<lambda>u. if u \<in> ?us then Absent else status_of (abs_vault v d) u\<rparr> =
      abs_vault v (d\<lparr>tombstones := tbl_keep P (tombstones d)\<rparr>)"
    using assms by (auto simp: abs_vault_def tbl_get_keep fun_eq_iff split: option.splits)
  ultimately show ?thesis by auto
qed

section \<open>The invariant of the lane\<close>

text \<open>
  Primary keys are unique, no path is both live and buried, and every live row carries a token below
  its vault's counter, which stays within an \<open>i64\<close>.
\<close>

definition doc_ok :: "db \<Rightarrow> bool" where
  "doc_ok d \<longleftrightarrow> tbl_wf (documents d) \<and> tbl_wf (tombstones d) \<and> tbl_wf (vault_incarnation d) \<and>
     (\<forall>k. tbl_get (documents d) k = None \<or> tbl_get (tombstones d) k = None) \<and>
     (\<forall>v. tokens_below (abs_vault v d) \<and> next_token v d \<le> i64_max)"

definition tables_ok :: "db \<Rightarrow> bool" where
  "tables_ok d \<longleftrightarrow> tbl_wf (documents d) \<and> tbl_wf (tombstones d) \<and> tbl_wf (vault_incarnation d) \<and>
     (\<forall>k. tbl_get (documents d) k = None \<or> tbl_get (tombstones d) k = None) \<and>
     (\<forall>v. next_token v d \<le> i64_max)"

lemma doc_ok_iff: "doc_ok d \<longleftrightarrow> tables_ok d \<and> (\<forall>v. tokens_below (abs_vault v d))"
  by (auto simp: doc_ok_def tables_ok_def)

lemma alloc_token_bound: "alloc_token v d = Inr (n, d') \<Longrightarrow> n + 1 \<le> i64_max"
  by (auto simp: alloc_token_def bump_incarnation_def split: option.splits if_splits)

lemma tables_ok_live: "tables_ok d \<Longrightarrow> tbl_get (documents d) k = Some r \<Longrightarrow> tbl_get (tombstones d) k = None"
  unfolding tables_ok_def by (metis option.distinct(1))

lemma tables_ok_keep:
  assumes "tables_ok d"
  shows "tables_ok (d\<lparr>tombstones := tbl_keep P (tombstones d)\<rparr>)"
proof -
  have "tbl_get (documents d) k = None \<or> tbl_get (tbl_keep P (tombstones d)) k = None" for k
    using assms tables_ok_live [OF assms, of k]
    by (cases "tbl_get (documents d) k") (simp_all add: tables_ok_def tbl_get_keep)
  then show ?thesis
    using assms by (simp add: tables_ok_def tbl_wf_keep)
qed

lemma vault_incarnation_spend: "vault_incarnation (spend v n d) = tbl_put v (n + 1) (vault_incarnation d)"
  by (simp add: spend_def)

lemma tables_ok_store:
  assumes "tables_ok (tables c1)" and "store_snapshot_with_vv v u snap vv c1 = (Inr n, c')"
    and "tbl_get (documents (tables c1)) (v, u) = None \<Longrightarrow> tbl_get (tombstones (tables c1)) (v, u) = None"
  shows "tables_ok (tables c')"
proof (cases "tbl_get (documents (tables c1)) (v, u)")
  case None
  then show ?thesis
    using assms store_Inr [OF assms(2)] alloc_token_bound [of v "tables c1" n]
    by (auto simp: tables_ok_def sql.wf_put sql.get_put next_token_spend vault_incarnation_spend)
next
  case (Some r)
  then show ?thesis
    using assms(1) store_Inr [OF assms(2)] tables_ok_live [OF assms(1) Some]
    by (auto simp: tables_ok_def sql.wf_put sql.get_put)
qed

lemma tables_ok_replace:
  assumes "tables_ok (tables c1)" and "store_snapshot_replacing_tombstone v u snap vv c1 = (Inr n, c')"
  shows "tables_ok (tables c')"
  using assms(1) store_replacing_Inr [OF assms(2)] alloc_token_bound [of v "tables c1" n]
  by (auto simp: tables_ok_def sql.wf_put sql.wf_del sql.get_put sql.get_del next_token_spend vault_incarnation_spend)

lemma tables_ok_dispatch:
  assumes "tables_ok (tables c)" and "dispatch L v k m c = (Inr r, c')"
  shows "tables_ok (tables c')"
proof (cases m)
  case (SyncPush u delta p rid)
  from assms(2) [unfolded SyncPush, simplified] refl refl show ?thesis
  proof (cases rule: push_Inr)
    case (stored snap vv n c1 inc)
    show ?thesis
      by (rule tables_ok_store [OF _ stored(6)]) (use stored(1,4) assms(1) in \<open>auto simp: tables_ok_live\<close>)
  qed (use assms(1) in auto)
next
  case (DocCreate u s p replace rid)
  from assms(2) [unfolded DocCreate, simplified] refl refl show ?thesis
  proof (cases rule: create_Inr)
    case (stored snap vv n c1 inc)
    show ?thesis
      by (rule tables_ok_store [OF _ stored(6)]) (use stored(1,4) assms(1) in \<open>auto simp: tables_ok_live\<close>)
  next
    case (replaced snap vv n c1)
    show ?thesis
      by (rule tables_ok_replace [OF _ replaced(7)]) (use replaced(5) assms(1) in simp)
  qed (use assms(1) in auto)
next
  case (DocDelete u p expected intent rid)
  from assms(2) [unfolded DocDelete, simplified] show ?thesis
  proof (cases rule: delete_msg_Inr)
    case (deleted grave)
    then show ?thesis
      using assms(1) by (auto simp: tables_ok_def sql.wf_put sql.wf_del sql.get_put sql.get_del)
  qed (use assms(1) in auto)
qed (use assms dispatch_unchanged [OF assms(2)] in auto)

text \<open>Each step of the server is at most one action on each vault.\<close>

lemma frame_vault_step:
  assumes "process_message L from_slice data v k c = (r, c')"
  shows "some_step (abs_vault w (tables c)) (abs_vault w (tables c'))"
proof (cases "w = v")
  case True
  then show ?thesis using process_refines [OF assms] by blast
next
  case False
  then have "abs_vault w (tables c') = abs_vault w (tables c)"
    using process_other_vault [OF False, of L from_slice data k c] assms by (intro abs_vault_slice) simp
  then show ?thesis by (auto intro: spec_step.skip)
qed

lemma server_vault_step:
  assumes "server_step L from_slice c l c'" and "tables_ok (tables c)"
  shows "some_step (abs_vault w (tables c)) (abs_vault w (tables c'))"
  using assms(1)
proof cases
  case (frame data v k r)
  then show ?thesis by (blast intro: frame_vault_step)
next
  case (retention days r)
  then show ?thesis
    using assms(2) abs_keep [of "tables c" w] by (auto simp: tables_ok_def elim!: expire_run) blast
next
  case elsewhere
  then show ?thesis
    using abs_vault_doc_tables [of "tables c'" "tables c" w] by (auto intro: spec_step.skip)
qed

lemma server_tables_ok:
  assumes "server_step L from_slice c l c'" and "tables_ok (tables c)"
  shows "tables_ok (tables c')"
  using assms(1)
proof cases
  case (frame data v k r)
  from frame(2) show ?thesis
    by (cases rule: process_message_cases) (use assms(2) in \<open>auto dest: tables_ok_dispatch\<close>)
next
  case (retention days r)
  then show ?thesis
    using tables_ok_keep [OF assms(2)] by (auto elim!: expire_run)
next
  case elsewhere
  then show ?thesis
    using assms(2) by (auto simp: tables_ok_def doc_tables_def next_token_def)
qed

lemma server_doc_ok: "server_step L from_slice c l c' \<Longrightarrow> doc_ok (tables c) \<Longrightarrow> doc_ok (tables c')"
  unfolding doc_ok_iff using server_tables_ok server_vault_step spec_step_tokens_below by metis

lemma doc_ok_empty: "doc_ok empty_db"
  by (simp add: doc_ok_def empty_db_def tokens_below_def abs_vault_def next_token_def)

interpretation lane: transition_invariant "\<lambda>c. tables c = empty_db" "any_step L from_slice"
  "\<lambda>c. doc_ok (tables c)" for L :: "'doc libs" and from_slice
  by unfold_locales (auto simp: doc_ok_empty intro: server_doc_ok)

text \<open>Runs of the server are runs of the abstract vault.\<close>

lemma run_vault:
  "(any_step L from_slice)\<^sup>*\<^sup>* c c' \<Longrightarrow> doc_ok (tables c) \<Longrightarrow>
   some_step\<^sup>*\<^sup>* (abs_vault w (tables c)) (abs_vault w (tables c'))"
proof (induction rule: rtranclp_induct)
  case (step c1 c2)
  then have "doc_ok (tables c1)"
    by (blast intro: lane.good_steps)
  then have "some_step (abs_vault w (tables c1)) (abs_vault w (tables c2))"
    using step.hyps(2) by (auto simp: doc_ok_iff intro: server_vault_step)
  with step.IH [OF step.prems] show ?case by (rule rtranclp.rtrancl_into_rtrancl)
qed simp

lemma live_status: "tbl_get (documents d) (v, u) = Some r \<Longrightarrow> status_of (abs_vault v d) u = Live (incarnation r)"
  by (simp add: status_abs)

lemma live_token_status: "live_token d v u = (case status_of (abs_vault v d) u of Live n \<Rightarrow> n | _ \<Rightarrow> 0)"
  by (simp add: live_token_def status_abs split: option.split)

section \<open>Properties\<close>

text \<open>
  C7: starting from an empty database, whatever frames arrive in whatever vaults and however the
  retention job, the clock, storage failures and the rest of the server interleave with them, the
  keys stay unique, no path is ever live and buried at once, and every live row's token is at least 1
  and below the counter of its vault, which never leaves the range of an \<open>i64\<close>.
\<close>

theorem reachable_documents_ok:
  assumes "tables c = empty_db" and "(any_step L from_slice)\<^sup>*\<^sup>* c c'"
  shows "doc_ok (tables c')"
  using assms by (rule lane.good_reachable)

text \<open>
  C1: every frame refines one action of the abstract vault that its message permits: a push creates an
  absent path or edits a live one, a create with \<open>replace\<close> may also revive a dead path under a fresh
  token, a delete buries, and everything else does nothing; no other vault moves.
\<close>

theorem frames_refine_spec:
  "if w = v
   then \<exists>a. (case from_slice data of Inr m \<Rightarrow> permits m a | Inl _ \<Rightarrow> a = Skip) \<and>
     spec_step (abs_vault w (tables c)) a (abs_vault w (tables (snd (process_message L from_slice data v k c))))
   else abs_vault w (tables (snd (process_message L from_slice data v k c))) = abs_vault w (tables c)"
proof (cases "w = v")
  case True
  obtain r c' where run: "process_message L from_slice data v k c = (r, c')"
    by (rule prod.exhaust)
  then show ?thesis using process_refines [OF run] True by simp
next
  case False
  then have "abs_vault w (tables (snd (process_message L from_slice data v k c))) = abs_vault w (tables c)"
    by (intro abs_vault_slice process_other_vault)
  with False show ?thesis by simp
qed

text \<open>
  C2: a delete that names the token of an earlier life of a path can never delete a later one.  If a
  path was live under token \<open>n\<close>, later was not, and any run follows, then a delete expecting \<open>n\<close>
  changes no table and is answered by a rejection or, if the storage failed, by an error.
\<close>

theorem stale_delete_is_harmless:
  assumes "tables c0 = empty_db" and "(any_step L from_slice)\<^sup>*\<^sup>* c0 c1"
    and "tbl_get (documents (tables c1)) (v, u) = Some r"
    and "(any_step L from_slice)\<^sup>*\<^sup>* c1 c2"
    and "live_token (tables c2) v u \<noteq> incarnation r"
    and "(any_step L from_slice)\<^sup>*\<^sup>* c2 c3"
    and "from_slice data = Inr (DocDelete u p (Some (incarnation r)) intent rid)"
    and "process_message L from_slice data v k c3 = (reply, c4)"
  shows "tables c4 = tables c3 \<and> snd reply = None \<and>
    (fst reply = DeleteRejected u intent rid \<or> (\<exists>code msg. fst reply = ErrorMsg code msg rid))"
proof -
  let ?s1 = "abs_vault v (tables c1)" and ?s2 = "abs_vault v (tables c2)" and ?s3 = "abs_vault v (tables c3)"
  have ok: "doc_ok (tables c1)"
    using assms(1,2) by (rule lane.good_reachable)
  then have ok2: "doc_ok (tables c2)"
    using assms(4) by (rule lane.good_steps [rotated])
  have below: "tokens_below ?s1" and live: "status_of ?s1 u = Live (incarnation r)"
    using ok assms(3) by (simp_all add: doc_ok_iff live_status)
  then have pos: "1 \<le> incarnation r"
    unfolding tokens_below_def by blast
  have moved: "status_of ?s2 u \<noteq> Live (incarnation r)"
    using assms(5) by (auto simp: live_token_status)
  have "live_token (tables c3) v u \<noteq> incarnation r"
  proof (cases "status_of ?s3 u")
    case (Live m)
    have "incarnation r < m"
      by (rule token_never_reused [OF below live run_vault [OF assms(4) ok] moved run_vault [OF assms(6) ok2] Live])
    then show ?thesis by (simp add: live_token_status Live)
  qed (use pos in \<open>simp_all add: live_token_status\<close>)
  then have ref: "refused (Some (incarnation r)) (live_token (tables c3) v u)"
    by (auto simp: refused_def)
  from assms(7,8) show ?thesis
  proof (cases rule: process_parsed)
    case failed
    then show ?thesis by auto
  next
    case (answered resp)
    from answered(1) [simplified] show ?thesis
    proof (cases rule: delete_msg_Inr)
      case refused
      then show ?thesis using answered(2) by (simp add: prod_eq_iff)
    next
      case (deleted grave)
      then show ?thesis using ref by blast
    qed
  qed
qed

end
