(* ===== verification/Doc_Properties.thy ===== *)
theory Doc_Properties
  imports Doc_Server
begin

text \<open>
  What a client of the document lane can rely on: a deleted path stays deleted, histories only grow,
  an acknowledged write is what the next sync reads, the guarded delete and its replay, errors that
  leave no trace, and the listing.
\<close>

section \<open>Deleted paths\<close>

text \<open>The labels that may bring a deleted path back: a replacing create of it, and the retention job.\<close>

fun revives :: "string \<Rightarrow> string \<Rightarrow> label \<Rightarrow> bool" where
  "revives v u (Frame w (Inr (DocCreate u' _ _ True _))) \<longleftrightarrow> w = v \<and> u' = u"
| "revives v u Retention \<longleftrightarrow> True"
| "revives v u _ \<longleftrightarrow> False"

text \<open>A grave that remembers what was buried.\<close>

definition buried_as :: "db \<Rightarrow> string \<Rightarrow> string \<Rightarrow> string option \<Rightarrow> int \<Rightarrow> bool" where
  "buried_as d v u hash inc \<longleftrightarrow> tbl_get (documents d) (v, u) = None \<and>
     (case tbl_get (tombstones d) (v, u) of
        None \<Rightarrow> False
      | Some g \<Rightarrow> content_hash g = hash \<and> tombstone_incarnation g = inc)"

lemma buried_asD: "buried_as d v u hash inc \<Longrightarrow> tbl_get (documents d) (v, u) = None \<and>
    (\<exists>g. tbl_get (tombstones d) (v, u) = Some g \<and> content_hash g = hash \<and> tombstone_incarnation g = inc)"
  by (auto simp: buried_as_def split: option.splits)

lemma buried_as_slice: "buried_as d v u hash inc \<Longrightarrow> slice_of v d' = slice_of v d \<Longrightarrow> buried_as d' v u hash inc"
  by (auto simp: buried_as_def dest!: slice_sameD)

lemma spend_slices [simp]:
  "tbl_get (documents (spend w n d)) k = tbl_get (documents d) k"
  "tbl_get (tombstones (spend w n d)) k = tbl_get (tombstones d) k"
  by simp_all

lemma buried_store:
  assumes "buried_as (tables c) v u hash inc" and "store_snapshot_with_vv v u' snap vv c1 = (Inr n, c')"
    and "tables c1 = tables c" and "u' \<noteq> u"
  shows "buried_as (tables c') v u hash inc"
  using assms store_Inr [OF assms(2)]
  by (cases "tbl_get (documents (tables c)) (v, u')") (auto simp: buried_as_def sql.get_put)

lemma buried_replace:
  assumes "buried_as (tables c) v u hash inc"
    and "store_snapshot_replacing_tombstone v u' snap vv c1 = (Inr n, c')"
    and "tables c1 = tables c" and "u' \<noteq> u"
  shows "buried_as (tables c') v u hash inc"
  using assms store_replacing_Inr [OF assms(2)] by (auto simp: buried_as_def sql.get_put sql.get_del)

lemma dispatch_stays_buried:
  assumes b: "buried_as (tables c) v u hash inc" and "dispatch L v k m c = (Inr r, c')"
    and "\<not> revives v u (Frame v (Inr m))"
  shows "buried_as (tables c') v u hash inc"
proof (cases m)
  case (SyncPush u' delta p rid)
  from assms(2) [unfolded SyncPush, simplified] refl refl show ?thesis
  proof (cases rule: push_Inr)
    case (stored snap vv n c1 inc')
    then have "u' \<noteq> u" using buried_asD [OF b] by auto
    then show ?thesis by (rule buried_store [OF b stored(6,4)])
  qed (use b in simp_all)
next
  case (DocCreate u' s p replace rid)
  from assms(2) [unfolded DocCreate, simplified] refl refl show ?thesis
  proof (cases rule: create_Inr)
    case (stored snap vv n c1 inc')
    then have "u' \<noteq> u" using buried_asD [OF b] by auto
    then show ?thesis by (rule buried_store [OF b stored(6,4)])
  next
    case (replaced snap vv n c1)
    then have "u' \<noteq> u" using assms(3) DocCreate by auto
    then show ?thesis by (rule buried_replace [OF b replaced(7,5)])
  qed (use b in simp_all)
next
  case (DocDelete u' p expected intent rid)
  from assms(2) [unfolded DocDelete, simplified] show ?thesis
  proof (cases rule: delete_msg_Inr)
    case (deleted grave)
    then show ?thesis
      using buried_asD [OF b]
      by (auto simp: buried_as_def sql.get_put sql.get_del buried_def coalesce_def)
  qed (use b in simp_all)
qed (use assms dispatch_unchanged [OF assms(2)] in simp_all)

lemma step_stays_buried:
  assumes "server_step L from_slice c l c'" and b: "buried_as (tables c) v u hash inc" and "\<not> revives v u l"
  shows "buried_as (tables c') v u hash inc"
  using assms(1)
proof cases
  case (frame data w k r)
  show ?thesis
  proof (cases "w = v")
    case True
    from frame(2) show ?thesis
    proof (cases rule: process_message_cases)
      case (handled m resp)
      then show ?thesis
        using frame(1) assms(3) dispatch_stays_buried [OF b, of L k m] True by auto
    qed (use b in simp)
  next
    case False
    then show ?thesis
      using buried_as_slice [OF b] process_other_vault [of v w L from_slice data k c] frame(2) by auto
  qed
next
  case elsewhere
  then show ?thesis using b by (simp add: buried_as_def doc_tables_def)
qed (use assms(3) in simp)

text \<open>
  C6: no resurrection.  Once a path is deleted it stays deleted, with the content hash and the token
  captured at its deletion, through any run of frames from any devices in any vaults (pushes of old
  deltas and replays of the delete included), as long as nobody explicitly re-creates that path with
  \<open>replace_tombstone\<close> and the retention job does not run.
\<close>

theorem deleted_stays_deleted:
  assumes "(\<lambda>c c'. \<exists>l. server_step L from_slice c l c' \<and> \<not> revives v u l)\<^sup>*\<^sup>* c c'"
    and "buried_as (tables c) v u hash inc"
  shows "buried_as (tables c') v u hash inc"
  using assms by (induction rule: rtranclp_induct) (auto intro: step_stays_buried)

section \<open>The guarded delete\<close>

text \<open>
  C31: a delete that succeeds is exactly the guarded delete: it is refused, without a change, when it
  expects a token other than the live one (0 when nothing is live); otherwise the row is gone, the
  tombstone records the hash of the content deleted (or, when nothing was live, the hash and token an
  earlier delete captured), and the delete is announced with that hash to the vault.
\<close>

theorem delete_semantics:
  assumes "handle_doc_delete L v k u p expected intent rid c = (Inr r, c')"
    and "live = tbl_get (documents (tables c)) (v, u)" and "old = tbl_get (tombstones (tables c)) (v, u)"
    and "token = (case live of None \<Rightarrow> 0 | Some x \<Rightarrow> incarnation x)"
    and "hash = (case Option.bind live (\<lambda>x. content_hash_from_snapshot_blob L (snapshot_blob x)) of
        Some h \<Rightarrow> Some h | None \<Rightarrow> Option.bind old content_hash)"
  shows "if expected \<noteq> None \<and> expected \<noteq> Some token
    then r = (DeleteRejected u intent rid, None) \<and> tables c' = tables c
    else r = (Ack None rid, Some (DeleteEvent v u k hash)) \<and>
      tbl_get (documents (tables c')) = (tbl_get (documents (tables c)))((v, u) := None) \<and>
      tbl_get (tombstones (tables c')) = (tbl_get (tombstones (tables c)))((v, u) \<mapsto>
        \<lparr>deleted_by = p, deleted_at = now c, content_hash = hash,
         tombstone_incarnation = (case live of Some x \<Rightarrow> incarnation x
           | None \<Rightarrow> (case old of None \<Rightarrow> 1 | Some g \<Rightarrow> tombstone_incarnation g))\<rparr>)"
  using assms(1)
proof (cases rule: delete_msg_Inr)
  case refused
  then show ?thesis
    using assms(2,4) by (cases expected) (auto simp: refused_def live_token_def)
next
  case (deleted grave)
  then have "\<not> (expected \<noteq> None \<and> expected \<noteq> Some token)"
    using assms(2,4) by (cases expected) (auto simp: refused_def live_token_def)
  moreover have "content_hash grave = hash"
    using deleted(2) assms(2,3,5)
    by (simp add: buried_def Let_def coalesce_def split: option.splits)
  moreover have "grave = \<lparr>deleted_by = p, deleted_at = now c, content_hash = content_hash grave,
      tombstone_incarnation = (case live of Some x \<Rightarrow> incarnation x
           | None \<Rightarrow> (case old of None \<Rightarrow> 1 | Some g \<Rightarrow> tombstone_incarnation g))\<rparr>"
    using deleted(2) unfolding assms(2,3) buried_def Let_def by simp
  ultimately show ?thesis
    using deleted(3,4) by (auto simp: sql.get_put sql.get_del)
qed

section \<open>Histories\<close>

text \<open>The history a row holds: that of the document its snapshot opens to.\<close>

definition history :: "'doc libs \<Rightarrow> doc_row \<Rightarrow> version_vector" where
  "history L r = (case import_doc L (new_doc L) (snapshot_blob r) of Inr doc \<Rightarrow> oplog_vv L doc | Inl _ \<Rightarrow> [])"

text \<open>Every snapshot opens, and the version vector stored beside it is that of its document.\<close>

definition row_faithful :: "'doc libs \<Rightarrow> doc_row \<Rightarrow> bool" where
  "row_faithful L r \<longleftrightarrow>
     (case (import_doc L (new_doc L) (snapshot_blob r), vv_from_db_bytes L (vv_blob r)) of
        (Inr doc, Inr vv) \<Rightarrow> tbl_get vv = tbl_get (oplog_vv L doc)
      | _ \<Rightarrow> False)"

definition rows_faithful :: "'doc libs \<Rightarrow> db \<Rightarrow> bool" where
  "rows_faithful L d \<longleftrightarrow> (\<forall>k r. tbl_get (documents d) k = Some r \<longrightarrow> row_faithful L r)"

definition loro_laws :: "'doc libs \<Rightarrow> bool" where
  "loro_laws L \<longleftrightarrow> import_monotone L \<and> snapshot_faithful L \<and> vv_codec_faithful L"

lemma toy_laws: "loro_laws toy_libs"
  by (simp add: loro_laws_def toy_faithful)

lemma merge_docs_Inr: "merge_docs L what existing incoming = Inr (snap, vv) \<Longrightarrow>
    \<exists>d0 d1. (case existing of Some s \<Rightarrow> import_doc L (new_doc L) s = Inr d0 | None \<Rightarrow> d0 = new_doc L) \<and>
      import_doc L d0 incoming = Inr d1 \<and> export_snapshot L d1 = Inr snap \<and> vv = oplog_vv L d1"
  by (cases existing) (auto simp: merge_docs_def bind_result_Inr)

lemma merged_row:
  assumes "loro_laws L" and "merge_docs L what existing incoming = Inr (snap, vv)"
    and "snapshot_blob r = snap" and "vv_blob r = vv_to_db_bytes L vv"
  shows "row_faithful L r" and "tbl_get (history L r) = tbl_get vv"
proof -
  obtain d1 where d1: "export_snapshot L d1 = Inr snap" "vv = oplog_vv L d1"
    using merge_docs_Inr [OF assms(2)] by auto
  obtain d' where d': "import_doc L (new_doc L) snap = Inr d'" "tbl_get (oplog_vv L d') = tbl_get vv"
    using assms(1) d1 by (auto simp: loro_laws_def snapshot_faithful_def)
  obtain vv' where "vv_decode L (vv_encode L vv) = Inr vv'" "tbl_get vv' = tbl_get vv"
    using assms(1) by (auto simp: loro_laws_def vv_codec_faithful_def)
  then show "row_faithful L r" and "tbl_get (history L r) = tbl_get vv"
    using d' assms(3,4) by (simp_all add: row_faithful_def history_def vv_from_db_bytes_def vv_to_db_bytes_def)
qed

lemma merge_grows:
  assumes "loro_laws L" and "merge_docs L what (Some (snapshot_blob r)) incoming = Inr (snap, vv)"
  shows "vv_le (history L r) vv"
  using merge_docs_Inr [OF assms(2)] assms(1)
  by (auto simp: history_def loro_laws_def import_monotone_def)

text \<open>Every live row after a frame was there, or is a merge of what was there with the frame's bytes.\<close>

definition grown :: "'doc libs \<Rightarrow> db \<Rightarrow> db \<Rightarrow> bool" where
  "grown L d d' \<longleftrightarrow> (\<forall>k r'. tbl_get (documents d') k = Some r' \<longrightarrow>
     (tbl_get (documents d) k = Some r' \<or> row_faithful L r') \<and>
     (\<forall>r. tbl_get (documents d) k = Some r \<longrightarrow> vv_le (history L r) (history L r')))"

lemma grown_same: "documents d' = documents d \<Longrightarrow> grown L d d'"
  by (auto simp: grown_def)

lemma grown_del: "documents d' = tbl_del k (documents d) \<Longrightarrow> grown L d d'"
  by (auto simp: grown_def sql.get_del split: if_splits)

lemma grown_put:
  assumes "documents d' = tbl_put k r (documents d)" and "loro_laws L"
    and "merge_docs L what (map_option snapshot_blob (tbl_get (documents d) k)) incoming = Inr (snap, vv)"
    and "snapshot_blob r = snap" and "vv_blob r = vv_to_db_bytes L vv"
  shows "grown L d d'"
proof -
  have "vv_le (history L r0) (history L r)" if "tbl_get (documents d) k = Some r0" for r0
    using merge_grows [OF assms(2)] assms(3) that merged_row(2) [OF assms(2-5)]
    by (metis option.simps(9) vv_le_get)
  then show ?thesis
    using assms(1) merged_row(1) [OF assms(2-5)] by (auto simp: grown_def sql.get_put)
qed

lemma grown_store:
  assumes "store_snapshot_with_vv v u snap (vv_to_db_bytes L vv) c1 = (Inr n, c')" and "tables c1 = tables c"
    and "merge_docs L what (map_option snapshot_blob (tbl_get (documents (tables c)) (v, u))) incoming = Inr (snap, vv)"
    and "loro_laws L"
  shows "grown L (tables c) (tables c')"
proof (cases "tbl_get (documents (tables c)) (v, u)")
  case None
  then show ?thesis
    using store_Inr [OF assms(1)] assms(2) by (intro grown_put [OF _ assms(4,3)]) auto
next
  case (Some r)
  then show ?thesis
    using store_Inr [OF assms(1)] assms(2) by (intro grown_put [OF _ assms(4,3)]) auto
qed

lemma grown_dispatch:
  assumes "loro_laws L" and "dispatch L v k m c = (Inr r, c')"
  shows "grown L (tables c) (tables c')"
proof (cases m)
  case (SyncPush u delta p rid)
  from assms(2) [unfolded SyncPush, simplified] refl refl show ?thesis
  proof (cases rule: push_Inr)
    case (stored snap vv n c1 inc)
    from stored(6,4,3) assms(1) show ?thesis by (rule grown_store)
  qed (simp_all add: grown_same)
next
  case (DocCreate u s p replace rid)
  from assms(2) [unfolded DocCreate, simplified] refl refl show ?thesis
  proof (cases rule: create_Inr)
    case (stored snap vv n c1 inc)
    from stored(6,4,3) assms(1) show ?thesis by (rule grown_store)
  next
    case (replaced snap vv n c1)
    then show ?thesis
      using store_replacing_Inr [OF replaced(7)] by (intro grown_put [OF _ assms(1) replaced(4)]) auto
  qed (simp_all add: grown_same)
next
  case (DocDelete u p expected intent rid)
  from assms(2) [unfolded DocDelete, simplified] show ?thesis
    by (cases rule: delete_msg_Inr) (auto simp: grown_same intro: grown_del)
qed (use dispatch_unchanged [OF assms(2)] in \<open>simp_all add: grown_same\<close>)

text \<open>
  C13: no frame loses history.  Assuming of Loro that importing never forgets, that a snapshot opens to
  the history it was exported with and that the binary version vector decodes, every frame keeps all
  rows consistent (the snapshot opens and the stored version vector is its document's), and a path
  that is live before and after the frame has afterwards at least the history it had before.
\<close>

theorem frames_keep_history:
  assumes "loro_laws L" and "rows_faithful L (tables c)"
    and "process_message L from_slice data w k c = (reply, c')"
  shows "rows_faithful L (tables c') \<and>
    (\<forall>v u r r'. tbl_get (documents (tables c)) (v, u) = Some r \<longrightarrow>
       tbl_get (documents (tables c')) (v, u) = Some r' \<longrightarrow> vv_le (history L r) (history L r'))"
proof -
  from assms(3) have "grown L (tables c) (tables c')"
    by (cases rule: process_message_cases) (auto simp: grown_same intro: grown_dispatch [OF assms(1)])
  then show ?thesis
    using assms(2) unfolding grown_def rows_faithful_def by blast
qed

end
