(* ===== verification/Doc_Replies.thy ===== *)
theory Doc_Replies
  imports Doc_Properties
begin

text \<open>
  The replies of the document lane: what an acknowledgement means, what an error means, when the other
  devices hear of a change, which identifiers are refused, what the listing contains and which
  tombstones the retention job removes.
\<close>

section \<open>Acknowledged writes\<close>

fun written :: "client_msg \<Rightarrow> (string \<times> bytes) option" where
  "written (SyncPush u delta _ _) = Some (u, delta)"
| "written (DocCreate u snapshot _ _ _) = Some (u, snapshot)"
| "written _ = None"

lemma sync_start_snapshot:
  assumes "faults c = []" and "tbl_get (documents (tables c)) (v, u) = Some r"
    and "import_doc L (new_doc L) (snapshot_blob r) = Inr doc"
  shows "handle_sync_start L v u None c =
    (Inr (SyncDelta u (snapshot_blob r) (vv_to_json_bytes L (oplog_vv L doc)) (Some (incarnation r)), None), c)"
  using assms
  by (simp add: handle_sync_start_def get_snapshot_with_incarnation_def and_then_def query_no_fault)

text \<open>The row an acknowledged write leaves.\<close>

lemma written_row:
  assumes "dispatch L v k m c = (Inr (Ack inc q, b), c')" and "written m = Some (u, payload)"
  shows "\<exists>what snap vv r.
    merge_docs L what (map_option snapshot_blob (tbl_get (documents (tables c)) (v, u))) payload = Inr (snap, vv) \<and>
    tbl_get (documents (tables c')) (v, u) = Some r \<and> snapshot_blob r = snap \<and>
    incarnation r = (case inc of Some n \<Rightarrow> n | None \<Rightarrow> live_token (tables c) v u)"
proof (cases m)
  case (SyncPush u' delta p rid)
  with assms(2) have u: "u' = u" "delta = payload" by simp_all
  from assms(1) [unfolded SyncPush u, simplified] refl refl show ?thesis
  proof (cases rule: push_Inr)
    case (stored snap vv n c1 inc)
    from stored(3) show ?thesis
      using store_Inr [OF stored(6)] stored
      by (cases "tbl_get (documents (tables c)) (v, u)") (fastforce simp: sql.get_put live_token_def)+
  qed simp_all
next
  case (DocCreate u' s p replace rid)
  with assms(2) have u: "u' = u" "s = payload" by simp_all
  from assms(1) [unfolded DocCreate u, simplified] refl refl show ?thesis
  proof (cases rule: create_Inr)
    case (stored snap vv n c1 inc)
    from stored(3) show ?thesis
      using store_Inr [OF stored(6)] stored
      by (cases "tbl_get (documents (tables c)) (v, u)") (fastforce simp: sql.get_put live_token_def)+
  next
    case (replaced snap vv n c1)
    from replaced(4) show ?thesis
      using store_replacing_Inr [OF replaced(7)] replaced by (fastforce simp: sql.get_put)
  qed simp_all
qed (use assms(2) in simp_all)

text \<open>
  C30: an acknowledged write is durable and visible.  After the acknowledgement of a push or create the
  next full sync of the path returns the merge of the stored snapshot with the bytes written, the
  version vector of that merge, and the token the acknowledgement carried (or, when it carried none,
  the token the path already had).
\<close>

theorem acknowledged_write_is_read:
  assumes "snapshot_faithful L" and "from_slice data = Inr m" and "written m = Some (u, payload)"
    and "process_message L from_slice data v k c = ((Ack inc rid, b), c')" and "faults c' = []"
  shows "\<exists>what snap vv doc.
    merge_docs L what (map_option snapshot_blob (tbl_get (documents (tables c)) (v, u))) payload = Inr (snap, vv) \<and>
    tbl_get (oplog_vv L doc) = tbl_get vv \<and>
    handle_sync_start L v u None c' = (Inr (SyncDelta u snap (vv_to_json_bytes L (oplog_vv L doc))
      (Some (case inc of Some n \<Rightarrow> n | None \<Rightarrow> live_token (tables c) v u)), None), c')"
  using assms(2,4)
proof (cases rule: process_parsed)
  case (answered resp)
  then obtain q where "resp = Ack inc q"
    by (cases resp) simp_all
  then obtain what snap vv r where
    merge: "merge_docs L what (map_option snapshot_blob (tbl_get (documents (tables c)) (v, u))) payload = Inr (snap, vv)"
    and row: "tbl_get (documents (tables c')) (v, u) = Some r" "snapshot_blob r = snap"
      "incarnation r = (case inc of Some n \<Rightarrow> n | None \<Rightarrow> live_token (tables c) v u)"
    using written_row [OF _ assms(3), of L v k c inc q _ c'] answered(1) by auto
  obtain doc where doc: "import_doc L (new_doc L) snap = Inr doc" "tbl_get (oplog_vv L doc) = tbl_get vv"
    using merge_docs_Inr [OF merge] assms(1) by (auto simp: snapshot_faithful_def)
  show ?thesis
    using merge doc(2) sync_start_snapshot [OF assms(5) row(1), of L doc] doc(1) row(2,3) by auto
qed simp

section \<open>Errors and announcements\<close>

lemma dispatch_no_error: "dispatch L v k m c = (Inr (ErrorMsg err_code msg rid, b), c') \<Longrightarrow> False"
proof (cases m)
  case (SyncStart u cvv)
  moreover assume "dispatch L v k m c = (Inr (ErrorMsg err_code msg rid, b), c')"
  ultimately show False
    by (auto simp: handle_sync_start_def and_then_Inr Let_def split: option.splits)
next
  case (SyncPush u delta p rid')
  moreover assume "dispatch L v k m c = (Inr (ErrorMsg err_code msg rid, b), c')"
  ultimately have "handle_sync_push L v u delta p k c = (Inr (ErrorMsg err_code msg rid, b), c')" by simp
  from this refl refl show False by (cases rule: push_Inr) simp_all
next
  case (DocCreate u s p replace rid')
  moreover assume "dispatch L v k m c = (Inr (ErrorMsg err_code msg rid, b), c')"
  ultimately have "handle_doc_create L v u s p k replace c = (Inr (ErrorMsg err_code msg rid, b), c')" by simp
  from this refl refl show False by (cases rule: create_Inr) simp_all
next
  case (DocDelete u p expected intent rid')
  moreover assume "dispatch L v k m c = (Inr (ErrorMsg err_code msg rid, b), c')"
  ultimately have "handle_doc_delete L v k u p expected intent rid' c = (Inr (ErrorMsg err_code msg rid, b), c')" by simp
  then show False by (cases rule: delete_msg_Inr) simp_all
qed (auto simp: handle_doc_list_def and_then_Inr)

text \<open>
  C14: an error leaves no trace.  Whenever a frame is answered by an error, for whatever reason (an
  undecodable frame, an identifier over its cap, bytes Loro refuses, a storage failure at any statement
  of any transaction), the tables are as they were, nothing is broadcast, the code is one of the four
  published ones, and the error carries the request id of the frame.
\<close>

theorem errors_leave_no_trace:
  "case process_message L from_slice data v k c of
     ((ErrorMsg err_code msg rid, b), c') \<Rightarrow>
        tables c' = tables c \<and> b = None \<and>
        err_code \<in> {''bad_frame'', ''sync_failed'', ''storage_error'', ''internal''} \<and>
        rid = (case from_slice data of Inr m \<Rightarrow> request_id_of m | Inl _ \<Rightarrow> None)
   | _ \<Rightarrow> True"
proof -
  obtain msg b c' where run: "process_message L from_slice data v k c = ((msg, b), c')"
    by (metis prod.exhaust)
  show ?thesis
  proof (cases "from_slice data")
    case (Inl e)
    then have "process_message L from_slice data v k c =
        ((ErrorMsg ''bad_frame'' ''message could not be decoded'' None, None), c)"
      by (simp add: process_message_run)
    then show ?thesis using Inl by simp
  next
    case (Inr m)
    show ?thesis
    proof (cases "fst (process_inner L v k m c)")
      case (Inl e)
      then have "tables (snd (process_inner L v k m c)) = tables c"
        by (intro process_inner_Inl [of L v k m c e]) (simp add: prod_eq_iff)
      then show ?thesis
        using Inl Inr client_facing_codes [of e] by (simp add: process_message_run)
    next
      case inr: (Inr rep)
      then have "process_inner L v k m c = (Inr (fst rep, snd rep), snd (process_inner L v k m c))"
        by (simp add: prod_eq_iff)
      then have "fst rep \<noteq> ErrorMsg err_code msg rid" for err_code msg rid
        using dispatch_no_error [of L v k m c err_code msg rid] by (cases rep) (auto dest!: process_inner_Inr)
      then have "echo_request q (fst rep) \<noteq> ErrorMsg err_code msg rid" for q err_code msg rid
        by (cases "fst rep") auto
      then show ?thesis
        using inr Inr by (cases rep) (simp add: process_message_run split: server_msg.split)
    qed
  qed
qed

lemma announcement:
  "let ((reply, b), c') = process_message L from_slice data v k c
   in tables c' = tables c \<and> b = None \<or>
      (\<exists>inc rid e. reply = Ack inc rid \<and> b = Some e \<and> event_vault e = v \<and> event_sender e = Some k \<and>
         (case from_slice data of
            Inl _ \<Rightarrow> False
          | Inr m \<Rightarrow> rid = request_id_of m \<and> (case (m, e) of
                (SyncPush u delta p _, DeltaEvent _ u' delta' p' _ _ inc') \<Rightarrow>
                  u' = u \<and> delta' = delta \<and> p' = p \<and> inc' = inc
              | (DocCreate u snapshot p _ _, DeltaEvent _ u' delta' p' _ _ inc') \<Rightarrow>
                  u' = u \<and> delta' = snapshot \<and> p' = p \<and> inc' = inc
              | (DocDelete u _ _ _ _, DeleteEvent _ u' _ _) \<Rightarrow> u' = u \<and> inc = None
              | _ \<Rightarrow> False)))"
proof (cases "from_slice data")
  case (Inl e)
  then show ?thesis by (simp add: process_message_run)
next
  case (Inr m)
  obtain reply b c' where run: "process_message L from_slice data v k c = ((reply, b), c')"
    by (metis prod.exhaust)
  from Inr run show ?thesis
  proof (cases rule: process_parsed)
    case failed
    then show ?thesis using run by simp
  next
    case (answered resp)
    show ?thesis
    proof (cases m)
      case (SyncPush u delta p rid)
      from answered(1) [unfolded SyncPush, simplified] refl refl show ?thesis
        by (cases rule: push_Inr) (use answered(2) in \<open>simp_all add: run Inr SyncPush\<close>)
    next
      case (DocCreate u s p replace rid)
      from answered(1) [unfolded DocCreate, simplified] refl refl show ?thesis
        by (cases rule: create_Inr) (use answered(2) in \<open>simp_all add: run Inr DocCreate\<close>)
    next
      case (DocDelete u p expected intent rid)
      from answered(1) [unfolded DocDelete, simplified] show ?thesis
        by (cases rule: delete_msg_Inr) (use answered(2) in \<open>simp_all add: run Inr DocDelete\<close>)
    qed (use answered(1) run Inr dispatch_unchanged [OF answered(1)] in
        \<open>auto simp: handle_doc_list_def handle_sync_start_def and_then_Inr Let_def split: option.splits\<close>)
  qed
qed


section \<open>Identifier caps\<close>

text \<open>The identifiers of a message with the number of bytes each may have.\<close>

fun capped_ids :: "client_msg \<Rightarrow> (string \<times> nat) list" where
  "capped_ids (SyncStart u _) = [(u, 1024)]"
| "capped_ids (SyncPush u _ p rid) = [(u, 1024), (p, 128)] @ map (\<lambda>x. (x, 128)) (case_option [] (\<lambda>x. [x]) rid)"
| "capped_ids (DocCreate u _ p _ rid) = [(u, 1024), (p, 128)] @ map (\<lambda>x. (x, 128)) (case_option [] (\<lambda>x. [x]) rid)"
| "capped_ids (DocDelete u p _ intent rid) = [(u, 1024), (p, 128)] @
     map (\<lambda>x. (x, 128)) (case_option [] (\<lambda>x. [x]) rid @ case_option [] (\<lambda>x. [x]) intent)"
| "capped_ids _ = []"

lemma check_caps_ok: "check_caps m = (if list_all (\<lambda>(s, n). length s \<le> n) (capped_ids m) then Inr () else check_caps m)"
  by (cases m) (auto simp: check_ids_def check_len_def id_caps split: option.splits)

lemma check_caps_bad: "\<not> list_all (\<lambda>(s, n). length s \<le> n) (capped_ids m) \<Longrightarrow> \<exists>f. check_caps m = Inl (BadFrame f)"
  by (cases m) (auto simp: check_ids_def check_len_def id_caps split: option.splits)

text \<open>
  A frame whose path is over 1024 bytes, or whose peer, request or intent id is over 128 bytes, is
  refused as a bad frame before any database statement runs; with all identifiers within their caps
  the checks let it through to its handler.
\<close>

theorem oversized_ids_are_refused:
  assumes "from_slice data = Inr m"
  shows "if list_all (\<lambda>(s, n). length s \<le> n) (capped_ids m)
    then process_inner L v k m c = dispatch L v k m c
    else process_message L from_slice data v k c =
      ((ErrorMsg ''bad_frame'' ''message could not be decoded'' (request_id_of m), None), c)"
proof (cases "list_all (\<lambda>(s, n). length s \<le> n) (capped_ids m)")
  case True
  then have "check_caps m = Inr ()" by (subst check_caps_ok) simp
  with True show ?thesis by (simp add: process_inner_def and_then_def)
next
  case False
  then obtain f where "check_caps m = Inl (BadFrame f)" using check_caps_bad by blast
  with False assms show ?thesis
    by (simp add: process_message_run process_inner_def and_then_def)
qed

section \<open>Listing and retention\<close>

lemma vault_rows_set: "tbl_wf t \<Longrightarrow> (u, r) \<in> set (vault_rows v t) \<longleftrightarrow> tbl_get t (v, u) = Some r"
  by (force simp: vault_rows_def tbl_get_mem)

lemma vault_rows_keys:
  assumes "tbl_wf t"
  shows "sorted (map fst (vault_rows v t))" and "distinct (map fst (vault_rows v t))"
proof -
  show "sorted (map fst (vault_rows v t))"
    by (simp add: vault_rows_def)
  have "distinct (map fst (filter (\<lambda>((w, _), _). w = v) t))"
    using assms unfolding tbl_wf_def by (induction t) auto
  then have "distinct (map fst (map (\<lambda>((_, k), r). (k, r)) (filter (\<lambda>((w, _), _). w = v) t)))"
    by (auto simp: distinct_map inj_on_def split_beta)
  then have "distinct (map fst (sort_key fst (map (\<lambda>((_, k), r). (k, r)) (filter (\<lambda>((w, _), _). w = v) t))))"
    by (simp only: distinct_map distinct_sort set_sort)
  then show "distinct (map fst (vault_rows v t))"
    by (simp add: vault_rows_def)
qed

text \<open>
  The listing is complete and exact: it names, in order and without repetition, every live path of
  the vault with its token and its time, and every tombstone with the hash it captured, and nothing of
  any other vault.
\<close>

theorem doc_list_is_exact:
  assumes "tbl_wf (documents (tables c))" and "tbl_wf (tombstones (tables c))" and "faults c = []"
  shows "\<exists>docs tombs hashes.
    handle_doc_list L v c = (Inr (DocList docs tombs hashes, None), c) \<and>
    sorted (map entry_doc_uuid docs) \<and> distinct (map entry_doc_uuid docs) \<and>
    (\<forall>u t n. (\<exists>e \<in> set docs. entry_doc_uuid e = u \<and> entry_updated_at e = t \<and> entry_incarnation e = Some n) \<longleftrightarrow>
       (\<exists>r. tbl_get (documents (tables c)) (v, u) = Some r \<and> updated_at r = t \<and> incarnation r = n)) \<and>
    sorted tombs \<and> distinct tombs \<and> tombs = map tomb_doc_uuid hashes \<and>
    (\<forall>u h. \<lparr>tomb_doc_uuid = u, tomb_content_hash = h\<rparr> \<in> set hashes \<longleftrightarrow>
       (\<exists>g. tbl_get (tombstones (tables c)) (v, u) = Some g \<and> content_hash g = h))"
proof -
  let ?D = "vault_rows v (documents (tables c))" and ?T = "vault_rows v (tombstones (tables c))"
  define docs where "docs = map (\<lambda>(doc_uuid, r).
       \<lparr>entry_doc_uuid = doc_uuid, entry_updated_at = updated_at r,
        entry_server_vv = (case vv_from_db_bytes L (vv_blob r) of
            Inr vv \<Rightarrow> vv_to_json_bytes L vv | Inl _ \<Rightarrow> INVALID_VV_SENTINEL_JSON),
        entry_incarnation = Some (incarnation r)\<rparr>) ?D"
  define hashes where "hashes = map (\<lambda>(u, r). \<lparr>tomb_doc_uuid = u, tomb_content_hash = content_hash r\<rparr>) ?T"
  have run: "handle_doc_list L v c = (Inr (DocList docs (map fst ?T) hashes, None), c)"
    using assms(3) by (simp add: handle_doc_list_def list_docs_with_vv_def list_tombstones_def
        list_tombstones_with_hash_def and_then_def query_no_fault docs_def hashes_def)
  have uuids: "map entry_doc_uuid docs = map fst ?D"
    by (simp add: docs_def split_beta)
  have listed: "(\<exists>e \<in> set docs. entry_doc_uuid e = u \<and> entry_updated_at e = t \<and> entry_incarnation e = Some n) \<longleftrightarrow>
       (\<exists>r. tbl_get (documents (tables c)) (v, u) = Some r \<and> updated_at r = t \<and> incarnation r = n)" for u t n
    unfolding vault_rows_set [OF assms(1), symmetric] by (force simp: docs_def)
  have graves: "\<lparr>tomb_doc_uuid = u, tomb_content_hash = h\<rparr> \<in> set hashes \<longleftrightarrow>
       (\<exists>g. tbl_get (tombstones (tables c)) (v, u) = Some g \<and> content_hash g = h)" for u h
    unfolding vault_rows_set [OF assms(2), symmetric] by (force simp: hashes_def)
  have "map fst ?T = map tomb_doc_uuid hashes"
    by (simp add: hashes_def split_beta)
  then show ?thesis
    using run uuids listed graves vault_rows_keys [OF assms(1), of v] vault_rows_keys [OF assms(2), of v]
    by (intro exI [of _ docs] exI [of _ "map fst ?T"] exI [of _ hashes]) (intro conjI; simp)
qed

text \<open>
  C36: the retention job forgets a tombstone exactly when it is older than the limit and every
  registered device of its vault has been seen after the deletion; a device that has not connected
  since still finds it.  It never touches a document, and reports the number of tombstones it removed.
\<close>

theorem retention_waits_for_every_device:
  assumes "tbl_wf (tombstones (tables c))" and "tbl_wf (peers (tables c))"
    and "expire_tombstones days c = (Inr n, c')"
  shows "(\<forall>v u. tbl_get (tombstones (tables c')) (v, u) =
      (case tbl_get (tombstones (tables c)) (v, u) of
         None \<Rightarrow> None
       | Some g \<Rightarrow>
           if 0 \<le> days \<and> deleted_at g < now c - days * 86400 \<and>
              (\<forall>p r. tbl_get (peers (tables c)) (v, p) = Some r \<longrightarrow> deleted_at g < last_seen_at r)
           then None else Some g)) \<and>
    documents (tables c') = documents (tables c) \<and>
    n = length (tombstones (tables c)) - length (tombstones (tables c'))"
proof -
  have unseen: "list_ex (\<lambda>((v', _), p). v' = v \<and> last_seen_at p \<le> t) (peers (tables c)) \<longleftrightarrow>
      (\<exists>p r. tbl_get (peers (tables c)) (v, p) = Some r \<and> last_seen_at r \<le> t)" for v t
    using assms(2) by (force simp: list_ex_iff tbl_get_mem)
  have run: "tables c' = (tables c)\<lparr>tombstones := tbl_keep (\<lambda>(v, _) r. \<not> (older_than (now c) days (deleted_at r) \<and>
     \<not> list_ex (\<lambda>((v', _), p). v' = v \<and> last_seen_at p \<le> deleted_at r) (peers (tables c))))
     (tombstones (tables c))\<rparr>"
    using assms(3) by (rule expire_Inr)
  have "n = length (tombstones (tables c)) - length (tombstones (tables c'))"
    using assms(3) run by (auto simp: expire_tombstones_def stmt_Inr Let_def)
  moreover have "tbl_get (tombstones (tables c')) (v, u) = (case tbl_get (tombstones (tables c)) (v, u) of
      None \<Rightarrow> None | Some g \<Rightarrow>
           if 0 \<le> days \<and> deleted_at g < now c - days * 86400 \<and>
              (\<forall>p r. tbl_get (peers (tables c)) (v, p) = Some r \<longrightarrow> deleted_at g < last_seen_at r)
           then None else Some g)" for v u
    unfolding run using assms(1)
    by (auto simp: tbl_get_keep unseen older_than_def not_le split: option.splits)
  ultimately show ?thesis using run by simp
qed

end
