(* ===== verification/Ws.thy ===== *)
theory Ws
  imports Auth_Core Doc_Replies
begin

text \<open>
  \<open>src/ws.rs\<close>: the upgrade, the handshake on the first frame, the registry of connections, the loop
  that reads the client's frames and the loop that forwards broadcasts.  \<open>to_vec_named\<close> (which may
  fail) and \<open>from_slice\<close> are the two directions of \<open>rmp_serde\<close>.  What arrives on the socket and on
  the broadcast channel, and which sends succeed, are input sequences.
\<close>

section \<open>Upgrade and handshake\<close>

datatype upgrade =
    UpgradeRejected response
  | Upgraded (up_device: string) (up_peer: string)

definition ws_handler :: "(string \<Rightarrow> string option) \<Rightarrow> upgrade" where
  "ws_handler params =
     (let device = (case params ''device'' of None \<Rightarrow> [] | Some d \<Rightarrow> d);
          peer = (case params ''peer_id'' of None \<Rightarrow> [] | Some p \<Rightarrow> p)
      in if length peer > MAX_PEER_ID_BYTES \<or> length device > MAX_PEER_ID_BYTES
         then UpgradeRejected (json_response 400 (JStr ''identifier too long''))
         else Upgraded device peer)"

text \<open>What the first receive returns: nothing in time (or a closed stream), a binary frame, anything else.\<close>

datatype first_frame =
    NoFrame
  | BinaryFrame bytes
  | OtherFrame

datatype handshake =
    Closed (close_reason: string) (sent_before_close: "server_msg option")
  | Dropped
  | Accepted (accepted_vault: string) (accepted_features: "string list") (greeting: bytes)

text \<open>\<open>sent\<close> tells whether the greeting could be written to the socket.\<close>

definition handshake :: "jwt_lib \<Rightarrow> nat \<Rightarrow> string \<Rightarrow> (bytes \<Rightarrow> string + client_msg) \<Rightarrow>
    (server_msg \<Rightarrow> bytes option) \<Rightarrow> bool \<Rightarrow> first_frame \<Rightarrow> handshake" where
  "handshake J t secret from_slice to_vec_named sent first =
     (case first of
        NoFrame \<Rightarrow> Closed ''auth_timeout'' None
      | OtherFrame \<Rightarrow> Closed ''auth_required'' None
      | BinaryFrame data \<Rightarrow>
          (case from_slice data of
             Inr (AuthMsg token protocol_version features) \<Rightarrow>
               (case jwt_verify J t token secret of
                  Inl _ \<Rightarrow> Closed ''auth_invalid'' None
                | Inr vault_id \<Rightarrow>
                    if protocol_version \<noteq> PROTOCOL_VERSION
                    then Closed ''protocol_version_mismatch''
                      (Some (ErrorMsg ''protocol_version_mismatch''
                        (''server='' @ show_nat PROTOCOL_VERSION @ '' client='' @ show_nat protocol_version) None))
                    else (case to_vec_named (AuthOk PROTOCOL_VERSION (Some [''delete_incarnation''])) of
                        None \<Rightarrow> Dropped
                      | Some bytes \<Rightarrow> if sent then Accepted vault_id features bytes else Dropped))
           | _ \<Rightarrow> Closed ''auth_required'' None))"

section \<open>Connections\<close>

record connection_info =
  info_conn_id :: nat
  info_vault_id :: string
  conn_device_name :: string
  connected_at :: nat

text \<open>The process-wide counter (an \<open>AtomicU64\<close> that wraps) and the registry of live connections.\<close>

record registry =
  conn_counter :: nat
  connections :: "(nat, connection_info) table"

definition next_conn_id :: "registry \<Rightarrow> nat \<times> registry" where
  "next_conn_id g = (conn_counter g, g\<lparr>conn_counter := (conn_counter g + 1) mod 2 ^ 64\<rparr>)"

definition register :: "nat \<Rightarrow> string \<Rightarrow> string \<Rightarrow> nat \<Rightarrow> registry \<Rightarrow> registry" where
  "register conn_id vault_id device secs g =
     g\<lparr>connections := tbl_put conn_id \<lparr>info_conn_id = conn_id, info_vault_id = vault_id,
        conn_device_name = device, connected_at = secs\<rparr> (connections g)\<rparr>"

definition unregister :: "nat \<Rightarrow> registry \<Rightarrow> registry" where
  "unregister conn_id g = g\<lparr>connections := tbl_del conn_id (connections g)\<rparr>"

text \<open>The peer is remembered unless its id is empty; a storage failure here is only logged.\<close>

definition remember_peer :: "string \<Rightarrow> string \<Rightarrow> string \<Rightarrow> conn \<Rightarrow> conn" where
  "remember_peer vault_id peer_id device c =
     (if peer_id = [] then c else snd (upsert_peer vault_id peer_id device c))"

text \<open>An accepted connection.\<close>

record ws_conn =
  ws_id :: nat
  ws_vault :: string
  has_blob_feature :: bool

definition open_conn :: "nat \<Rightarrow> string \<Rightarrow> string list \<Rightarrow> ws_conn" where
  "open_conn conn_id vault_id features =
     \<lparr>ws_id = conn_id, ws_vault = vault_id, has_blob_feature = list_ex (\<lambda>f. f = ''blobs'') features\<rparr>"

section \<open>Client to server\<close>

definition MAX_WS_MSG_BYTES :: nat where
  "MAX_WS_MSG_BYTES = 50 * 1024 * 1024"

text \<open>\<open>StreamEnd\<close> is the end of the stream, an error on it, or 120 seconds of silence.\<close>

datatype ws_message =
    Binary bytes
  | CloseFrame
  | OtherMessage
  | StreamEnd

record read_effect =
  queued :: "server_msg list"
  announced :: "broadcast_event list"
  goes_on :: bool

text \<open>
  One turn of the read loop.  \<open>write_ok\<close> tells whether the writer still takes messages; a reply that
  cannot be serialized or written ends the loop, and then nothing is broadcast.
\<close>

definition read_turn :: "'doc libs \<Rightarrow> (bytes \<Rightarrow> string + client_msg) \<Rightarrow> (server_msg \<Rightarrow> bytes option) \<Rightarrow>
    bool \<Rightarrow> ws_conn \<Rightarrow> ws_message \<Rightarrow> conn \<Rightarrow> read_effect \<times> conn" where
  "read_turn L from_slice to_vec_named write_ok w m c =
     (case m of
        Binary data \<Rightarrow>
          if length data > MAX_WS_MSG_BYTES
          then (let err = ErrorMsg ''frame_too_large''
                  (''frame too large ('' @ show_nat (length data) @ '' bytes, limit 50 MiB) '' @ em_dash @
                   '' document not synced'') None
                in (\<lparr>queued = (if to_vec_named err \<noteq> None \<and> write_ok then [err] else []),
                     announced = [], goes_on = True\<rparr>, c))
          else
            let ((response, maybe_broadcast), c) = process_message L from_slice data (ws_vault w) (ws_id w) c
            in if to_vec_named response = None \<or> \<not> write_ok
               then (\<lparr>queued = [], announced = [], goes_on = False\<rparr>, c)
               else (\<lparr>queued = [response],
                      announced = (case maybe_broadcast of None \<Rightarrow> [] | Some e \<Rightarrow> [e]), goes_on = True\<rparr>, c)
      | CloseFrame \<Rightarrow> (\<lparr>queued = [], announced = [], goes_on = False\<rparr>, c)
      | OtherMessage \<Rightarrow> (\<lparr>queued = [], announced = [], goes_on = True\<rparr>, c)
      | StreamEnd \<Rightarrow> (\<lparr>queued = [], announced = [], goes_on = False\<rparr>, c))"

text \<open>The loop: each received message comes with whether the writer takes its reply.\<close>

fun client_read :: "'doc libs \<Rightarrow> (bytes \<Rightarrow> string + client_msg) \<Rightarrow> (server_msg \<Rightarrow> bytes option) \<Rightarrow>
    ws_conn \<Rightarrow> (ws_message \<times> bool) list \<Rightarrow> conn \<Rightarrow> (server_msg list \<times> broadcast_event list) \<times> conn" where
  "client_read L from_slice to_vec_named w [] c = (([], []), c)"
| "client_read L from_slice to_vec_named w ((m, write_ok) # ms) c =
     (let (e, c) = read_turn L from_slice to_vec_named write_ok w m c
      in if goes_on e
         then (let ((q, a), c) = client_read L from_slice to_vec_named w ms c
               in ((queued e @ q, announced e @ a), c))
         else ((queued e, announced e), c))"

section \<open>Server to client\<close>

fun forward :: "ws_conn \<Rightarrow> broadcast_event \<Rightarrow> server_msg option" where
  "forward w (DeltaEvent evt_vault doc_uuid delta peer_id sender server_vv inc) =
     (if evt_vault = ws_vault w \<and> sender \<noteq> ws_id w
      then Some (DeltaBroadcast doc_uuid delta peer_id server_vv inc) else None)"
| "forward w (DeleteEvent evt_vault doc_uuid sender hash) =
     (if evt_vault = ws_vault w \<and> sender \<noteq> ws_id w then Some (DocDeleted doc_uuid hash) else None)"
| "forward w (BlobPathEvent evt_vault path_key n) =
     (if evt_vault = ws_vault w \<and> has_blob_feature w then Some (BlobPathChanged path_key n) else None)"

datatype recv =
    Received broadcast_event
  | Lagged nat
  | ChannelClosed

text \<open>The forwarding loop, with whether it is still running when its input is used up.\<close>

fun broadcast_fwd :: "(server_msg \<Rightarrow> bytes option) \<Rightarrow> ws_conn \<Rightarrow> (recv \<times> bool) list \<Rightarrow> server_msg list \<times> bool" where
  "broadcast_fwd to_vec_named w [] = ([], True)"
| "broadcast_fwd to_vec_named w ((Received e, write_ok) # rs) =
     (case forward w e of
        None \<Rightarrow> broadcast_fwd to_vec_named w rs
      | Some m \<Rightarrow>
          if to_vec_named m = None \<or> \<not> write_ok then ([], False)
          else (let (out, alive) = broadcast_fwd to_vec_named w rs in (m # out, alive)))"
| "broadcast_fwd to_vec_named w ((Lagged n, _) # rs) = ([], False)"
| "broadcast_fwd to_vec_named w ((ChannelClosed, _) # rs) = ([], False)"

section \<open>Sessions as runs of the document lane\<close>

lemma read_turn_step:
  assumes "read_turn L from_slice to_vec_named write_ok w m c = (e, c')"
  shows "any_step L from_slice c c'"
proof (cases "\<exists>data. m = Binary data \<and> length data \<le> MAX_WS_MSG_BYTES")
  case True
  then obtain data where "m = Binary data" "length data \<le> MAX_WS_MSG_BYTES" by blast
  then have "c' = snd (process_message L from_slice data (ws_vault w) (ws_id w) c)"
    using assms by (auto simp: read_turn_def Let_def split: prod.splits if_splits)
  then show ?thesis
    using server_step.frame [of L from_slice data "ws_vault w" "ws_id w" c] by (metis prod.collapse)
next
  case False
  then have "c' = c"
    using assms by (cases m) (auto simp: read_turn_def Let_def)
  then show ?thesis by (auto intro: server_step.elsewhere)
qed

lemma client_read_run:
  "client_read L from_slice to_vec_named w ms c = (out, c') \<Longrightarrow> (any_step L from_slice)\<^sup>*\<^sup>* c c'"
proof (induction ms arbitrary: c out)
  case (Cons mw ms)
  obtain m ok where mw: "mw = (m, ok)" by force
  obtain e c1 where turn: "read_turn L from_slice to_vec_named ok w m c = (e, c1)" by force
  have step: "any_step L from_slice c c1"
    using turn by (rule read_turn_step)
  show ?case
  proof (cases "goes_on e")
    case True
    then obtain out' where "client_read L from_slice to_vec_named w ms c1 = (out', c')"
      using Cons.prems mw turn by (auto split: prod.splits)
    from Cons.IH [OF this] show ?thesis
      using step by (rule converse_rtranclp_into_rtranclp [rotated])
  next
    case False
    then show ?thesis
      using Cons.prems mw turn step by auto
  qed
qed simp

section \<open>Properties\<close>

text \<open>
  No client acts in a vault it has no token for.  A socket is accepted only when its first frame is
  an auth message of this protocol version whose token verifies, and the vault it then acts in is the
  one named in the token.
\<close>

theorem handshake_is_authenticated:
  "case handshake J t secret from_slice to_vec_named sent first of
     Accepted v features bytes \<Rightarrow>
       (\<exists>data token. first = BinaryFrame data \<and>
          from_slice data = Inr (AuthMsg token PROTOCOL_VERSION features) \<and>
          jwt_verify J t token secret = Inr v) \<and>
       to_vec_named (AuthOk PROTOCOL_VERSION (Some [''delete_incarnation''])) = Some bytes \<and> sent
   | Closed reason msg \<Rightarrow> reason \<in> {''auth_timeout'', ''auth_required'', ''auth_invalid'', ''protocol_version_mismatch''}
   | Dropped \<Rightarrow> True"
  by (cases first) (auto simp: handshake_def split: sum.split client_msg.split option.split)

text \<open>
  C33: a change reaches exactly the other devices of its vault: an event announced by a turn of one
  connection's read loop is forwarded to a connection if and only if that connection is in the same
  vault and is not the sender.
\<close>

theorem broadcast_reaches_the_other_devices:
  assumes "read_turn L from_slice to_vec_named write_ok w m c = (eff, c')" and "announced eff = [e]"
  shows "forward w' e \<noteq> None \<longleftrightarrow> ws_vault w' = ws_vault w \<and> ws_id w' \<noteq> ws_id w"
proof -
  obtain data where m: "m = Binary data" "length data \<le> MAX_WS_MSG_BYTES"
    using assms by (cases m) (auto simp: read_turn_def Let_def split: if_splits)
  obtain reply b c1 where run: "process_message L from_slice data (ws_vault w) (ws_id w) c = ((reply, b), c1)"
    by (metis prod.exhaust)
  have "b = Some e"
    using assms m run by (auto simp: read_turn_def Let_def split: if_splits option.splits)
  then have "event_vault e = ws_vault w" "event_sender e = Some (ws_id w)"
    using announcement [of L from_slice data "ws_vault w" "ws_id w" c] run by auto
  then show ?thesis by (cases e) auto
qed

definition received :: "(recv \<times> bool) list \<Rightarrow> broadcast_event list" where
  "received rs = List.map_filter (\<lambda>(r, _). case r of Received e \<Rightarrow> Some e | _ \<Rightarrow> None) rs"

text \<open>
  No gaps.  What the forwarding loop has sent to its client is, in order, every event of its vault
  among a prefix of what the channel delivered; while the loop runs that prefix is everything, and a
  client that lagged, or whose socket failed, is cut off instead of missing an event.
\<close>

theorem forwarding_has_no_gaps:
  "let (out, alive) = broadcast_fwd to_vec_named w rs
   in \<exists>n. out = List.map_filter (forward w) (received (take n rs)) \<and>
      (if alive then n = length rs else n < length rs)"
proof (induction rs)
  case Nil
  then show ?case by (simp add: received_def map_filter_simps)
next
  case (Cons r rs)
  obtain x ok where r: "r = (x, ok)" by force
  obtain out alive n where rest: "broadcast_fwd to_vec_named w rs = (out, alive)"
      "out = List.map_filter (forward w) (received (take n rs))"
      "if alive then n = length rs else n < length rs"
    using Cons.IH by auto
  show ?case
  proof (cases x)
    case (Received e)
    have "\<exists>k. [] = List.map_filter (forward w) (received (take k (r # rs))) \<and> k < length (r # rs)"
      by (intro exI [of _ 0]) (simp add: received_def map_filter_simps)
    moreover have "if alive then Suc n = length (r # rs) else Suc n < length (r # rs)"
      using rest(3) by (simp split: if_splits)
    ultimately show ?thesis
      using rest r Received
      by (cases "forward w e"; cases "to_vec_named (the (forward w e)) = None \<or> \<not> ok")
        (auto simp: received_def map_filter_simps split: if_splits intro!: exI [of _ "Suc n"])
  qed (use r in \<open>auto simp: received_def map_filter_simps intro!: exI [of _ 0]\<close>)
qed

text \<open>
  Whatever a client sends over a session, in whatever order and with whatever write failures, the
  documents stay well formed.
\<close>

theorem sessions_keep_documents_ok:
  assumes "doc_ok (tables c)"
  shows "doc_ok (tables (snd (client_read L from_slice to_vec_named w ms c)))"
  using lane.good_steps [OF client_read_run [OF prod.collapse [symmetric]]] assms .

end
