(* ===== verification/Doc_Witnesses.thy ===== *)
theory Doc_Witnesses
  imports Doc_Replies
begin

text \<open>
  The document lane at work on the executable libraries of \<open>Example_Libs\<close>: a note is created, edited,
  deleted and re-created in an empty database.  Each theorem with hypotheses is applied to this run.
\<close>

section \<open>A run\<close>

definition memo :: string where "memo = ''n''"

text \<open>A frame is one byte that names one of five messages.\<close>

definition script :: "bytes \<Rightarrow> string + client_msg" where
  "script b =
     (if b = [0] then Inr (DocCreate memo (blob 0 [(1, 1)] [65]) ''p'' False None)
      else if b = [1] then Inr (SyncPush memo (blob 1 [(1, 2)] [66]) ''p'' None)
      else if b = [2] then Inr (DocDelete memo ''p'' (Some 1) None (Some ''q''))
      else if b = [3] then Inr (DocCreate memo (blob 0 [(2, 1)] [67]) ''p'' True None)
      else if b = [4] then Inr (SyncStart memo None)
      else Inl ''eof'')"

abbreviation play :: "byte \<Rightarrow> conn \<Rightarrow> conn" where
  "play b c \<equiv> snd (process_message toy_libs script [b] ''v'' 7 c)"

definition conn0 :: conn where "conn0 = \<lparr>tables = empty_db, faults = [], now = 100\<rparr>"
definition conn1 :: conn where "conn1 = play 0 conn0"
definition conn2 :: conn where "conn2 = play 1 conn1"
definition conn3 :: conn where "conn3 = play 2 conn2"
definition conn4 :: conn where "conn4 = play 3 conn3"

lemma play_step: "any_step toy_libs script c (play b c)"
  using server_step.frame [of toy_libs script "[b]" "''v''" 7 c] by (metis prod.collapse)

lemma play_run: "(any_step toy_libs script)\<^sup>*\<^sup>* c c' \<Longrightarrow> (any_step toy_libs script)\<^sup>*\<^sup>* c (play b c')"
  by (erule rtranclp.rtrancl_into_rtrancl) (rule play_step)

lemmas play_runs = play_run rtranclp.rtrancl_refl

lemma conn1_row: "map_option incarnation (tbl_get (documents (tables conn1)) (''v'', memo)) = Some 1"
  by code_simp

lemma conn1_ack: "fst (fst (process_message toy_libs script [0] ''v'' 7 conn0)) = Ack (Some 1) None"
  by code_simp

lemma conn1_faults: "faults conn1 = []" and conn2_faults: "faults conn2 = []"
  by code_simp+

lemma conn2_row: "map_option incarnation (tbl_get (documents (tables conn2)) (''v'', memo)) = Some 1"
  by code_simp

text \<open>Without storage failures a guarded delete that is not refused deletes.\<close>

lemma delete_no_fault:
  assumes "faults c = []" and "\<not> refused e (live_token (tables c) v u)"
  shows "\<exists>out c'. delete_doc_guarded L v u p e c = (Inr out, c') \<and> (\<forall>n. out \<noteq> Rejected n) \<and>
    tbl_get (documents (tables c')) (v, u) = None \<and>
    tbl_get (tombstones (tables c')) (v, u) = Some (buried L p (now c)
      (tbl_get (documents (tables c)) (v, u)) (tbl_get (tombstones (tables c)) (v, u)))"
proof -
  have "\<exists>out. fst (delete_doc_guarded L v u p e c) = Inr out \<and> (\<forall>n. out \<noteq> Rejected n)"
    using assms by (auto simp: delete_doc_guarded_def transaction_def and_then_def no_fault Let_def sql.get_put
        refused_def live_token_def split: option.splits)
  then obtain out where out: "delete_doc_guarded L v u p e c = (Inr out, snd (delete_doc_guarded L v u p e c))"
      "\<forall>n. out \<noteq> Rejected n"
    by (metis prod.collapse)
  show ?thesis
    using delete_Inr_done [OF out(1) assms(2) refl refl refl] out
    by (intro exI [of _ out] exI [of _ "snd (delete_doc_guarded L v u p e c)"])
      (simp add: sql.get_put sql.get_del)
qed

lemma conn3_dead:
  "tbl_get (documents (tables conn3)) (''v'', memo) = None \<and>
   (\<exists>g. tbl_get (tombstones (tables conn3)) (''v'', memo) = Some g \<and> tombstone_incarnation g = 1)"
proof -
  note conn2_faults
  moreover have "live_token (tables conn2) ''v'' memo = 1" by code_simp
  ultimately obtain out c' where del: "delete_doc_guarded toy_libs ''v'' memo ''p'' (Some 1) conn2 = (Inr out, c')"
    "\<forall>n. out \<noteq> Rejected n" "tbl_get (documents (tables c')) (''v'', memo) = None"
    "tbl_get (tombstones (tables c')) (''v'', memo) = Some (buried toy_libs ''p'' (now conn2)
      (tbl_get (documents (tables conn2)) (''v'', memo)) (tbl_get (tombstones (tables conn2)) (''v'', memo)))"
    using delete_no_fault [of conn2 "Some 1" "''v''" memo toy_libs "''p''"] by (auto simp: refused_def)
  have "conn3 = c'"
    using del(1,2) by (cases out) (simp_all add: conn3_def process_message_run script_def process_inner_def
        check_ids_def check_len_def id_caps memo_def and_then_def handle_doc_delete_def)
  then show ?thesis
    using del(3,4) conn2_row by (auto simp: buried_def)
qed

text \<open>A day-old tombstone in a vault whose one device was last seen at a given time.\<close>

definition seen_at :: "timestamp \<Rightarrow> conn" where
  "seen_at s = \<lparr>tables = empty_db\<lparr>tombstones := [((''v'', memo), \<lparr>deleted_by = ''p'', deleted_at = 9,
       content_hash = None, tombstone_incarnation = 1\<rparr>)],
     peers := [((''v'', ''q''), \<lparr>device_name = ''phone'', last_seen_at = s\<rparr>)]\<rparr>, faults = [], now = 90000\<rparr>"

section \<open>Witnesses\<close>

theorem reachable_documents_ok_witness: "doc_ok (tables conn3)"
proof (rule reachable_documents_ok [of conn0 toy_libs script])
  show "(any_step toy_libs script)\<^sup>*\<^sup>* conn0 conn3"
    unfolding conn3_def conn2_def conn1_def by (intro play_runs)
qed (simp add: conn0_def)

theorem stale_delete_is_harmless_witness: "tables (play 2 conn4) = tables conn4"
proof -
  obtain r where r: "tbl_get (documents (tables conn2)) (''v'', memo) = Some r" "incarnation r = 1"
    using conn2_row by auto
  have start: "(any_step toy_libs script)\<^sup>*\<^sup>* conn0 conn2"
    unfolding conn2_def conn1_def by (intro play_runs)
  have del: "(any_step toy_libs script)\<^sup>*\<^sup>* conn2 conn3" and again: "(any_step toy_libs script)\<^sup>*\<^sup>* conn3 conn4"
    unfolding conn3_def conn4_def by (intro play_runs)+
  show ?thesis
    using stale_delete_is_harmless [OF _ start r(1) del _ again, of "[2]" "''p''" None "Some ''q''"]
      conn3_dead r(2)
    by (simp add: conn0_def live_token_def script_def prod_eq_iff)
qed

theorem deleted_stays_deleted_witness:
  "buried_as ((tables conn0)\<lparr>tombstones := [((''v'', memo), \<lparr>deleted_by = ''p'', deleted_at = 9,
     content_hash = Some ''h'', tombstone_incarnation = 4\<rparr>)]\<rparr>) ''v'' memo (Some ''h'') 4 \<and>
   buried_as (tables (play 1 (conn0\<lparr>tables := (tables conn0)\<lparr>tombstones := [((''v'', memo), \<lparr>deleted_by = ''p'',
     deleted_at = 9, content_hash = Some ''h'', tombstone_incarnation = 4\<rparr>)]\<rparr>\<rparr>))) ''v'' memo (Some ''h'') 4"
proof -
  let ?d = "(tables conn0)\<lparr>tombstones := [((''v'', memo), \<lparr>deleted_by = ''p'', deleted_at = 9,
     content_hash = Some ''h'', tombstone_incarnation = 4\<rparr>)]\<rparr>"
  have b: "buried_as ?d ''v'' memo (Some ''h'') 4"
    by (simp add: buried_as_def conn0_def empty_db_def)
  have "server_step toy_libs script (conn0\<lparr>tables := ?d\<rparr>) (Frame ''v'' (script [1])) (play 1 (conn0\<lparr>tables := ?d\<rparr>))"
    by (rule server_step.frame) (rule prod.collapse [symmetric])
  moreover have "\<not> revives ''v'' memo (Frame ''v'' (script [1]))"
    by (simp add: script_def)
  ultimately have "(\<lambda>c c'. \<exists>l. server_step toy_libs script c l c' \<and> \<not> revives ''v'' memo l)\<^sup>*\<^sup>*
      (conn0\<lparr>tables := ?d\<rparr>) (play 1 (conn0\<lparr>tables := ?d\<rparr>))"
    by blast
  then show ?thesis
    using deleted_stays_deleted b by fastforce
qed

theorem frames_keep_history_witness:
  "\<exists>r r'. tbl_get (documents (tables conn1)) (''v'', memo) = Some r \<and>
     tbl_get (documents (tables conn2)) (''v'', memo) = Some r' \<and>
     vv_le (history toy_libs r) (history toy_libs r')"
proof -
  have first: "process_message toy_libs script [0] ''v'' 7 conn0 =
      (fst (process_message toy_libs script [0] ''v'' 7 conn0), conn1)"
    and second: "process_message toy_libs script [1] ''v'' 7 conn1 =
      (fst (process_message toy_libs script [1] ''v'' 7 conn1), conn2)"
    by (simp_all add: conn1_def conn2_def prod_eq_iff)
  have "rows_faithful toy_libs (tables conn0)"
    by (simp add: rows_faithful_def conn0_def empty_db_def)
  then have "rows_faithful toy_libs (tables conn1)"
    using frames_keep_history [OF toy_laws _ first] by blast
  then show ?thesis
    using frames_keep_history [OF toy_laws _ second] conn1_row conn2_row by auto
qed

theorem delete_semantics_witness:
  "\<exists>r c' hash. handle_doc_delete toy_libs ''v'' 7 memo ''p'' (Some 1) None (Some ''q'') conn2 = (Inr r, c') \<and>
     r = (Ack None (Some ''q''), Some (DeleteEvent ''v'' memo 7 hash)) \<and>
     tbl_get (documents (tables c')) (''v'', memo) = None"
proof -
  obtain row where row: "tbl_get (documents (tables conn2)) (''v'', memo) = Some row" "incarnation row = 1"
    using conn2_row by auto
  have "\<not> refused (Some 1) (live_token (tables conn2) ''v'' memo)"
    using row by (simp add: refused_def live_token_def)
  then obtain out c' where del: "delete_doc_guarded toy_libs ''v'' memo ''p'' (Some 1) conn2 = (Inr out, c')"
    using delete_no_fault [of conn2 "Some 1" "''v''" memo toy_libs "''p''"] conn2_faults by auto
  then obtain r where r: "handle_doc_delete toy_libs ''v'' 7 memo ''p'' (Some 1) None (Some ''q'') conn2 = (Inr r, c')"
    by (cases out) (simp_all add: handle_doc_delete_def and_then_def)
  show ?thesis
    using delete_semantics [OF r row(1) [symmetric] refl refl refl] r row(2) by auto
qed

theorem acknowledged_write_is_read_witness:
  "\<exists>what snap vv doc. merge_docs toy_libs what None (blob 0 [(1, 1)] [65]) = Inr (snap, vv) \<and>
     tbl_get (oplog_vv toy_libs doc) = tbl_get vv \<and>
     handle_sync_start toy_libs ''v'' memo None conn1 =
       (Inr (SyncDelta memo snap (vv_to_json_bytes toy_libs (oplog_vv toy_libs doc)) (Some 1), None), conn1)"
proof -
  have ack: "process_message toy_libs script [0] ''v'' 7 conn0 =
      ((Ack (Some 1) None, snd (fst (process_message toy_libs script [0] ''v'' 7 conn0))), conn1)"
    using conn1_ack by (simp add: conn1_def prod_eq_iff)
  show ?thesis
    using acknowledged_write_is_read [OF toy_snapshot_faithful _ _ ack, of "DocCreate memo (blob 0 [(1, 1)] [65]) ''p'' False None" memo "blob 0 [(1, 1)] [65]"] conn1_faults
    by (simp add: script_def conn0_def empty_db_def)
qed

theorem oversized_ids_are_refused_witness:
  "fst (fst (process_message toy_libs (\<lambda>_. Inr (SyncStart (replicate 1025 CHR ''a'') None)) [] ''v'' 7 conn0)) =
     ErrorMsg ''bad_frame'' ''message could not be decoded'' None"
  using oversized_ids_are_refused [of "\<lambda>_. Inr (SyncStart (replicate 1025 CHR ''a'') None)" "[]"
      "SyncStart (replicate 1025 CHR ''a'') None" toy_libs "''v''" 7 conn0]
  by simp

theorem doc_list_is_exact_witness:
  "\<exists>docs tombs hashes. handle_doc_list toy_libs ''v'' conn1 = (Inr (DocList docs tombs hashes, None), conn1) \<and>
     (\<exists>e \<in> set docs. entry_doc_uuid e = memo \<and> entry_incarnation e = Some 1)"
proof -
  have wf: "tbl_wf (documents (tables conn1))" "tbl_wf (tombstones (tables conn1))"
    by code_simp+
  obtain r where "tbl_get (documents (tables conn1)) (''v'', memo) = Some r" "incarnation r = 1"
    using conn1_row by auto
  then show ?thesis
    using doc_list_is_exact [OF wf conn1_faults, of toy_libs "''v''"] by metis
qed

theorem retention_waits_for_every_device_witness:
  "tbl_get (tombstones (tables (snd (expire_tombstones 1 (seen_at 5))))) (''v'', memo) \<noteq> None \<and>
   tbl_get (tombstones (tables (snd (expire_tombstones 1 (seen_at 10))))) (''v'', memo) = None"
proof -
  have run: "expire_tombstones 1 (seen_at 5) = (Inr 0, snd (expire_tombstones 1 (seen_at 5)))"
      "expire_tombstones 1 (seen_at 10) = (Inr 1, snd (expire_tombstones 1 (seen_at 10)))"
    by (simp_all add: expire_tombstones_def seen_at_def no_fault Let_def tbl_keep_def older_than_def)
  have wf: "tbl_wf (tombstones (tables (seen_at s)))" "tbl_wf (peers (tables (seen_at s)))" for s
    by (simp_all add: seen_at_def tbl_wf_def)
  show ?thesis
    using retention_waits_for_every_device [OF wf run(1)] retention_waits_for_every_device [OF wf run(2)]
    by (auto simp: seen_at_def split: if_splits)
qed

end
