(* ===== verification/Ws_Witnesses.thy ===== *)
theory Ws_Witnesses
  imports Ws Doc_Witnesses
begin

text \<open>Sessions over the run of \<open>Doc_Witnesses\<close>, and a session whose reply cannot be written.\<close>

definition phone :: ws_conn where "phone = open_conn 7 ''v'' [''blobs'']"
definition laptop :: ws_conn where "laptop = open_conn 8 ''v'' []"

abbreviation as_is :: "server_msg \<Rightarrow> bytes option" where "as_is \<equiv> \<lambda>_. Some []"

lemma first_event: "map_option event_vault (snd (fst (process_message toy_libs script [0] ''v'' 7 conn0))) = Some ''v''"
  by code_simp

lemma first_turn:
  "announced (fst (read_turn toy_libs script as_is True phone (Binary [0]) conn0)) =
     (case snd (fst (process_message toy_libs script [0] ''v'' 7 conn0)) of None \<Rightarrow> [] | Some e \<Rightarrow> [e])"
  by (simp add: read_turn_def MAX_WS_MSG_BYTES_def phone_def open_conn_def split_beta Let_def)

theorem broadcast_reaches_the_other_devices_witness:
  "\<exists>e. announced (fst (read_turn toy_libs script as_is True phone (Binary [0]) conn0)) = [e] \<and>
     forward laptop e \<noteq> None \<and> forward phone e = None"
proof -
  obtain e where e: "announced (fst (read_turn toy_libs script as_is True phone (Binary [0]) conn0)) = [e]"
    using first_turn first_event by (auto split: option.splits)
  note reach = broadcast_reaches_the_other_devices [OF prod.collapse [symmetric] e]
  show ?thesis
    using e reach [of laptop] reach [of phone]
    by (auto simp: phone_def laptop_def open_conn_def)
qed

theorem sessions_keep_documents_ok_witness:
  "doc_ok (tables (snd (client_read toy_libs script as_is phone [(Binary [0], True), (Binary [2], False)] conn0)))"
  by (rule sessions_keep_documents_ok) (simp add: conn0_def doc_ok_empty)

text \<open>
  A reply that cannot be written loses the announcement of a committed change: the document is
  stored, the sender's loop ends, and nothing is broadcast to the other devices of the vault.
\<close>

theorem unwritten_reply_loses_broadcast:
  "let (eff, c') = read_turn toy_libs script as_is False phone (Binary [0]) conn0
   in tbl_get (documents (tables c')) (''v'', memo) \<noteq> None \<and> announced eff = [] \<and> \<not> goes_on eff"
  using conn1_row by (auto simp: read_turn_def MAX_WS_MSG_BYTES_def phone_def open_conn_def split_beta Let_def conn1_def)

end
