(* ===== verification/Ws_Sessions.thy ===== *)
theory Ws_Sessions
  imports Ws
begin

text \<open>
  All sessions together (\<open>handle_socket\<close> of \<open>src/ws.rs\<close>): sockets are accepted and registered, subscribe
  to the channel, send frames, get the events of the others, and leave.  Of tokio's broadcast channel
  the model takes what its documentation says: a receiver gets the events sent after it subscribed, in
  order, unless it falls behind and is told so; when that happens is left open.
\<close>

section \<open>State and operations\<close>

text \<open>
  A session from its registration on; \<open>joined_at\<close> is the length of the channel's history when it
  subscribed and \<open>forwarded\<close> what its forwarding loop has handed to its writer.
\<close>

record live_session =
  session_conn :: ws_conn
  subscribed :: bool
  joined_at :: nat
  unread :: "broadcast_event list"
  lagged :: bool
  forwarded :: "server_msg list"

record sockets =
  socket_db :: conn
  socket_registry :: registry
  live :: "(nat, live_session) table"
  channel_log :: "broadcast_event list"

definition offer_event :: "broadcast_event \<Rightarrow> live_session \<Rightarrow> live_session" where
  "offer_event e x =
     (if \<not> subscribed x \<or> lagged x then x else x\<lparr>unread := unread x @ [e]\<rparr>)"

definition fall_behind :: "nat \<Rightarrow> live_session \<Rightarrow> sockets \<Rightarrow> sockets" where
  "fall_behind k x s = s\<lparr>live := tbl_put k (x\<lparr>lagged := True\<rparr>) (live s)\<rparr>"

definition publish :: "broadcast_event \<Rightarrow> sockets \<Rightarrow> sockets" where
  "publish e s = s\<lparr>live := map (\<lambda>(k, x). (k, offer_event e x)) (live s), channel_log := channel_log s @ [e]\<rparr>"

definition joining :: "nat \<Rightarrow> string \<Rightarrow> string list \<Rightarrow> live_session" where
  "joining conn_id vault_id features = \<lparr>session_conn = open_conn conn_id vault_id features, subscribed = False, joined_at = 0,
     unread = [], lagged = False, forwarded = []\<rparr>"

definition leave_socket :: "nat \<Rightarrow> sockets \<Rightarrow> sockets" where
  "leave_socket k s = s\<lparr>socket_registry := unregister k (socket_registry s), live := tbl_del k (live s)\<rparr>"

text \<open>A socket arrives: it gets a number, and if its handshake is accepted an entry in the registry.\<close>

definition arrive :: "jwt_lib \<Rightarrow> nat \<Rightarrow> string \<Rightarrow> (bytes \<Rightarrow> string + client_msg) \<Rightarrow> (server_msg \<Rightarrow> bytes option) \<Rightarrow>
    bool \<Rightarrow> first_frame \<Rightarrow> string \<Rightarrow> sockets \<Rightarrow> sockets" where
  "arrive J secs secret from_slice to_vec_named sent first device s =
     (let (conn_id, g) = next_conn_id (socket_registry s)
      in case handshake J secs secret from_slice to_vec_named sent first of
           Accepted vault_id features _ \<Rightarrow>
             s\<lparr>socket_registry := register conn_id vault_id device secs g,
               live := tbl_put conn_id (joining conn_id vault_id features) (live s)\<rparr>
         | _ \<Rightarrow> s\<lparr>socket_registry := g\<rparr>)"

definition subscribe :: "nat \<Rightarrow> string \<Rightarrow> string \<Rightarrow> live_session \<Rightarrow> sockets \<Rightarrow> sockets" where
  "subscribe k peer device x s = s\<lparr>socket_db := remember_peer (ws_vault (session_conn x)) peer device (socket_db s),
     live := tbl_put k (x\<lparr>subscribed := True, joined_at := length (channel_log s)\<rparr>) (live s)\<rparr>"

text \<open>One turn of the read loop, with what it announces to the channel.\<close>

definition read_socket :: "'doc libs \<Rightarrow> (bytes \<Rightarrow> string + client_msg) \<Rightarrow> (server_msg \<Rightarrow> bytes option) \<Rightarrow> bool \<Rightarrow>
    nat \<Rightarrow> ws_conn \<Rightarrow> ws_message \<Rightarrow> sockets \<Rightarrow> sockets" where
  "read_socket L from_slice to_vec_named write_ok k w m s =
     (let (e, c) = read_turn L from_slice to_vec_named write_ok w m (socket_db s);
          s = fold publish (announced e) (s\<lparr>socket_db := c\<rparr>)
      in if goes_on e then s else leave_socket k s)"

text \<open>One turn of the forwarding loop; a session that lagged is told so at its next receive.\<close>

definition forward_turn :: "(server_msg \<Rightarrow> bytes option) \<Rightarrow> bool \<Rightarrow> nat \<Rightarrow> live_session \<Rightarrow> sockets \<Rightarrow> sockets" where
  "forward_turn to_vec_named write_ok k x s =
     (if lagged x then leave_socket k s
      else case unread x of
        [] \<Rightarrow> s
      | e # es \<Rightarrow> (case forward (session_conn x) e of
            None \<Rightarrow> s\<lparr>live := tbl_put k (x\<lparr>unread := es\<rparr>) (live s)\<rparr>
          | Some m \<Rightarrow>
              if to_vec_named m = None \<or> \<not> write_ok then leave_socket k s
              else s\<lparr>live := tbl_put k (x\<lparr>unread := es, forwarded := forwarded x @ [m]\<rparr>) (live s)\<rparr>))"

section \<open>Runs\<close>

text \<open>The counter of connections is far from wrapping; events of the HTTP lane come from outside.\<close>

inductive socket_step :: "jwt_lib \<Rightarrow> string \<Rightarrow> 'doc libs \<Rightarrow> (bytes \<Rightarrow> string + client_msg) \<Rightarrow> (server_msg \<Rightarrow> bytes option) \<Rightarrow>
    sockets \<Rightarrow> sockets \<Rightarrow> bool"
  for J secret and L :: "'doc libs" and from_slice to_vec_named where
  arrive: "conn_counter (socket_registry s) + 1 < 2 ^ 64 \<Longrightarrow>
    socket_step J secret L from_slice to_vec_named s (arrive J secs secret from_slice to_vec_named sent first device s)"
| subscribe: "tbl_get (live s) k = Some x \<Longrightarrow> \<not> subscribed x \<Longrightarrow>
    socket_step J secret L from_slice to_vec_named s (subscribe k peer device x s)"
| read: "tbl_get (live s) k = Some x \<Longrightarrow> subscribed x \<Longrightarrow>
    socket_step J secret L from_slice to_vec_named s (read_socket L from_slice to_vec_named write_ok k (session_conn x) m s)"
| forward: "tbl_get (live s) k = Some x \<Longrightarrow> subscribed x \<Longrightarrow>
    socket_step J secret L from_slice to_vec_named s (forward_turn to_vec_named write_ok k x s)"
| fall_behind: "tbl_get (live s) k = Some x \<Longrightarrow> subscribed x \<Longrightarrow>
    socket_step J secret L from_slice to_vec_named s (fall_behind k x s)"
| http: "socket_step J secret L from_slice to_vec_named s (publish (BlobPathEvent v key n) (s\<lparr>socket_db := c\<rparr>))"

definition no_sockets :: "conn \<Rightarrow> sockets" where
  "no_sockets c = \<lparr>socket_db = c, socket_registry = \<lparr>conn_counter = 0, connections = []\<rparr>, live = [], channel_log = []\<rparr>"

section \<open>Invariant\<close>

text \<open>What a session has forwarded and has still to read is what was announced since it joined.\<close>

definition caught_up :: "broadcast_event list \<Rightarrow> live_session \<Rightarrow> bool" where
  "caught_up log x \<longleftrightarrow> joined_at x \<le> length log \<and>
     (if subscribed x
      then lagged x \<or> forwarded x @ List.map_filter (forward (session_conn x)) (unread x) =
        List.map_filter (forward (session_conn x)) (drop (joined_at x) log)
      else unread x = [] \<and> forwarded x = [] \<and> \<not> lagged x)"

definition sockets_ok :: "sockets \<Rightarrow> bool" where
  "sockets_ok s \<longleftrightarrow> tbl_wf (live s) \<and> tbl_wf (connections (socket_registry s)) \<and>
     (\<forall>k. map_option info_vault_id (tbl_get (connections (socket_registry s)) k) =
        map_option (ws_vault \<circ> session_conn) (tbl_get (live s) k)) \<and>
     (\<forall>k x. tbl_get (live s) k = Some x \<longrightarrow> k < conn_counter (socket_registry s) \<and> ws_id (session_conn x) = k \<and>
        caught_up (channel_log s) x)"

lemma map_filter_append: "List.map_filter f (xs @ ys) = List.map_filter f xs @ List.map_filter f ys"
  by (simp add: List.map_filter_def)

lemma tbl_get_map_rows: "tbl_get (map (\<lambda>(k, x). (k, g x)) t) k = map_option g (tbl_get t k)"
  by (induction t) auto

lemma offer_conn [simp]: "session_conn (offer_event e x) = session_conn x"
  by (simp add: offer_event_def)

lemma caught_up_offer: "caught_up log x \<Longrightarrow> caught_up (log @ [e]) (offer_event e x)"
  by (auto simp: caught_up_def offer_event_def map_filter_append map_filter_simps split: option.split)

lemma publish_ok: "sockets_ok s \<Longrightarrow> sockets_ok (publish e s)"
  by (auto simp: sockets_ok_def publish_def tbl_get_map_rows caught_up_offer option.map_comp comp_def tbl_wf_def split_beta)

lemma db_ok: "sockets_ok (s\<lparr>socket_db := c\<rparr>) = sockets_ok s"
  by (simp add: sockets_ok_def)

lemma publishes_ok: "sockets_ok s \<Longrightarrow> sockets_ok (fold publish es s)"
  by (induction es arbitrary: s) (simp_all add: publish_ok)

lemma leave_ok: "sockets_ok s \<Longrightarrow> sockets_ok (leave_socket k s)"
  by (auto simp: sockets_ok_def leave_socket_def unregister_def sql.wf_del sql.get_del)

lemma arrive_ok:
  assumes "sockets_ok s" and "conn_counter (socket_registry s) + 1 < 2 ^ 64"
  shows "sockets_ok (arrive J secs secret from_slice to_vec_named sent first device s)"
proof -
  let ?g = "socket_registry s"
  have count: "next_conn_id ?g = (conn_counter ?g, ?g\<lparr>conn_counter := conn_counter ?g + 1\<rparr>)"
    unfolding next_conn_id_def using assms(2) by (simp only: mod_less)
  have old: "k < conn_counter ?g" if "tbl_get (live s) k = Some x" for k x
    using assms(1) that by (auto simp: sockets_ok_def)
  show ?thesis
    using assms(1)
    by (cases "handshake J secs secret from_slice to_vec_named sent first")
      (auto simp: arrive_def count sockets_ok_def register_def joining_def open_conn_def caught_up_def
        sql.wf_put sql.get_put dest: old intro: less_SucI)
qed

lemma update_ok:
  assumes "sockets_ok s" and "tbl_get (live s) k = Some x" and "session_conn y = session_conn x" and "caught_up (channel_log s) y"
  shows "sockets_ok (s\<lparr>live := tbl_put k y (live s)\<rparr>)"
  using assms by (auto simp: sockets_ok_def sql.wf_put sql.get_put)

lemma socket_step_ok:
  assumes "socket_step J secret L from_slice to_vec_named s s'" and "sockets_ok s"
  shows "sockets_ok s'"
  using assms
proof cases
  case (arrive secs sent first device)
  then show ?thesis
    using assms(2) by (simp add: arrive_ok)
next
  case (subscribe k x peer device)
  have "caught_up (channel_log s) (x\<lparr>subscribed := True, joined_at := length (channel_log s)\<rparr>)"
    using assms(2) subscribe by (auto simp: sockets_ok_def caught_up_def map_filter_simps)
  then have "sockets_ok (s\<lparr>live := tbl_put k (x\<lparr>subscribed := True, joined_at := length (channel_log s)\<rparr>) (live s)\<rparr>)"
    using assms(2) subscribe by (intro update_ok) auto
  then show ?thesis
    using subscribe by (simp add: subscribe_def sockets_ok_def)
next
  case (read k x write_ok m)
  then show ?thesis
    using assms(2) by (auto simp: read_socket_def Let_def db_ok intro!: publishes_ok leave_ok split: prod.split)
next
  case (forward k x write_ok)
  have "caught_up (channel_log s) x"
    using assms(2) forward by (auto simp: sockets_ok_def)
  then show ?thesis
    using assms(2) forward
    by (auto simp: forward_turn_def caught_up_def map_filter_simps intro!: leave_ok update_ok split: list.split option.splits)
next
  case (fall_behind k x)
  have "caught_up (channel_log s) (x\<lparr>lagged := True\<rparr>)"
    using assms(2) fall_behind by (auto simp: sockets_ok_def caught_up_def)
  then show ?thesis
    using assms(2) fall_behind by (auto simp: fall_behind_def intro!: update_ok)
next
  case (http v key n c)
  then show ?thesis
    using assms(2) by (simp add: publish_ok db_ok)
qed

interpretation channel: transition_invariant "\<lambda>s. \<exists>c. s = no_sockets c" "socket_step J secret L from_slice to_vec_named" sockets_ok
  for J secret and L :: "'doc libs" and from_slice to_vec_named
proof
  show "sockets_ok s" if "\<exists>c. s = no_sockets c" for s
    using that by (auto simp: sockets_ok_def no_sockets_def tbl_wf_def)
qed (rule socket_step_ok)

text \<open>
  Whose session it is: every session is in the vault of a token that verified when it arrived, and it has
  only been given events of the channel that are meant for it.
\<close>

definition verified_vault :: "jwt_lib \<Rightarrow> string \<Rightarrow> string \<Rightarrow> bool" where
  "verified_vault J secret v \<longleftrightarrow> (\<exists>token secs. jwt_verify J secs token secret = Inr v)"

definition entitled :: "jwt_lib \<Rightarrow> string \<Rightarrow> broadcast_event list \<Rightarrow> live_session \<Rightarrow> bool" where
  "entitled J secret log x \<longleftrightarrow> verified_vault J secret (ws_vault (session_conn x)) \<and> set (unread x) \<subseteq> set log \<and>
     (\<forall>m \<in> set (forwarded x). \<exists>e \<in> set log. forward (session_conn x) e = Some m)"

definition all_entitled :: "jwt_lib \<Rightarrow> string \<Rightarrow> sockets \<Rightarrow> bool" where
  "all_entitled J secret s \<longleftrightarrow> (\<forall>k x. tbl_get (live s) k = Some x \<longrightarrow> entitled J secret (channel_log s) x)"

lemma forward_event: "forward w e = Some m \<Longrightarrow> event_vault e = ws_vault w \<and> event_sender e \<noteq> Some (ws_id w)"
  by (cases e) (auto split: if_splits)

lemma entitled_publish: "all_entitled J secret s \<Longrightarrow> all_entitled J secret (publish e s)"
  by (force simp: all_entitled_def entitled_def publish_def tbl_get_map_rows offer_event_def)

lemma entitled_publishes: "all_entitled J secret s \<Longrightarrow> all_entitled J secret (fold publish es s)"
  by (induction es arbitrary: s) (simp_all add: entitled_publish)

lemma entitled_leave: "all_entitled J secret s \<Longrightarrow> all_entitled J secret (leave_socket k s)"
  by (auto simp: all_entitled_def leave_socket_def sql.get_del)

lemma entitled_db [simp]: "all_entitled J secret (s\<lparr>socket_db := c\<rparr>) = all_entitled J secret s"
  by (simp add: all_entitled_def)

lemma entitled_update: "all_entitled J secret s \<Longrightarrow> entitled J secret (channel_log s) y \<Longrightarrow>
    all_entitled J secret (s\<lparr>live := tbl_put k y (live s)\<rparr>)"
  by (auto simp: all_entitled_def sql.get_put)

lemma entitled_step:
  assumes "socket_step J secret L from_slice to_vec_named s s'" and "all_entitled J secret s"
  shows "all_entitled J secret s'"
  using assms
proof cases
  case (arrive secs sent first device)
  have "verified_vault J secret v"
    if "handshake J secs secret from_slice to_vec_named sent first = Accepted v features bytes" for v features bytes
    using that handshake_is_authenticated [where J = J and t = secs and secret = secret and from_slice = from_slice
      and to_vec_named = to_vec_named and sent = sent and first = first]
    by (auto simp: verified_vault_def)
  then show ?thesis
    using arrive assms(2)
    by (cases "handshake J secs secret from_slice to_vec_named sent first")
      (auto simp: arrive_def next_conn_id_def joining_def open_conn_def all_entitled_def entitled_def sql.get_put)
next
  case (read k x write_ok m)
  then show ?thesis
    using assms(2) by (auto simp: read_socket_def Let_def intro!: entitled_publishes entitled_leave split: prod.split)
next
  case (forward k x write_ok)
  have "entitled J secret (channel_log s) x"
    using assms(2) forward by (simp add: all_entitled_def)
  then show ?thesis
    using assms(2) forward
    by (auto simp: forward_turn_def entitled_def intro!: entitled_leave entitled_update split: list.split option.splits)
next
  case (http v key n c)
  then show ?thesis
    using assms(2) by (simp add: entitled_publish)
qed (auto simp: subscribe_def fall_behind_def all_entitled_def entitled_def sql.get_put)

interpretation tokens: transition_invariant "\<lambda>s. \<exists>c. s = no_sockets c" "socket_step J secret L from_slice to_vec_named"
  "all_entitled J secret" for J secret and L :: "'doc libs" and from_slice to_vec_named
proof
  show "all_entitled J secret s" if "\<exists>c. s = no_sockets c" for s
    using that by (auto simp: all_entitled_def no_sockets_def)
qed (rule entitled_step)

section \<open>Properties\<close>

text \<open>The registry that \<open>/debug/connections\<close> lists has exactly the live sessions, with their vaults.\<close>

theorem registry_lists_the_sessions:
  assumes "(socket_step J secret L from_slice to_vec_named)\<^sup>*\<^sup>* (no_sockets c) s"
  shows "map_option info_vault_id (tbl_get (connections (socket_registry s)) k) =
    map_option (ws_vault \<circ> session_conn) (tbl_get (live s) k)"
  using channel.good_reachable [OF _ assms] by (auto simp: sockets_ok_def)

text \<open>
  C34: a live session misses nothing.  However sockets come, go, send and read, and whatever the HTTP
  lane announces, a session that is connected and did not lag has handed to its client exactly the
  events of its vault by other devices announced since it subscribed, in order and once, up to those it
  has still to read; one that lagged is disconnected at its next receive.
\<close>

theorem live_sessions_miss_nothing:
  assumes "(socket_step J secret L from_slice to_vec_named)\<^sup>*\<^sup>* (no_sockets c) s"
    and "tbl_get (live s) k = Some x" and "subscribed x"
  shows "if lagged x then tbl_get (live (forward_turn to_vec_named write_ok k x s)) k = None
    else forwarded x @ List.map_filter (forward (session_conn x)) (unread x) =
      List.map_filter (forward (session_conn x)) (drop (joined_at x) (channel_log s))"
proof -
  have "sockets_ok s"
    by (rule channel.good_reachable [OF _ assms(1)]) auto
  then have "caught_up (channel_log s) x"
    using assms(2) by (auto simp: sockets_ok_def)
  then show ?thesis
    using assms(3) by (auto simp: caught_up_def forward_turn_def leave_socket_def sql.get_del)
qed

text \<open>
  C35: nobody listens in.  Whatever sockets come and go, a live session is in a vault for which a token
  verified, and every message handed to its client is the rendering of an announced event of that vault
  which the session itself did not send.
\<close>

theorem sessions_hear_only_their_vault:
  assumes "(socket_step J secret L from_slice to_vec_named)\<^sup>*\<^sup>* (no_sockets c) s"
    and "tbl_get (live s) k = Some x" and "m \<in> set (forwarded x)"
  shows "(\<exists>token secs. jwt_verify J secs token secret = Inr (ws_vault (session_conn x))) \<and>
    (\<exists>e \<in> set (channel_log s). forward (session_conn x) e = Some m \<and> event_vault e = ws_vault (session_conn x) \<and>
       event_sender e \<noteq> Some k)"
proof -
  have "all_entitled J secret s" "sockets_ok s"
    using tokens.good_reachable [OF _ assms(1)] channel.good_reachable [OF _ assms(1)] by auto
  then have x: "entitled J secret (channel_log s) x" "ws_id (session_conn x) = k"
    using assms(2) by (auto simp: all_entitled_def sockets_ok_def)
  then obtain e where e: "e \<in> set (channel_log s)" "forward (session_conn x) e = Some m"
    using assms(3) by (auto simp: entitled_def)
  then show ?thesis
    using forward_event [OF e(2)] x by (auto simp: entitled_def verified_vault_def)
qed

end
