(* ===== verification/Doc_Locks.thy ===== *)
theory Doc_Locks
  imports Prelude
begin

text \<open>
  The per-document locks of \<open>src/lib.rs\<close> (\<open>DocLocks\<close>) under concurrent handlers.  The map holds one
  shared mutex per key; \<open>get\<close> first evicts the entries nobody else refers to.  A handler clones the
  mutex (\<open>get\<close>), waits for it, holds it while its body runs, drops the guard and then its clone; a
  handler whose connection closes while it waits drops its clone.  The danger is an eviction that
  gives two handlers of one document two different mutexes: the invariant rules it out.
\<close>

section \<open>State and operations\<close>

text \<open>Where a handler is, with its key and the mutex it has cloned; handlers elsewhere are not listed.\<close>

datatype stage =
    Waiting (stage_key: string) (stage_lock: nat)
  | Holding (stage_key: string) (stage_lock: nat)
  | Leaving (stage_key: string) (stage_lock: nat)

text \<open>Mutexes are numbered in the order of their creation; \<open>fresh\<close> is the next number.\<close>

record doc_locks =
  entries :: "(string, nat) table"
  fresh :: nat
  stages :: "(nat, stage) table"

definition lock_key :: "string \<Rightarrow> string \<Rightarrow> string" where
  "lock_key vault_id doc_uuid = vault_id @ '':'' @ doc_uuid"

text \<open>\<open>Arc::strong_count\<close>: the map's own reference and the clones of the handlers.\<close>

definition strong_count :: "doc_locks \<Rightarrow> nat \<Rightarrow> nat" where
  "strong_count s l = length (filter (\<lambda>(_, l'). l' = l) (entries s)) +
     length (filter (\<lambda>(_, st). stage_lock st = l) (stages s))"

definition lock_get :: "nat \<Rightarrow> string \<Rightarrow> doc_locks \<Rightarrow> doc_locks" where
  "lock_get t key s =
     (let kept = tbl_keep (\<lambda>_ l. strong_count s l > 1) (entries s)
      in case tbl_get kept key of
           Some l \<Rightarrow> s\<lparr>entries := kept, stages := tbl_put t (Waiting key l) (stages s)\<rparr>
         | None \<Rightarrow> s\<lparr>entries := tbl_put key (fresh s) kept, fresh := fresh s + 1,
             stages := tbl_put t (Waiting key (fresh s)) (stages s)\<rparr>)"

definition lock_len :: "doc_locks \<Rightarrow> nat" where
  "lock_len s = length (entries s)"

definition lock_is_empty :: "doc_locks \<Rightarrow> bool" where
  "lock_is_empty s \<longleftrightarrow> entries s = []"

definition held :: "doc_locks \<Rightarrow> nat \<Rightarrow> bool" where
  "held s l \<longleftrightarrow> list_ex (\<lambda>(_, st). is_Holding st \<and> stage_lock st = l) (stages s)"

text \<open>The steps of a handler \<open>t\<close>: it starts, gets the mutex when it is free, drops the guard, leaves.\<close>

inductive lock_step :: "doc_locks \<Rightarrow> doc_locks \<Rightarrow> bool" where
  get: "tbl_get (stages s) t = None \<Longrightarrow> lock_step s (lock_get t key s)"
| acquire: "tbl_get (stages s) t = Some (Waiting key l) \<Longrightarrow> \<not> held s l \<Longrightarrow>
    lock_step s (s\<lparr>stages := tbl_put t (Holding key l) (stages s)\<rparr>)"
| unlock: "tbl_get (stages s) t = Some (Holding key l) \<Longrightarrow>
    lock_step s (s\<lparr>stages := tbl_put t (Leaving key l) (stages s)\<rparr>)"
| leave: "tbl_get (stages s) t = Some st \<Longrightarrow> \<not> is_Holding st \<Longrightarrow>
    lock_step s (s\<lparr>stages := tbl_del t (stages s)\<rparr>)"

definition no_locks :: doc_locks where
  "no_locks = \<lparr>entries = [], fresh = 0, stages = []\<rparr>"

section \<open>Invariant\<close>

text \<open>
  Every handler's mutex is the one the map has for its key, different keys have different mutexes,
  and no mutex has two holders.
\<close>

definition locks_ok :: "doc_locks \<Rightarrow> bool" where
  "locks_ok s \<longleftrightarrow> tbl_wf (entries s) \<and> tbl_wf (stages s) \<and>
     (\<forall>k l. tbl_get (entries s) k = Some l \<longrightarrow> l < fresh s) \<and>
     (\<forall>k k' l. tbl_get (entries s) k = Some l \<longrightarrow> tbl_get (entries s) k' = Some l \<longrightarrow> k = k') \<and>
     (\<forall>t st. tbl_get (stages s) t = Some st \<longrightarrow> tbl_get (entries s) (stage_key st) = Some (stage_lock st)) \<and>
     (\<forall>t t' k k' l. tbl_get (stages s) t = Some (Holding k l) \<longrightarrow>
        tbl_get (stages s) t' = Some (Holding k' l) \<longrightarrow> t = t')"

lemma locks_ok_start: "locks_ok no_locks"
  by (simp add: locks_ok_def no_locks_def)

lemma held_iff: "tbl_wf (stages s) \<Longrightarrow> held s l \<longleftrightarrow> (\<exists>t k. tbl_get (stages s) t = Some (Holding k l))"
  unfolding held_def list_ex_iff by (force simp: tbl_get_mem is_Holding_def)

lemma stage_entry: "locks_ok s \<Longrightarrow> tbl_get (stages s) t = Some st \<Longrightarrow>
    tbl_get (entries s) (stage_key st) = Some (stage_lock st)"
  by (simp add: locks_ok_def)

text \<open>A mutex some handler refers to survives the eviction.\<close>

lemma referenced_kept:
  assumes "locks_ok s" and "tbl_get (stages s) t = Some st"
  shows "strong_count s (stage_lock st) > 1"
proof -
  have "(stage_key st, stage_lock st) \<in> set (entries s)"
    using assms by (intro tbl_get_set) (auto simp: locks_ok_def)
  then have "0 < length (filter (\<lambda>(_, l'). l' = stage_lock st) (entries s))"
    by (auto simp: filter_empty_conv)
  moreover have "(t, st) \<in> set (stages s)"
    using assms(2) by (rule tbl_get_set)
  then have "0 < length (filter (\<lambda>(_, st'). stage_lock st' = stage_lock st) (stages s))"
    by (auto simp: filter_empty_conv)
  ultimately show ?thesis
    unfolding strong_count_def by linarith
qed

text \<open>What \<open>get\<close> finds for a key, and that it keeps the entry of every handler.\<close>

lemma lock_get_cases:
  assumes "locks_ok s"
  obtains kept where "tbl_wf kept" and "\<And>k l. tbl_get kept k = Some l \<Longrightarrow> tbl_get (entries s) k = Some l"
    and "\<And>t st. tbl_get (stages s) t = Some st \<Longrightarrow> tbl_get kept (stage_key st) = Some (stage_lock st)"
    and "lock_get t key s = (case tbl_get kept key of
        Some l \<Rightarrow> s\<lparr>entries := kept, stages := tbl_put t (Waiting key l) (stages s)\<rparr>
      | None \<Rightarrow> s\<lparr>entries := tbl_put key (fresh s) kept, fresh := fresh s + 1,
          stages := tbl_put t (Waiting key (fresh s)) (stages s)\<rparr>)"
proof
  let ?kept = "tbl_keep (\<lambda>_ l. strong_count s l > 1) (entries s)"
  have wf: "tbl_wf (entries s)"
    using assms by (simp add: locks_ok_def)
  then show "tbl_wf ?kept" by (rule tbl_wf_keep)
  show "tbl_get ?kept k = Some l \<Longrightarrow> tbl_get (entries s) k = Some l" for k l
    using wf by (simp add: tbl_get_keep split: option.splits if_splits)
  show "tbl_get ?kept (stage_key st) = Some (stage_lock st)" if "tbl_get (stages s) t = Some st" for t st
    using wf that referenced_kept [OF assms that] assms by (simp add: tbl_get_keep locks_ok_def)
qed (simp only: lock_get_def Let_def)

lemma locks_ok_get:
  assumes ok: "locks_ok s" and new: "tbl_get (stages s) t = None"
  shows "locks_ok (lock_get t key s)"
proof -
  obtain kept where kept: "tbl_wf kept" "\<And>k l. tbl_get kept k = Some l \<Longrightarrow> tbl_get (entries s) k = Some l"
    "\<And>t st. tbl_get (stages s) t = Some st \<Longrightarrow> tbl_get kept (stage_key st) = Some (stage_lock st)"
    and run: "lock_get t key s = (case tbl_get kept key of
        Some l \<Rightarrow> s\<lparr>entries := kept, stages := tbl_put t (Waiting key l) (stages s)\<rparr>
      | None \<Rightarrow> s\<lparr>entries := tbl_put key (fresh s) kept, fresh := fresh s + 1,
          stages := tbl_put t (Waiting key (fresh s)) (stages s)\<rparr>)"
    using lock_get_cases [OF ok] by blast
  have old: "l < fresh s" if "tbl_get kept k = Some l" for k l
    using ok kept(2) [OF that] by (auto simp: locks_ok_def)
  have inj: "k = k'" if "tbl_get kept k = Some l" "tbl_get kept k' = Some l" for k k' l
    using ok kept(2) [OF that(1)] kept(2) [OF that(2)] unfolding locks_ok_def by blast
  have holders: "t = t'" if "tbl_get (stages s) t = Some (Holding k l)" "tbl_get (stages s) t' = Some (Holding k' l)"
    for t t' k k' l
    using ok that unfolding locks_ok_def by blast
  have wf: "tbl_wf (stages s)"
    using ok by (simp add: locks_ok_def)
  show ?thesis
  proof (cases "tbl_get kept key")
    case None
    have "tbl_get (tbl_put key (fresh s) kept) (stage_key st) = Some (stage_lock st)"
      if "tbl_get (stages s) t' = Some st" for t' st
      using kept(3) [OF that] None by (auto simp: sql.get_put)
    then show ?thesis
      unfolding run None using kept(1) wf
      by (auto simp: locks_ok_def sql.wf_put sql.get_put split: if_splits dest: old inj holders)
  next
    case (Some l)
    then show ?thesis
      unfolding run Some using kept(1) wf Some
      by (auto simp: locks_ok_def sql.wf_put sql.get_put split: if_splits dest: old inj holders kept(3))
  qed
qed

lemma locks_ok_step: "lock_step s s' \<Longrightarrow> locks_ok s \<Longrightarrow> locks_ok s'"
proof (induction rule: lock_step.induct)
  case (get s t key)
  then show ?case by (simp add: locks_ok_get)
next
  case (acquire s t key l)
  have "\<nexists>t k. tbl_get (stages s) t = Some (Holding k l)"
    using acquire by (simp add: held_iff locks_ok_def)
  then show ?case
    using acquire stage_entry [OF acquire(3,1)] by (auto simp: locks_ok_def sql.wf_put sql.get_put)
next
  case (unlock s t key l)
  then show ?case
    using stage_entry [OF unlock(2,1)] by (auto simp: locks_ok_def sql.wf_put sql.get_put)
next
  case (leave s t st)
  then show ?case
    by (auto simp: locks_ok_def sql.wf_del sql.get_del)
qed

interpretation locks: transition_invariant "\<lambda>s. s = no_locks" lock_step locks_ok
  by unfold_locales (auto simp: locks_ok_start intro: locks_ok_step)

lemma count_snd: "distinct (map snd xs) \<Longrightarrow> length (filter (\<lambda>(_, l'). l' = l) xs) \<le> 1"
proof (induction xs)
  case (Cons x xs)
  show ?case
  proof (cases "snd x = l")
    case True
    then have "\<forall>y \<in> set xs. snd y \<noteq> l"
      using Cons.prems by (metis distinct.simps(2) image_eqI list.simps(9) set_map)
    then have "filter (\<lambda>(_, l'). l' = l) xs = []"
      by (auto simp: filter_empty_conv)
    then show ?thesis by (cases x) simp
  qed (use Cons in \<open>auto simp: split_beta\<close>)
qed simp

lemma distinct_snd:
  assumes "tbl_wf t" and "\<And>k k' l. tbl_get t k = Some l \<Longrightarrow> tbl_get t k' = Some l \<Longrightarrow> k = k'"
  shows "distinct (map snd t)"
proof -
  have "distinct t"
    using assms(1) by (simp add: tbl_wf_def distinct_map)
  moreover have "inj_on snd (set t)"
    using assms by (auto simp: inj_on_def tbl_get_mem)
  ultimately show ?thesis by (simp add: distinct_map)
qed

section \<open>Properties\<close>

text \<open>
  C8: mutual exclusion.  However handlers start, wait, run, give up and leave, and whatever \<open>get\<close> evicts
  in between, two handlers never hold the lock of one document at the same time.
\<close>

theorem one_handler_per_document:
  assumes "lock_step\<^sup>*\<^sup>* no_locks s"
  shows "length (filter (\<lambda>(_, st). is_Holding st \<and> stage_key st = lock_key v u) (stages s)) \<le> 1"
proof -
  let ?h = "filter (\<lambda>(_, st). is_Holding st \<and> stage_key st = lock_key v u) (stages s)"
  have ok: "locks_ok s"
    by (rule locks.good_reachable [OF refl assms])
  then have wf: "tbl_wf (stages s)"
    by (simp add: locks_ok_def)
  have "a = b" if "a \<in> set ?h" "b \<in> set ?h" for a b
  proof -
    obtain t l t' l' where ab: "a = (t, Holding (lock_key v u) l)" "b = (t', Holding (lock_key v u) l')"
      using \<open>a \<in> set ?h\<close> \<open>b \<in> set ?h\<close> by (auto simp: is_Holding_def)
    then have st: "tbl_get (stages s) t = Some (Holding (lock_key v u) l)"
        "tbl_get (stages s) t' = Some (Holding (lock_key v u) l')"
      using that wf by (auto simp: tbl_get_mem)
    then have "l = l'"
      using stage_entry [OF ok st(1)] stage_entry [OF ok st(2)] by simp
    then show ?thesis
      using ok st ab unfolding locks_ok_def by blast
  qed
  then have "card (set ?h) \<le> Suc 0"
    by (subst card_le_Suc0_iff_eq) auto
  moreover have "distinct ?h"
    using wf by (simp add: tbl_wf_def distinct_map)
  ultimately show ?thesis
    using distinct_card [of ?h] by simp
qed

text \<open>Handler 1 holds the lock of a document while handler 2 waits for it.\<close>

definition contended :: doc_locks where
  "contended = \<lparr>entries = [(lock_key ''v'' ''n'', 0)], fresh = 1,
     stages = [(1, Holding (lock_key ''v'' ''n'') 0), (2, Waiting (lock_key ''v'' ''n'') 0)]\<rparr>"

lemma contended_reachable: "lock_step\<^sup>*\<^sup>* no_locks contended"
proof -
  let ?k = "lock_key ''v'' ''n''"
  let ?s1 = "\<lparr>entries = [(?k, 0)], fresh = 1, stages = [(1, Waiting ?k 0)]\<rparr>"
  let ?s2 = "\<lparr>entries = [(?k, 0)], fresh = 1, stages = [(1, Holding ?k 0)]\<rparr>"
  have "lock_step no_locks ?s1"
    using lock_step.get [of no_locks 1 ?k] by (simp add: lock_get_def no_locks_def tbl_keep_def tbl_put_def)
  moreover have "lock_step ?s1 ?s2"
    using lock_step.acquire [of ?s1 1 ?k 0] by (simp add: held_def tbl_put_def)
  moreover have "lock_step ?s2 contended"
    using lock_step.get [of ?s2 2 ?k]
    by (simp add: lock_get_def contended_def tbl_keep_def tbl_put_def strong_count_def)
  ultimately show ?thesis
    by (meson rtranclp.rtrancl_into_rtrancl rtranclp.rtrancl_refl)
qed

text \<open>
  C38: the table of locks does not grow with the number of documents ever touched: right after a \<open>get\<close>
  it has at most one entry per handler in flight.
\<close>

theorem lock_table_is_bounded:
  assumes "lock_step\<^sup>*\<^sup>* no_locks s" and "tbl_get (stages s) t = None"
  shows "lock_len (lock_get t key s) \<le> length (stages (lock_get t key s))"
proof -
  let ?s = "lock_get t key s"
  let ?kept = "tbl_keep (\<lambda>_ l. strong_count s l > 1) (entries s)"
  have ok: "locks_ok s"
    by (rule locks.good_reachable [OF refl assms(1)])
  have "distinct (map snd (entries s))"
    using ok by (intro distinct_snd) (auto simp: locks_ok_def)
  then have kept: "distinct (map snd ?kept)"
    by (auto simp: tbl_keep_def distinct_map inj_on_def)
  have "l \<in> set (map (\<lambda>(_, st). stage_lock st) (stages s))" if "l \<in> set (map snd ?kept)" for l
  proof -
    have "strong_count s l > 1"
      using that by (auto simp: tbl_keep_def)
    then have "filter (\<lambda>(_, st). stage_lock st = l) (stages s) \<noteq> []"
      using count_snd [OF \<open>distinct (map snd (entries s))\<close>, of l] by (auto simp: strong_count_def)
    then show ?thesis
      by (force simp: filter_empty_conv)
  qed
  then have "set (map snd ?kept) \<subseteq> set (map (\<lambda>(_, st). stage_lock st) (stages s))"
    by blast
  then have "card (set (map snd ?kept)) \<le> card (set (map (\<lambda>(_, st). stage_lock st) (stages s)))"
    by (intro card_mono) simp_all
  also have "\<dots> \<le> length (stages s)"
    using card_length [of "map (\<lambda>(_, st). stage_lock st) (stages s)"] by simp
  finally have "length ?kept \<le> length (stages s)"
    using distinct_card [OF kept] by simp
  then show ?thesis
    using assms(2) by (simp add: lock_len_def lock_get_def Let_def length_tbl_put split: option.split)
qed

theorem one_handler_per_document_witness:
  "length (filter (\<lambda>(_, st). is_Holding st \<and> stage_key st = lock_key ''v'' ''n'') (stages contended)) = 1"
proof -
  have "filter (\<lambda>(_, st). is_Holding st \<and> stage_key st = lock_key ''v'' ''n'') (stages contended) \<noteq> []"
    by (simp add: contended_def)
  then show ?thesis
    using one_handler_per_document [OF contended_reachable, of "''v''" "''n''"]
    by (simp add: le_Suc_eq)
qed

theorem lock_table_is_bounded_witness: "lock_len (lock_get 3 ''v:m'' contended) \<le> 3"
  using lock_table_is_bounded [OF contended_reachable, of 3 "''v:m''"]
  by (simp add: contended_def lock_get_def tbl_keep_def tbl_put_def lock_key_def strong_count_def)

end
