(* ===== verification/Http_Auth.thy ===== *)
theory Http_Auth
  imports Ws Doc_Locks
begin

text \<open>
  The HTTP side of \<open>src/lib.rs\<close>: the bearer-token extractor, the rate limit in front of the
  authentication routes, vault names, \<open>/auth/verify\<close>, the statistics and peer listings, and the
  retirement of a device.  A header is the value \<open>to_str\<close> gives, so visible ASCII.  A handler that
  releases the database mutex and takes it again meets whatever other requests did in between:
  \<open>unlocked g\<close> is such a gap, with an arbitrary \<open>g\<close>.
\<close>

section \<open>State and requests\<close>

record app_config =
  jwt_secret :: string
  admin_token :: string
  trust_proxy :: bool
  default_quota_bytes :: nat
  server_epoch :: string

type_synonym header_map = "string \<Rightarrow> string option"

definition bearer :: "header_map \<Rightarrow> string option" where
  "bearer hdrs = Option.bind (hdrs ''authorization'') (strip_prefix ''Bearer '')"

definition vault_auth :: "jwt_lib \<Rightarrow> app_config \<Rightarrow> nat \<Rightarrow> header_map \<Rightarrow> string result" where
  "vault_auth J st secs hdrs =
     (case bearer hdrs of
        None \<Rightarrow> Inl (Auth ''Missing or invalid Authorization header'')
      | Some token \<Rightarrow> jwt_verify J secs token (jwt_secret st))"

section \<open>Rate limit\<close>

definition rate_key :: "bool \<Rightarrow> header_map \<Rightarrow> string \<Rightarrow> string" where
  "rate_key trust hdrs ip =
     (if trust
      then (case hdrs ''cf-connecting-ip'' of
              None \<Rightarrow> ip
            | Some value \<Rightarrow> (let value = trim value in if value = [] then ip else take 64 value))
      else ip)"

definition check_auth_rate_limit ::
  "app_config \<Rightarrow> string \<Rightarrow> header_map \<Rightarrow> nat \<Rightarrow> windows \<Rightarrow> unit result \<times> windows" where
  "check_auth_rate_limit st ip hdrs now_secs w =
     (case check w (rate_key (trust_proxy st) hdrs ip) now_secs of
        (False, w) \<Rightarrow> (Inl TooManyRequests, w)
      | (True, w) \<Rightarrow> (Inr (), w))"

section \<open>Vault names\<close>

definition valid_vault_id :: "string \<Rightarrow> bool" where
  "valid_vault_id vault_id \<longleftrightarrow> vault_id \<noteq> [] \<and> length vault_id \<le> 64 \<and>
     list_all (\<lambda>b. is_ascii_lowercase b \<or> is_ascii_digit b \<or> b = CHR ''-'' \<or> b = CHR ''_'') vault_id \<and>
     is_ascii_alphanumeric (hd vault_id)"

section \<open>Login and registration\<close>

record auth_request =
  req_vault_id :: string
  req_api_key :: string
  req_admin_token :: "string option"

definition auth_failed :: server_error where
  "auth_failed = Auth ''Authentication failed''"

text \<open>The body is the decoded request or the status of the extractor's rejection.\<close>

definition auth_verify_body :: "argon \<Rightarrow> string \<Rightarrow> jwt_lib \<Rightarrow> app_config \<Rightarrow> nat \<Rightarrow> (nat \<Rightarrow> conn \<Rightarrow> conn) \<Rightarrow>
    nat + auth_request \<Rightarrow> response io" where
  "auth_verify_body A salt J st secs g req =
     (case req of
        Inl rejection \<Rightarrow> ok (json_response rejection (JStr ''invalid JSON body''))
      | Inr rq \<Rightarrow>
          if \<not> valid_vault_id (req_vault_id rq)
          then lift (Inl (Auth (''Invalid vault name (lowercase letters, numbers, hyphens, underscores; '' @
            ''must start with a letter or number)'')))
          else
            and_then (vault_exists (req_vault_id rq)) (\<lambda>exists.
            and_then (unlocked (g 0)) (\<lambda>_.
            and_then (
              if exists then
                and_then (verify_vault A salt (g 1) (req_vault_id rq) (req_api_key rq)) (\<lambda>verified.
                if \<not> verified then lift (Inl auth_failed) else ok ())
              else
                let key = (case req_admin_token rq of None \<Rightarrow> [] | Some k \<Rightarrow> k)
                in if \<not> constant_time_eq key (admin_token st) then lift (Inl auth_failed)
                   else and_then (create_vault A salt (req_vault_id rq) (req_api_key rq)) (\<lambda>created.
                        if created then ok ()
                        else
                          and_then (unlocked (g 2)) (\<lambda>_.
                          and_then (verify_vault A salt (g 3) (req_vault_id rq) (req_api_key rq)) (\<lambda>verified.
                          if \<not> verified then lift (Inl auth_failed) else ok ())))) (\<lambda>_.
            and_then (lift (jwt_sign J secs (req_vault_id rq) (jwt_secret st))) (\<lambda>token.
            ok (json_response 200 (JObj [(''token'', JStr token), (''vault_id'', JStr (req_vault_id rq))])))))))"

definition auth_verify :: "argon \<Rightarrow> string \<Rightarrow> jwt_lib \<Rightarrow> app_config \<Rightarrow> nat \<Rightarrow> (nat \<Rightarrow> conn \<Rightarrow> conn) \<Rightarrow>
    string \<Rightarrow> header_map \<Rightarrow> nat + auth_request \<Rightarrow> windows \<Rightarrow> conn \<Rightarrow> response result \<times> windows \<times> conn" where
  "auth_verify A salt J st secs g ip hdrs req w c =
     (case check_auth_rate_limit st ip hdrs secs w of
        (Inl e, w) \<Rightarrow> (Inl e, w, c)
      | (Inr _, w) \<Rightarrow> (let (r, c) = auth_verify_body A salt J st secs g req c in (r, w, c)))"

section \<open>Health, statistics, peers\<close>

definition health :: "app_config \<Rightarrow> string \<Rightarrow> nat \<Rightarrow> response" where
  "health st version protocol = json_response 200 (JObj [
     (''status'', JStr ''ok''), (''version'', JStr version), (''server_epoch'', JStr (server_epoch st)),
     (''protocol_version'', JInt (int protocol)),
     (''features'', JArr [JStr ''invite'', JStr ''device_keys'', JStr ''blobs''])])"

definition admin_ok :: "app_config \<Rightarrow> header_map \<Rightarrow> bool" where
  "admin_ok st hdrs =
     (case bearer hdrs of Some token \<Rightarrow> constant_time_eq token (admin_token st) | None \<Rightarrow> False)"

definition vault_stats_handler :: "jwt_lib \<Rightarrow> app_config \<Rightarrow> nat \<Rightarrow> header_map \<Rightarrow> vault_stats_row io" where
  "vault_stats_handler J st secs hdrs = and_then (lift (vault_auth J st secs hdrs)) vault_stats"

definition vault_peers_handler :: "jwt_lib \<Rightarrow> app_config \<Rightarrow> nat \<Rightarrow> header_map \<Rightarrow> peer_info list io" where
  "vault_peers_handler J st secs hdrs = and_then (lift (vault_auth J st secs hdrs)) list_peers"

text \<open>The list follows the iteration order of the registry's map.\<close>

definition debug_connections :: "app_config \<Rightarrow> header_map \<Rightarrow> registry \<Rightarrow> response result" where
  "debug_connections st hdrs reg =
     (if \<not> admin_ok st hdrs then Inl (Auth ''Admin token required'')
      else Inr (json_response 200 (JObj [
        (''connections'', JArr (map (\<lambda>(_, i). JObj [
           (''conn_id'', JInt (int (info_conn_id i))), (''vault_id'', JStr (info_vault_id i)),
           (''device_name'', JStr (conn_device_name i)), (''connected_at'', JInt (int (connected_at i)))])
           (connections reg))),
        (''count'', JInt (int (length (connections reg))))])))"

section \<open>Retiring a device\<close>

record retire_query =
  query_vault_id :: "string option"
  query_device_name :: "string option"

text \<open>\<open>Option::filter(|v| !v.is_empty())\<close>.\<close>

definition non_empty :: "string option \<Rightarrow> string option" where
  "non_empty x = (case x of Some [] \<Rightarrow> None | _ \<Rightarrow> x)"

text \<open>The transaction that revokes the key and forgets the peer.\<close>

definition retire_commit :: "string \<Rightarrow> string \<Rightarrow> unit io" where
  "retire_commit vault_id peer_id =
     transaction (
       and_then (exec (\<lambda>t d. d\<lparr>device_keys := (case tbl_get (device_keys d) (vault_id, peer_id) of
           None \<Rightarrow> device_keys d
         | Some r \<Rightarrow> tbl_put (vault_id, peer_id) (r\<lparr>revoked_at := Some t\<rparr>) (device_keys d))\<rparr>)) (\<lambda>_.
       exec (\<lambda>_ d. d\<lparr>peers := tbl_del (vault_id, peer_id) (peers d)\<rparr>)))"

definition retire_peer_handler :: "app_config \<Rightarrow> (nat \<Rightarrow> conn \<Rightarrow> conn) \<Rightarrow> string \<Rightarrow> retire_query \<Rightarrow> header_map \<Rightarrow> response io" where
  "retire_peer_handler st g peer_id q hdrs =
     (if \<not> admin_ok st hdrs then lift (Inl (Auth ''Admin token required''))
      else case non_empty (query_vault_id q) of
        None \<Rightarrow> ok (json_response 400 (error_body ''missing required query parameter: vault_id''))
      | Some vault_id \<Rightarrow>
        (case non_empty (query_device_name q) of
           None \<Rightarrow> ok (json_response 400 (error_body ''missing required query parameter: device_name (confirmation)''))
         | Some name \<Rightarrow>
             and_then (get_peer vault_id peer_id) (\<lambda>found.
             case found of
               None \<Rightarrow> ok (json_response 404 (error_body ''no such peer in this vault''))
             | Some peer \<Rightarrow>
                 if info_device_name peer \<noteq> name
                 then ok (json_response 409 (JObj [
                   (''error'', JStr ''device_name does not match the stored peer; repeat with the exact stored name to confirm''),
                   (''peer_id'', JStr (info_peer_id peer)), (''device_name'', JStr (info_device_name peer)),
                   (''last_seen_at'', JInt (info_last_seen_at peer))]))
                 else
                   and_then (unlocked (g 0)) (\<lambda>_.
                   and_then (count_peer_blocked_tombstones vault_id (info_last_seen_at peer)) (\<lambda>freed.
                   and_then (unlocked (g 1)) (\<lambda>_.
                   and_then (retire_commit vault_id peer_id) (\<lambda>_.
                   ok (json_response 200 (JObj [
                     (''retired_peer'', JObj [
                       (''peer_id'', JStr (info_peer_id peer)), (''device_name'', JStr (info_device_name peer)),
                       (''last_seen_at'', JInt (info_last_seen_at peer))]),
                     (''tombstones_possibly_freed'', JInt (int freed))]))))))))) "

end
