(* ===== verification/Invites.thy ===== *)
theory Invites
  imports Http_Auth
begin

text \<open>
  \<open>src/invites.rs\<close>: random secrets, the invite that an authenticated device mints, its redemption by
  a new device, and the login of a device by its key.  The hash of the invite tokens (SHA-256) is the
  parameter \<open>sha\<close>, the random source is the list of UUIDs it returns, each 16 bytes.  A timestamp in a
  reply is left as a number.
\<close>

section \<open>Random secrets\<close>

text \<open>
  The loop over the bytes of one UUID: bytes 6 and 8 carry the version and variant, and bytes at or
  above the largest multiple of the alphabet's size are skipped.
\<close>

definition usable :: "nat \<Rightarrow> nat \<Rightarrow> byte \<Rightarrow> bool" where
  "usable n i b \<longleftrightarrow> \<not> (i = 6 \<or> i = 8 \<or> unat b \<ge> 256 div n * n)"

fun take_bytes :: "nat \<Rightarrow> string \<Rightarrow> string \<Rightarrow> (nat \<times> byte) list \<Rightarrow> string" where
  "take_bytes len alphabet acc [] = acc"
| "take_bytes len alphabet acc ((i, b) # bs) =
     (if \<not> usable (length alphabet) i b then take_bytes len alphabet acc bs
      else
        let acc = acc @ [alphabet ! (unat b mod length alphabet)]
        in if length acc = len then acc else take_bytes len alphabet acc bs)"

text \<open>The outer loop; \<open>None\<close> when the given UUIDs did not yield enough characters.\<close>

fun random_loop :: "nat \<Rightarrow> string \<Rightarrow> string \<Rightarrow> bytes list \<Rightarrow> string option" where
  "random_loop len alphabet acc uuids =
     (if length acc \<ge> len then Some acc
      else case uuids of
             [] \<Rightarrow> None
           | uuid # rest \<Rightarrow> random_loop len alphabet (take_bytes len alphabet acc (enumerate 0 uuid)) rest)"

definition random_secret :: "nat \<Rightarrow> string \<Rightarrow> bytes list \<Rightarrow> string option" where
  "random_secret len alphabet uuids = random_loop len alphabet [] uuids"

definition INVITE_ALPHABET :: string where
  "INVITE_ALPHABET = ''ABCDEFGHIJKLMNOPQRSTUVWXYZabcdefghijklmnopqrstuvwxyz0123456789_-''"

definition KEY_ALPHABET :: string where
  "KEY_ALPHABET = ''ABCDEFGHIJKLMNOPQRSTUVWXYZabcdefghijklmnopqrstuvwxyz0123456789''"

section \<open>Minting\<close>

definition error_response :: "nat \<Rightarrow> string \<Rightarrow> response" where
  "error_response st message = json_response st (error_body message)"

definition rate_limit :: "app_config \<Rightarrow> string \<Rightarrow> header_map \<Rightarrow> nat \<Rightarrow> (conn \<Rightarrow> response result \<times> conn) \<Rightarrow>
    windows \<Rightarrow> conn \<Rightarrow> response result \<times> windows \<times> conn" where
  "rate_limit st ip hdrs secs handler w c =
     (case check_auth_rate_limit st ip hdrs secs w of
        (Inl e, w) \<Rightarrow> (Inl e, w, c)
      | (Inr _, w) \<Rightarrow> (let (r, c) = handler c in (r, w, c)))"

text \<open>The insert of a row whose \<open>CHECK\<close>s want non-empty texts; ids are never reused (\<open>AUTOINCREMENT\<close>).\<close>

definition insert_invite :: "string \<Rightarrow> string \<Rightarrow> string \<Rightarrow> string option \<Rightarrow> timestamp \<Rightarrow> db \<Rightarrow> string + timestamp \<times> db" where
  "insert_invite vault_id hash inviter name t d =
     (if vault_id = [] \<or> hash = [] \<or> inviter = [] then Inl ''CHECK constraint failed''
      else Inr (t + 900, d\<lparr>invites_seq := invites_seq d + 1,
        invites := tbl_put (invites_seq d + 1)
          \<lparr>invite_vault_id = vault_id, token_hash = hash, inviter_peer_id = inviter, invite_device_name = name,
           invite_created_at = t, expires_at = t + 900, used_at = None\<rparr> (invites d)\<rparr>))"

definition mint_invite :: "(string \<Rightarrow> string) \<Rightarrow> string \<Rightarrow> string \<Rightarrow> string \<Rightarrow> string option \<Rightarrow> (string \<times> timestamp) io" where
  "mint_invite sha invite vault_id inviter name =
     and_then (exec (\<lambda>t d. d\<lparr>invites := tbl_keep (\<lambda>_ r. \<not> (invite_created_at r < t - 86400)) (invites d)\<rparr>)) (\<lambda>_.
     and_then (stmt (insert_invite vault_id (sha invite) inviter name)) (\<lambda>expiry.
     ok (invite, expiry)))"

record invite_request =
  invite_req_peer :: string
  invite_req_device :: "string option"

text \<open>\<open>invite\<close> is the token \<open>random_secret\<close> returned.\<close>

definition create :: "(string \<Rightarrow> string) \<Rightarrow> string \<Rightarrow> jwt_lib \<Rightarrow> app_config \<Rightarrow> nat \<Rightarrow> header_map \<Rightarrow> invite_request \<Rightarrow> response io" where
  "create sha invite J st secs hdrs rq =
     and_then (lift (vault_auth J st secs hdrs)) (\<lambda>vault_id.
     if invite_req_peer rq = [] then ok (error_response 400 ''peer_id must not be empty'')
     else if length (invite_req_peer rq) > MAX_PEER_ID_BYTES \<or>
        (case invite_req_device rq of None \<Rightarrow> False | Some d \<Rightarrow> length d > MAX_PEER_ID_BYTES)
     then ok (error_response 400 ''identifier too long'')
     else
       and_then (mint_invite sha invite vault_id (invite_req_peer rq) (invite_req_device rq)) (\<lambda>(token, expiry).
       ok (json_response 200 (JObj [(''invite'', JStr token), (''vault_id'', JStr vault_id),
         (''expires_at'', JInt expiry)]))))"

section \<open>Redeeming\<close>

record redeem_request =
  redeem_invite :: string
  redeem_peer :: string
  redeem_device :: string

text \<open>The first lock scope: the invite of the last day whose hash is that of the token.\<close>

definition find_invite :: "(string \<Rightarrow> string) \<Rightarrow> string \<Rightarrow> (int \<times> string) option io" where
  "find_invite sha token = query (\<lambda>t d. map_option (\<lambda>(i, r). (i, invite_vault_id r))
     (find (\<lambda>(_, r). invite_created_at r > t - 86400 \<and> token_hash r = sha token) (invites d)))"

datatype redeem_outcome = Redeemed | AlreadyUsed | Expired

text \<open>The second lock scope, one transaction that marks the invite used and stores the key.\<close>

definition mark_used :: "int \<Rightarrow> timestamp \<Rightarrow> db \<Rightarrow> nat \<times> db" where
  "mark_used i t d =
     (case tbl_get (invites d) i of
        Some r \<Rightarrow>
          if used_at r = None \<and> expires_at r > t
          then (1, d\<lparr>invites := tbl_put i (r\<lparr>used_at := Some t\<rparr>) (invites d)\<rparr>)
          else (0, d)
      | None \<Rightarrow> (0, d))"

definition insert_device_key :: "string \<Rightarrow> string \<Rightarrow> string \<Rightarrow> string \<Rightarrow> timestamp \<Rightarrow> db \<Rightarrow> string + unit \<times> db" where
  "insert_device_key vault_id peer_id hash name t d =
     (if vault_id = [] \<or> peer_id = [] \<or> hash = [] then Inl ''CHECK constraint failed''
      else if tbl_get (device_keys d) (vault_id, peer_id) \<noteq> None then Inl ''UNIQUE constraint failed''
      else Inr ((), d\<lparr>device_keys := tbl_put (vault_id, peer_id)
        \<lparr>key_hash = hash, key_device_name = Some name, key_created_at = t, revoked_at = None\<rparr> (device_keys d)\<rparr>))"

definition redeem_commit :: "int \<Rightarrow> string \<Rightarrow> string \<Rightarrow> string \<Rightarrow> string \<Rightarrow> redeem_outcome io" where
  "redeem_commit i vault_id peer_id hash name =
     transaction (
       and_then (stmt (\<lambda>t d. Inr (mark_used i t d))) (\<lambda>updated.
       if updated = 0 then
         and_then (stmt (\<lambda>_ d. case tbl_get (invites d) i of
             None \<Rightarrow> Inl ''Query returned no rows''
           | Some r \<Rightarrow> Inr (used_at r, d))) (\<lambda>used.
         ok (if used \<noteq> None then AlreadyUsed else Expired))
       else
         and_then (stmt (insert_device_key vault_id peer_id hash name)) (\<lambda>_.
         ok Redeemed)))"

definition valid_invite :: "string \<Rightarrow> bool" where
  "valid_invite s \<longleftrightarrow> length s = 22 \<and> list_all (\<lambda>b. is_ascii_alphanumeric b \<or> b = CHR ''_'' \<or> b = CHR ''-'') s"

definition redeem :: "(string \<Rightarrow> string) \<Rightarrow> string \<Rightarrow> argon \<Rightarrow> string \<Rightarrow> jwt_lib \<Rightarrow> app_config \<Rightarrow> nat \<Rightarrow> (conn \<Rightarrow> conn) \<Rightarrow>
    redeem_request \<Rightarrow> response io" where
  "redeem sha device_key A salt J st secs g rq =
     (if \<not> valid_invite (redeem_invite rq) then ok (error_response 401 ''invalid invite'')
      else if redeem_peer rq = [] then ok (error_response 400 ''peer_id must not be empty'')
      else if length (redeem_peer rq) > MAX_PEER_ID_BYTES \<or> length (redeem_device rq) > MAX_PEER_ID_BYTES
      then ok (error_response 400 ''identifier too long'')
      else
        and_then (find_invite sha (redeem_invite rq)) (\<lambda>matched.
        case matched of
          None \<Rightarrow> ok (error_response 401 ''invalid invite'')
        | Some (i, vault_id) \<Rightarrow>
            and_then (lift (hash_secret A salt device_key)) (\<lambda>hash.
            and_then (lift (jwt_sign J secs vault_id (jwt_secret st))) (\<lambda>token.
            and_then (unlocked g) (\<lambda>_.
            and_then (redeem_commit i vault_id (redeem_peer rq) hash (redeem_device rq)) (\<lambda>out.
            ok (case out of
                  AlreadyUsed \<Rightarrow> error_response 409 ''invite already used''
                | Expired \<Rightarrow> error_response 410 ''invite expired''
                | Redeemed \<Rightarrow> json_response 200 (JObj [(''device_key'', JStr device_key),
                    (''token'', JStr token), (''vault_id'', JStr vault_id)]))))))))"

section \<open>Device login\<close>

record device_request =
  device_req_vault :: string
  device_req_peer :: string
  device_req_key :: string

definition active_key :: "string \<Rightarrow> string \<Rightarrow> db \<Rightarrow> string option" where
  "active_key vault_id peer_id d =
     (case tbl_get (device_keys d) (vault_id, peer_id) of
        Some r \<Rightarrow> if revoked_at r = None then Some (key_hash r) else None
      | None \<Rightarrow> None)"

definition ensure_not_revoked :: "string \<Rightarrow> string \<Rightarrow> bool io" where
  "ensure_not_revoked vault_id peer_id = query (\<lambda>_ d. active_key vault_id peer_id d \<noteq> None)"

definition device_auth :: "argon \<Rightarrow> jwt_lib \<Rightarrow> app_config \<Rightarrow> nat \<Rightarrow> (conn \<Rightarrow> conn) \<Rightarrow> device_request \<Rightarrow> response io" where
  "device_auth A J st secs g rq =
     (if length (device_req_peer rq) > MAX_PEER_ID_BYTES
      then ok (error_response 401 ''authentication failed'')
      else
        and_then (query (\<lambda>_. active_key (device_req_vault rq) (device_req_peer rq))) (\<lambda>hash.
        if \<not> (case hash of None \<Rightarrow> False | Some h \<Rightarrow> verify_secret A (device_req_key rq) h)
        then ok (error_response 401 ''authentication failed'')
        else
          and_then (unlocked g) (\<lambda>_.
          and_then (ensure_not_revoked (device_req_vault rq) (device_req_peer rq)) (\<lambda>valid.
          if \<not> valid then ok (error_response 401 ''authentication failed'')
          else
            and_then (lift (jwt_sign J secs (device_req_vault rq) (jwt_secret st))) (\<lambda>token.
            ok (json_response 200 (JObj [(''token'', JStr token)])))))))"

end
