(* ===== verification/Invite_Facts.thy ===== *)
theory Invite_Facts
  imports Invites
begin

text \<open>
  Correctness of the onboarding routes: the random secrets, the invite that can be redeemed once over
  any interleaving of requests, the retired device that never logs in again, and the login that a
  redemption enables.
\<close>

section \<open>Random secrets\<close>

lemma take_bytes_sound:
  assumes "length acc < len" and "alphabet \<noteq> []" and "set acc \<subseteq> set alphabet"
  shows "length (take_bytes len alphabet acc bs) \<le> len \<and> set (take_bytes len alphabet acc bs) \<subseteq> set alphabet"
  using assms
proof (induction len alphabet acc bs rule: take_bytes.induct)
  case (2 len alphabet acc i b bs)
  have "alphabet ! (unat b mod length alphabet) \<in> set alphabet"
    using "2.prems" by (intro nth_mem) simp
  then show ?case
    using 2 by (auto simp: Let_def)
qed simp

declare random_loop.simps [simp del]

lemma random_loop_sound:
  "random_loop len alphabet acc uuids = Some s \<Longrightarrow> length acc \<le> len \<Longrightarrow> alphabet \<noteq> [] \<Longrightarrow>
   set acc \<subseteq> set alphabet \<Longrightarrow> length s = len \<and> set s \<subseteq> set alphabet"
proof (induction uuids arbitrary: acc)
  case Nil
  then show ?case by (subst (asm) random_loop.simps) (simp split: if_splits)
next
  case (Cons u us)
  show ?case
  proof (cases "length acc \<ge> len")
    case True
    with Cons.prems show ?thesis by (subst (asm) random_loop.simps) simp
  next
    case False
    then have "length (take_bytes len alphabet acc (enumerate 0 u)) \<le> len \<and>
        set (take_bytes len alphabet acc (enumerate 0 u)) \<subseteq> set alphabet"
      using Cons.prems by (intro take_bytes_sound) auto
    moreover have "random_loop len alphabet (take_bytes len alphabet acc (enumerate 0 u)) us = Some s"
      using Cons.prems(1) False by (subst (asm) random_loop.simps) simp
    ultimately show ?thesis using Cons.IH Cons.prems(3) by blast
  qed
qed

text \<open>How many characters a list of UUIDs is good for.\<close>

definition usable_bytes :: "nat \<Rightarrow> bytes \<Rightarrow> nat" where
  "usable_bytes n u = length (filter (\<lambda>(i, b). usable n i b) (enumerate 0 u))"

lemma take_bytes_length:
  "length acc < len \<Longrightarrow> length (take_bytes len alphabet acc bs) =
     min len (length acc + length (filter (\<lambda>(i, b). usable (length alphabet) i b) bs))"
  by (induction len alphabet acc bs rule: take_bytes.induct) (auto simp: Let_def min_def)

lemma random_loop_enough:
  "len \<le> length acc + sum_list (map (usable_bytes (length alphabet)) uuids) \<Longrightarrow>
   random_loop len alphabet acc uuids \<noteq> None"
proof (induction uuids arbitrary: acc)
  case Nil
  then show ?case by (subst random_loop.simps) simp
next
  case (Cons u us)
  then show ?case
    by (subst random_loop.simps) (auto simp: take_bytes_length usable_bytes_def min_def)
qed

lemma card_bytes_residue:
  assumes "0 < n" and "n \<le> 256" and "i < n"
  shows "card {b :: byte. unat b < 256 div n * n \<and> unat b mod n = i} = 256 div n"
proof -
  let ?f = "\<lambda>q. word_of_nat (q * n + i) :: byte"
  have small: "q * n + i < 256" if "q < 256 div n" for q
  proof -
    have "q * n + i < (q + 1) * n" using assms(3) by simp
    also have "\<dots> \<le> 256 div n * n" using that by (intro mult_right_mono) auto
    also have "\<dots> \<le> 256" by simp
    finally show ?thesis .
  qed
  then have unat: "unat (?f q) = q * n + i" if "q < 256 div n" for q
    using small [OF that] by (simp only: unat_of_nat) simp
  have "{b :: byte. unat b < 256 div n * n \<and> unat b mod n = i} = ?f ` {..<256 div n}"
  proof (intro equalityI subsetI)
    fix b :: byte
    assume b: "b \<in> {b. unat b < 256 div n * n \<and> unat b mod n = i}"
    then have "unat b = unat b div n * n + i" by (metis (mono_tags) div_mult_mod_eq mem_Collect_eq)
    moreover have "unat b div n < 256 div n" using b assms(1) by (simp add: less_mult_imp_div_less)
    ultimately have "unat b = unat (?f (unat b div n))" using unat [of "unat b div n"] by metis
    then have "b = ?f (unat b div n)" by (simp only: word_unat_eq_iff)
    then show "b \<in> ?f ` {..<256 div n}" using \<open>unat b div n < 256 div n\<close> by blast
  next
    fix b
    assume "b \<in> ?f ` {..<256 div n}"
    then obtain q where q: "q < 256 div n" "b = ?f q" by blast
    have "q * n + i < 256 div n * n"
    proof -
      have "q * n + i < (q + 1) * n" using assms(3) by simp
      also have "\<dots> \<le> 256 div n * n" using q(1) by (intro mult_right_mono) auto
      finally show ?thesis .
    qed
    then show "b \<in> {b. unat b < 256 div n * n \<and> unat b mod n = i}"
      using q unat assms(3) by simp
  qed
  moreover have "inj_on ?f {..<256 div n}"
  proof (rule inj_onI)
    fix p q
    assume "p \<in> {..<256 div n}" "q \<in> {..<256 div n}" "?f p = ?f q"
    then have "p * n + i = q * n + i" using unat by (metis lessThan_iff)
    then show "p = q" using assms(1) by simp
  qed
  ultimately show ?thesis by (simp add: card_image)
qed


lemma random_secret_example: "random_secret 2 ''ab'' [[0, 1, 255]] = Some ''ab''"
  by code_simp


section \<open>Runs of the onboarding tables\<close>

definition auth_tables :: "db \<Rightarrow> (int, invite_row) table \<times> int \<times> (string \<times> string, device_key_row) table" where
  "auth_tables d = (invites d, invites_seq d, device_keys d)"

text \<open>
  The lock scopes that write these tables, in any order, with anything else in between that leaves
  them alone.  A redemption is its second scope; whatever happened between its two scopes is part of
  the run.
\<close>

inductive auth_step :: "conn \<Rightarrow> conn \<Rightarrow> bool" where
  mint: "mint_invite sha invite v p n c = (r, c') \<Longrightarrow> auth_step c c'"
| redeem: "redeem_commit i v p hash n c = (r', c') \<Longrightarrow> auth_step c c'"
| retire: "retire_commit v p c = (r'', c') \<Longrightarrow> auth_step c c'"
| elsewhere: "auth_tables (tables c') = auth_tables (tables c) \<Longrightarrow> auth_step c c'"

definition auth_ok :: "db \<Rightarrow> bool" where
  "auth_ok d \<longleftrightarrow> tbl_wf (invites d) \<and> tbl_wf (device_keys d) \<and>
     (\<forall>i. invites_seq d < i \<longrightarrow> tbl_get (invites d) i = None)"

text \<open>An invite that can no longer be redeemed, and a key that can no longer log in.\<close>

definition spent_invite :: "int \<Rightarrow> db \<Rightarrow> bool" where
  "spent_invite i d \<longleftrightarrow> i \<le> invites_seq d \<and>
     (case tbl_get (invites d) i of None \<Rightarrow> True | Some r \<Rightarrow> used_at r \<noteq> None)"

definition revoked_key :: "string \<Rightarrow> string \<Rightarrow> db \<Rightarrow> bool" where
  "revoked_key v p d \<longleftrightarrow> (case tbl_get (device_keys d) (v, p) of None \<Rightarrow> False | Some r \<Rightarrow> revoked_at r \<noteq> None)"

text \<open>What a scope keeps of the three: one lemma per scope, over all outcomes.\<close>

lemma mint_keeps:
  assumes "\<And>t d. P d \<Longrightarrow> P (d\<lparr>invites := tbl_keep (\<lambda>_ r. \<not> (invite_created_at r < t - 86400)) (invites d)\<rparr>)"
    and "\<And>t d e d'. P d \<Longrightarrow> insert_invite v (sha invite) p n t d = Inr (e, d') \<Longrightarrow> P d'"
  shows "keeps P (mint_invite sha invite v p n)"
  unfolding mint_invite_def using assms
  by (intro keeps_and_then keeps_exec keeps_stmt keeps_ok) blast+

lemma redeem_keeps:
  assumes "\<And>t d. P d \<Longrightarrow> P (snd (mark_used i t d))"
    and "\<And>t d d'. P d \<Longrightarrow> insert_device_key v p hash n t d = Inr ((), d') \<Longrightarrow> P d'"
  shows "keeps P (redeem_commit i v p hash n)"
  unfolding redeem_commit_def
proof (intro keeps_transaction keeps_and_then keeps_if keeps_ok)
  show "keeps P (stmt (\<lambda>t d. Inr (mark_used i t d)))"
    using assms(1) by (intro keeps_stmt) (metis Inr_inject snd_conv)
  show "keeps P (stmt (\<lambda>_ d. case tbl_get (invites d) i of None \<Rightarrow> Inl ''Query returned no rows''
       | Some r \<Rightarrow> Inr (used_at r, d)))"
    by (intro keeps_stmt) (auto split: option.splits)
  show "keeps P (stmt (insert_device_key v p hash n))"
    using assms(2) by (intro keeps_stmt) simp
qed

lemma retire_keeps:
  assumes "\<And>t d. P d \<Longrightarrow> P (d\<lparr>device_keys := (case tbl_get (device_keys d) (v, p) of
       None \<Rightarrow> device_keys d | Some r \<Rightarrow> tbl_put (v, p) (r\<lparr>revoked_at := Some t\<rparr>) (device_keys d))\<rparr>)"
    and "\<And>d. P d \<Longrightarrow> P (d\<lparr>peers := tbl_del (v, p) (peers d)\<rparr>)"
  shows "keeps P (retire_commit v p)"
  unfolding retire_commit_def using assms
  by (intro keeps_transaction keeps_and_then keeps_exec) blast+

lemmas auth_defs = auth_ok_def spent_invite_def revoked_key_def insert_invite_def mark_used_def
  insert_device_key_def

lemma keep_None: "tbl_get t k = None \<Longrightarrow> tbl_get (tbl_keep P t) k = None"
  by (auto simp: tbl_get_def tbl_keep_def map_of_eq_None_iff)

lemma auth_step_ok: "auth_step c c' \<Longrightarrow> auth_ok (tables c) \<Longrightarrow> auth_ok (tables c')"
proof (induction rule: auth_step.induct)
  case (mint sha invite v p n c r c')
  have "keeps auth_ok (mint_invite sha invite v p n)"
    by (rule mint_keeps) (auto simp: auth_defs tbl_wf_keep keep_None sql.wf_put sql.get_put split: if_splits)
  then show ?case using mint by (rule keepsD)
next
  case (redeem i v p hash n c r' c')
  have "keeps auth_ok (redeem_commit i v p hash n)"
    by (rule redeem_keeps) (auto simp: auth_defs sql.wf_put sql.get_put split: if_splits option.splits)
  then show ?case using redeem by (rule keepsD)
next
  case (retire v p c r'' c')
  have "keeps auth_ok (retire_commit v p)"
    by (rule retire_keeps) (auto simp: auth_defs sql.wf_put split: option.splits)
  then show ?case using retire by (rule keepsD)
qed (simp add: auth_ok_def auth_tables_def)

lemma auth_step_spent:
  "auth_step c c' \<Longrightarrow> auth_ok (tables c) \<and> spent_invite i (tables c) \<Longrightarrow>
   auth_ok (tables c') \<and> spent_invite i (tables c')"
proof (induction rule: auth_step.induct)
  case (mint sha invite v p n c r c')
  have "keeps (\<lambda>d. auth_ok d \<and> spent_invite i d) (mint_invite sha invite v p n)"
    by (rule mint_keeps) (auto simp: auth_defs tbl_wf_keep keep_None tbl_get_keep sql.wf_put sql.get_put
        split: if_splits option.splits)
  then show ?case using mint by (rule keepsD)
next
  case (redeem j v p hash n c r' c')
  have "keeps (\<lambda>d. auth_ok d \<and> spent_invite i d) (redeem_commit j v p hash n)"
    by (rule redeem_keeps) (auto simp: auth_defs sql.wf_put sql.get_put split: if_splits option.splits)
  then show ?case using redeem by (rule keepsD)
next
  case (retire v p c r'' c')
  have "keeps (\<lambda>d. auth_ok d \<and> spent_invite i d) (retire_commit v p)"
    by (rule retire_keeps) (auto simp: auth_defs sql.wf_put split: option.splits)
  then show ?case using retire by (rule keepsD)
qed (simp add: auth_ok_def spent_invite_def auth_tables_def)

lemma auth_step_revoked: "auth_step c c' \<Longrightarrow> revoked_key v p (tables c) \<Longrightarrow> revoked_key v p (tables c')"
proof (induction rule: auth_step.induct)
  case (mint sha invite w q n c r c')
  have "keeps (revoked_key v p) (mint_invite sha invite w q n)"
    by (rule mint_keeps) (auto simp: auth_defs split: if_splits)
  then show ?case using mint by (rule keepsD)
next
  case (redeem j w q hash n c r' c')
  have "keeps (revoked_key v p) (redeem_commit j w q hash n)"
    by (rule redeem_keeps) (auto simp: auth_defs sql.get_put split: if_splits option.splits)
  then show ?case using redeem by (rule keepsD)
next
  case (retire w q c r'' c')
  have "keeps (revoked_key v p) (retire_commit w q)"
    by (rule retire_keeps) (auto simp: auth_defs sql.get_put split: if_splits option.splits)
  then show ?case using retire by (rule keepsD)
qed (simp add: revoked_key_def auth_tables_def)

lemma auth_ok_empty: "auth_ok empty_db"
  by (simp add: auth_ok_def empty_db_def)

interpretation onboarding: transition_invariant "\<lambda>c. tables c = empty_db" auth_step "\<lambda>c. auth_ok (tables c)"
  by unfold_locales (simp add: auth_ok_empty, rule auth_step_ok)

lemma run_spent:
  "auth_step\<^sup>*\<^sup>* c c' \<Longrightarrow> auth_ok (tables c) \<and> spent_invite i (tables c) \<Longrightarrow>
   auth_ok (tables c') \<and> spent_invite i (tables c')"
proof (induction rule: rtranclp_induct)
  case (step y z)
  from step.hyps(2) step.IH [OF step.prems] show ?case by (rule auth_step_spent)
qed

lemma run_revoked: "auth_step\<^sup>*\<^sup>* c c' \<Longrightarrow> revoked_key v p (tables c) \<Longrightarrow> revoked_key v p (tables c')"
  by (induction rule: rtranclp_induct) (auto dest: auth_step_revoked)

section \<open>Redemption\<close>

lemma redeem_commit_Inr:
  assumes "redeem_commit i v p hash n c = (Inr out, c')"
  shows "case tbl_get (invites (tables c)) i of
      None \<Rightarrow> False
    | Some r \<Rightarrow>
        if used_at r = None \<and> expires_at r > now c
        then out = Redeemed \<and> tbl_get (device_keys (tables c)) (v, p) = None \<and> v \<noteq> [] \<and> p \<noteq> [] \<and> hash \<noteq> [] \<and>
          tables c' = (tables c)\<lparr>invites := tbl_put i (r\<lparr>used_at := Some (now c)\<rparr>) (invites (tables c)),
            device_keys := tbl_put (v, p) \<lparr>key_hash = hash, key_device_name = Some n, key_created_at = now c,
              revoked_at = None\<rparr> (device_keys (tables c))\<rparr>
        else out = (if used_at r \<noteq> None then AlreadyUsed else Expired) \<and> tables c' = tables c"
  using assms unfolding redeem_commit_def
  by (auto dest!: transaction_Inr simp: and_then_Inr stmt_Inr mark_used_def insert_device_key_def
      split: option.splits if_splits)

lemma redeem_commit_Inl: "redeem_commit i v p hash n c = (Inl e, c') \<Longrightarrow> tables c' = tables c"
  unfolding redeem_commit_def by (rule transaction_Inl)

text \<open>
  C24: an invite is redeemed at most once.  After a redemption of an invite has committed, whatever
  mints, redemptions, retirements and other requests follow in whatever order, no further redemption
  of that invite commits; it is refused as used (or fails), and changes nothing.
\<close>

theorem invite_is_redeemed_once:
  assumes "tables c0 = empty_db" and "auth_step\<^sup>*\<^sup>* c0 c"
    and "redeem_commit i v p hash n c = (Inr Redeemed, c1)"
    and "auth_step\<^sup>*\<^sup>* c1 c2"
    and "redeem_commit i v' p' hash' n' c2 = (out, c3)"
  shows "out \<noteq> Inr Redeemed \<and> out \<noteq> Inr Expired \<and> tables c3 = tables c2"
proof -
  have ok: "auth_ok (tables c)"
    using assms(1,2) by (rule onboarding.good_reachable)
  obtain r where r: "tbl_get (invites (tables c)) i = Some r"
    and c1: "tables c1 = (tables c)\<lparr>invites := tbl_put i (r\<lparr>used_at := Some (now c)\<rparr>) (invites (tables c)),
            device_keys := tbl_put (v, p) \<lparr>key_hash = hash, key_device_name = Some n, key_created_at = now c,
              revoked_at = None\<rparr> (device_keys (tables c))\<rparr>"
    using redeem_commit_Inr [OF assms(3)] by (auto split: option.splits if_splits)
  have "i \<le> invites_seq (tables c)"
    using ok r unfolding auth_ok_def by (metis not_le option.distinct(1))
  then have "spent_invite i (tables c1)"
    by (simp add: spent_invite_def c1 sql.get_put)
  moreover have "auth_ok (tables c1)"
    using auth_step.redeem [OF assms(3)] ok by (rule auth_step_ok)
  ultimately have "spent_invite i (tables c2)"
    using run_spent [OF assms(4)] by blast
  then show ?thesis
    using assms(5) redeem_commit_Inl [of i v' p' hash' n' c2 _ c3]
    by (cases out) (auto simp: spent_invite_def dest!: redeem_commit_Inr split: option.splits if_splits)
qed

section \<open>Device keys\<close>

lemma retire_commit_Inr: "retire_commit v p c = (Inr (), c') \<Longrightarrow>
    tables c' = (tables c)\<lparr>device_keys := (case tbl_get (device_keys (tables c)) (v, p) of
       None \<Rightarrow> device_keys (tables c)
     | Some r \<Rightarrow> tbl_put (v, p) (r\<lparr>revoked_at := Some (now c)\<rparr>) (device_keys (tables c))),
     peers := tbl_del (v, p) (peers (tables c))\<rparr>"
  unfolding retire_commit_def by (auto dest!: transaction_Inr exec_Inr simp: and_then_Inr cong: option.case_cong)

lemma revoked_no_key: "revoked_key v p d \<Longrightarrow> active_key v p d = None"
  by (auto simp: revoked_key_def active_key_def split: option.splits)


text \<open>
  A device gets a token only for the vault it asks for, only with a key that verifies against the
  active key read first, and only if the key was still active when it was read again after the slow
  verification: a retirement that committed in between is not missed.
\<close>

theorem device_token_needs_active_key:
  assumes "device_auth A J st secs g rq c = (Inr resp, c')" and "status resp = 200"
  shows "\<exists>hash c1. active_key (device_req_vault rq) (device_req_peer rq) (tables c) = Some hash \<and>
    verify_secret A (device_req_key rq) hash \<and> tables c1 = tables c \<and>
    active_key (device_req_vault rq) (device_req_peer rq) (tables (g c1)) \<noteq> None \<and>
    (\<exists>token. jwt_sign J secs (device_req_vault rq) (jwt_secret st) = Inr token \<and>
       resp = json_response 200 (JObj [(''token'', JStr token)]))"
proof (cases "length (device_req_peer rq) > MAX_PEER_ID_BYTES")
  case True
  then show ?thesis
    using assms by (auto simp: device_auth_def error_response_def json_response_def)
next
  case False
  let ?ak = "active_key (device_req_vault rq) (device_req_peer rq)"
  obtain hash c1 where h: "?ak (tables c) = hash" and c1: "tables c1 = tables c"
    and rest: "(if \<not> (case hash of None \<Rightarrow> False | Some h \<Rightarrow> verify_secret A (device_req_key rq) h)
        then ok (error_response 401 ''authentication failed'')
        else and_then (unlocked g) (\<lambda>_.
          and_then (ensure_not_revoked (device_req_vault rq) (device_req_peer rq)) (\<lambda>valid.
          if \<not> valid then ok (error_response 401 ''authentication failed'')
          else and_then (lift (jwt_sign J secs (device_req_vault rq) (jwt_secret st))) (\<lambda>token.
            ok (json_response 200 (JObj [(''token'', JStr token)])))))) c1 = (Inr resp, c')"
    using assms(1) False by (auto simp: device_auth_def and_then_Inr [where m = "query _"] dest!: query_Inr)
  have no401: "resp \<noteq> error_response 401 ''authentication failed''"
    using assms(2) by (auto simp: error_response_def json_response_def)
  obtain h where h': "hash = Some h" "verify_secret A (device_req_key rq) h"
    using rest no401 by (cases hash) (auto split: if_splits)
  with rest no401 show ?thesis
    using h c1 by (intro exI [of _ h] exI [of _ c1])
      (auto simp: and_then_Inr ensure_not_revoked_def split: if_splits dest!: query_Inr)
qed

end
