(* ===== verification/Invite_Witnesses.thy ===== *)
theory Invite_Witnesses
  imports Invite_Facts
begin

text \<open>
  An executable Argon2 and JWT stand-in, and an invite minted, redeemed by a phone that is later
  retired.
\<close>

section \<open>Stand-ins\<close>

text \<open>The PHC string is the password behind its prefix; a token is the vault behind the secret.\<close>

definition toy_argon :: argon where
  "toy_argon =
     \<lparr>hash_password = (\<lambda>salt p. Inr (''$argon2id$'' @ p)),
      phc_parses = (\<lambda>h. starts_with h ''$argon2id$''),
      verify_password = (\<lambda>p h. h = ''$argon2id$'' @ p)\<rparr>"

definition toy_jwt :: jwt_lib where
  "toy_jwt =
     \<lparr>encode = (\<lambda>cl secret. Inr (secret @ '':'' @ sub cl)),
      decode = (\<lambda>token secret t. case strip_prefix (secret @ '':'') token of
          None \<Rightarrow> Inl ''InvalidSignature'' | Some v \<Rightarrow> Inr \<lparr>sub = v, exp = t\<rparr>)\<rparr>"

definition toy_config :: app_config where
  "toy_config = \<lparr>jwt_secret = ''s3cret'', admin_token = ''root'', trust_proxy = False,
     default_quota_bytes = 1000, server_epoch = ''e''\<rparr>"

section \<open>A run\<close>

definition fresh_conn :: conn where "fresh_conn = \<lparr>tables = empty_db, faults = [], now = 1000\<rparr>"

definition minted :: conn where
  "minted = snd (mint_invite (\<lambda>x. x) ''t'' ''v'' ''laptop'' None fresh_conn)"

definition joined :: conn where
  "joined = snd (redeem_commit 1 ''v'' ''phone'' ''$argon2id$k'' ''Phone'' minted)"

definition retired :: conn where
  "retired = snd (retire_commit ''v'' ''phone'' joined)"

definition phone_login :: device_request where
  "phone_login = \<lparr>device_req_vault = ''v'', device_req_peer = ''phone'', device_req_key = ''k''\<rparr>"

lemma minted_step: "auth_step fresh_conn minted"
  unfolding minted_def by (rule auth_step.mint [OF prod.collapse [symmetric]])

lemma joined_run: "redeem_commit 1 ''v'' ''phone'' ''$argon2id$k'' ''Phone'' minted = (Inr Redeemed, joined)"
proof -
  have "fst (redeem_commit 1 ''v'' ''phone'' ''$argon2id$k'' ''Phone'' minted) = Inr Redeemed"
    by code_simp
  then show ?thesis by (simp add: joined_def prod_eq_iff)
qed

lemma retired_run: "retire_commit ''v'' ''phone'' joined = (Inr (), retired)"
proof -
  have "fst (retire_commit ''v'' ''phone'' joined) = Inr ()"
    by code_simp
  then show ?thesis by (simp add: retired_def prod_eq_iff)
qed

section \<open>Witnesses\<close>

theorem invite_is_redeemed_once_witness:
  "fst (redeem_commit 1 ''v'' ''thief'' ''h'' ''Thief'' joined) \<noteq> Inr Redeemed"
proof -
  have run: "auth_step\<^sup>*\<^sup>* fresh_conn minted" and none: "auth_step\<^sup>*\<^sup>* joined joined"
    using minted_step by auto
  show ?thesis
    using invite_is_redeemed_once [OF _ run joined_run none prod.collapse [symmetric], of "''v''" "''thief''" "''h''" "''Thief''"]
    by (simp add: fresh_conn_def)
qed


theorem device_token_needs_active_key_witness:
  "active_key ''v'' ''phone'' (tables joined) \<noteq> None"
proof -
  have "status (projr (fst (device_auth toy_argon toy_jwt toy_config 5 (\<lambda>c. c) phone_login joined))) = 200 \<and>
      \<not> isl (fst (device_auth toy_argon toy_jwt toy_config 5 (\<lambda>c. c) phone_login joined))"
    by code_simp
  then obtain resp where "device_auth toy_argon toy_jwt toy_config 5 (\<lambda>c. c) phone_login joined =
      (Inr resp, snd (device_auth toy_argon toy_jwt toy_config 5 (\<lambda>c. c) phone_login joined))" "status resp = 200"
    by (cases "fst (device_auth toy_argon toy_jwt toy_config 5 (\<lambda>c. c) phone_login joined)")
      (auto simp: prod_eq_iff)
  from device_token_needs_active_key [OF this] show ?thesis
    by (auto simp: phone_login_def)
qed

end
