(* ===== verification/Session_Witnesses.thy ===== *)
theory Session_Witnesses
  imports Ws_Sessions Ws_Witnesses Invite_Witnesses
begin

text \<open>A phone connects and is told of a change of a path by the HTTP lane.\<close>

definition hello :: "bytes \<Rightarrow> string + client_msg" where
  "hello data = (if data = [9] then Inr (AuthMsg ''s3cret:v'' PROTOCOL_VERSION [''blobs'']) else Inl [])"

definition phone_arrived :: sockets where
  "phone_arrived = \<lparr>socket_db = conn0,
     socket_registry = \<lparr>conn_counter = 1, connections = [(0, \<lparr>info_conn_id = 0, info_vault_id = ''v'', conn_device_name = ''phone'', connected_at = 5\<rparr>)]\<rparr>,
     live = [(0, joining 0 ''v'' [''blobs''])], channel_log = []\<rparr>"

definition phone_live :: live_session where
  "phone_live = (joining 0 ''v'' [''blobs''])\<lparr>subscribed := True\<rparr>"

definition phone_told :: sockets where
  "phone_told = phone_arrived\<lparr>live := [(0, phone_live\<lparr>forwarded := [BlobPathChanged ''k'' 1]\<rparr>)], channel_log := [BlobPathEvent ''v'' ''k'' 1]\<rparr>"

lemma hello_accepted: "handshake toy_jwt 5 ''s3cret'' hello as_is True (BinaryFrame [9]) = Accepted ''v'' [''blobs''] []"
  by code_simp

abbreviation toy_socket_step :: "sockets \<Rightarrow> sockets \<Rightarrow> bool" where
  "toy_socket_step \<equiv> socket_step toy_jwt ''s3cret'' toy_libs hello as_is"

lemma phone_run: "toy_socket_step\<^sup>*\<^sup>* (no_sockets conn0) phone_told"
proof -
  have "arrive toy_jwt 5 ''s3cret'' hello as_is True (BinaryFrame [9]) ''phone'' (no_sockets conn0) = phone_arrived"
    by (simp add: arrive_def hello_accepted next_conn_id_def no_sockets_def register_def phone_arrived_def tbl_put_def)
  then have "toy_socket_step (no_sockets conn0) phone_arrived"
    using socket_step.arrive [of "no_sockets conn0" toy_jwt "''s3cret''" toy_libs hello as_is 5 True "BinaryFrame [9]" "''phone''"]
    by (simp add: no_sockets_def)
  moreover have "toy_socket_step phone_arrived (phone_arrived\<lparr>live := [(0, phone_live)]\<rparr>)"
    using socket_step.subscribe [of phone_arrived 0 "joining 0 ''v'' [''blobs'']" toy_jwt "''s3cret''" toy_libs hello as_is "[]" "''phone''"]
    by (simp add: phone_arrived_def subscribe_def remember_peer_def joining_def phone_live_def tbl_put_def)
  moreover have "toy_socket_step (phone_arrived\<lparr>live := [(0, phone_live)]\<rparr>)
      (phone_arrived\<lparr>live := [(0, phone_live\<lparr>unread := [BlobPathEvent ''v'' ''k'' 1]\<rparr>)], channel_log := [BlobPathEvent ''v'' ''k'' 1]\<rparr>)"
    using socket_step.http [of toy_jwt "''s3cret''" toy_libs hello as_is "phone_arrived\<lparr>live := [(0, phone_live)]\<rparr>" "''v''" "''k''" 1 conn0]
    by (simp add: publish_def offer_event_def phone_arrived_def phone_live_def joining_def)
  moreover have "toy_socket_step
      (phone_arrived\<lparr>live := [(0, phone_live\<lparr>unread := [BlobPathEvent ''v'' ''k'' 1]\<rparr>)], channel_log := [BlobPathEvent ''v'' ''k'' 1]\<rparr>) phone_told"
    using socket_step.forward [of "phone_arrived\<lparr>live := [(0, phone_live\<lparr>unread := [BlobPathEvent ''v'' ''k'' 1]\<rparr>)],
        channel_log := [BlobPathEvent ''v'' ''k'' 1]\<rparr>" 0 _ toy_jwt "''s3cret''" toy_libs hello as_is True]
    by (simp add: forward_turn_def phone_arrived_def phone_live_def phone_told_def joining_def open_conn_def tbl_put_def)
  ultimately show ?thesis
    by (meson converse_rtranclp_into_rtranclp rtranclp.rtrancl_refl)
qed

theorem live_sessions_miss_nothing_witness:
  "[BlobPathChanged ''k'' 1] = List.map_filter (forward (session_conn phone_live)) (channel_log phone_told)"
proof -
  let ?x = "phone_live\<lparr>forwarded := [BlobPathChanged ''k'' 1]\<rparr>"
  have x: "tbl_get (live phone_told) 0 = Some ?x" "subscribed ?x"
    by (simp_all add: phone_told_def phone_live_def)
  from live_sessions_miss_nothing [OF phone_run x, of True] show ?thesis
    by (simp add: phone_live_def joining_def map_filter_simps)
qed

theorem sessions_hear_only_their_vault_witness:
  "\<exists>e \<in> set (channel_log phone_told). event_vault e = ''v'' \<and> event_sender e \<noteq> Some 0"
proof -
  let ?x = "phone_live\<lparr>forwarded := [BlobPathChanged ''k'' 1]\<rparr>"
  have x: "tbl_get (live phone_told) 0 = Some ?x" "BlobPathChanged ''k'' 1 \<in> set (forwarded ?x)"
    by (simp_all add: phone_told_def)
  from sessions_hear_only_their_vault [OF phone_run x] show ?thesis
    by (auto simp: phone_live_def joining_def open_conn_def)
qed

end
