(* ===== verification/Blob_Paths.thy ===== *)
theory Blob_Paths
  imports Errors
begin

text \<open>
  The pure part of \<open>src/blobs.rs\<close>: size caps, content hashes, the SVG checks, the rules for path keys,
  the file names, and the two range headers.  \<open>svg_hush\<close> is the parameter \<open>filter_svg\<close>.
\<close>

section \<open>Constants\<close>

definition SEGMENT_BYTES :: nat where "SEGMENT_BYTES = 4 * 1024 * 1024"
definition SEGMENT_BODY_GUARD :: nat where "SEGMENT_BODY_GUARD = SEGMENT_BYTES + 4 * 1024"
definition IMAGE_CAP :: nat where "IMAGE_CAP = 10 * 1024 * 1024"
definition PDF_CAP :: nat where "PDF_CAP = 10 * 1024 * 1024"
definition AUDIO_CAP :: nat where "AUDIO_CAP = 25 * 1024 * 1024"
definition OBSIDIAN_CAP :: nat where "OBSIDIAN_CAP = 2 * 1024 * 1024"
definition ABSOLUTE_MAX :: nat where "ABSOLUTE_MAX = AUDIO_CAP"
definition MAX_OPEN_UPLOADS :: nat where "MAX_OPEN_UPLOADS = 4"
definition KEY_MAX_BYTES :: nat where "KEY_MAX_BYTES = 1024"

lemmas blob_consts = SEGMENT_BYTES_def SEGMENT_BODY_GUARD_def IMAGE_CAP_def PDF_CAP_def AUDIO_CAP_def
  OBSIDIAN_CAP_def ABSOLUTE_MAX_def MAX_OPEN_UPLOADS_def KEY_MAX_BYTES_def

definition is_hash :: "string \<Rightarrow> bool" where
  "is_hash s \<longleftrightarrow> length s = 64 \<and> list_all (\<lambda>b. is_ascii_digit b \<or> 97 \<le> code b \<and> code b \<le> 102) s"

definition type_cap_for_ext :: "string \<Rightarrow> nat option" where
  "type_cap_for_ext ext =
     (if ext \<in> {''jpg'', ''jpeg'', ''png'', ''webp'', ''gif'', ''heic'', ''heif'', ''avif'', ''svg''} then Some IMAGE_CAP
      else if ext = ''pdf'' then Some PDF_CAP
      else if ext \<in> {''mp3'', ''m4a'', ''ogg'', ''oga'', ''opus'', ''flac'', ''wav'', ''webm'', ''3gp''} then Some AUDIO_CAP
      else None)"

section \<open>SVG\<close>

text \<open>\<open>svg_filter_output\<close> is \<open>filter_svg\<close>; a document is accepted only if the filter leaves it as it is.\<close>

definition svg_at_fixpoint :: "(bytes \<Rightarrow> string + bytes) \<Rightarrow> bytes \<Rightarrow> string + bool" where
  "svg_at_fixpoint filter_svg bytes = (case filter_svg bytes of Inl e \<Rightarrow> Inl e | Inr out \<Rightarrow> Inr (out = bytes))"

definition is_ascii_whitespace :: "byte \<Rightarrow> bool" where
  "is_ascii_whitespace b \<longleftrightarrow> b = 32 \<or> b = 9 \<or> b = 10 \<or> b = 12 \<or> b = 13"

text \<open>The scan of the window for \<open><svg\<close> and a delimiter.\<close>

fun has_svg_tag :: "bytes \<Rightarrow> bool" where
  "has_svg_tag [] = False"
| "has_svg_tag (b # bs) =
     ((length (b # bs) \<ge> 5 \<and> take 4 (b # bs) = [60, 115, 118, 103] \<and>
       (b # bs) ! 4 \<in> {32, 62, 47, 9, 10, 13}) \<or> has_svg_tag bs)"

definition looks_like_svg :: "bytes \<Rightarrow> bool" where
  "looks_like_svg bytes =
     (let rest = dropWhile is_ascii_whitespace
            (if take 3 bytes = [0xEF, 0xBB, 0xBF] then drop 3 bytes else bytes)
      in case rest of
           [] \<Rightarrow> False
         | b # _ \<Rightarrow> if b \<noteq> 60 then False else has_svg_tag (take 4096 bytes))"

definition svg_fixpoint_error :: "(bytes \<Rightarrow> string + bytes) \<Rightarrow> bytes \<Rightarrow> string option" where
  "svg_fixpoint_error filter_svg bytes =
     (case svg_at_fixpoint filter_svg bytes of
        Inr True \<Rightarrow> None
      | Inr False \<Rightarrow> Some ''svg_not_sanitized''
      | Inl _ \<Rightarrow> Some ''svg_invalid'')"

section \<open>Path keys\<close>

definition last_extension :: "string \<Rightarrow> string option" where
  "last_extension name =
     (case rsplit_once CHR ''.'' name of
        None \<Rightarrow> None
      | Some (stem, ext) \<Rightarrow> if stem = [] \<or> ext = [] then None else Some ext)"

definition obsidian_allowlisted :: "string \<Rightarrow> bool" where
  "obsidian_allowlisted path =
     (case strip_prefix ''.obsidian/'' path of
        None \<Rightarrow> False
      | Some rest \<Rightarrow>
          if rest = ''app.json'' \<or> rest = ''appearance.json'' then True
          else case strip_prefix ''snippets/'' rest of
                 Some name \<Rightarrow> name \<noteq> [] \<and> CHR ''/'' \<notin> set name \<and> last_extension name = Some ''css''
               | None \<Rightarrow>
                   (case strip_prefix ''themes/'' rest of
                      Some theme_rest \<Rightarrow>
                        (case split_once CHR ''/'' theme_rest of
                           None \<Rightarrow> False
                         | Some (dir, file) \<Rightarrow>
                             dir \<noteq> [] \<and> CHR ''/'' \<notin> set file \<and> (file = ''theme.css'' \<or> file = ''manifest.json''))
                    | None \<Rightarrow> False))"

text \<open>The loop over the segments.\<close>

definition segment_ok :: "string \<Rightarrow> bool" where
  "segment_ok segment \<longleftrightarrow> segment \<noteq> [] \<and> segment \<noteq> ''.'' \<and> segment \<noteq> ''..'' \<and> CHR 0x5C \<notin> set segment \<and>
     \<not> ends_with segment CHR '' '' \<and> \<not> ends_with segment CHR ''.''"

definition validate_segments :: "string \<Rightarrow> bool \<Rightarrow> bool" where
  "validate_segments path allow_ascii_upper =
     (if path = [] \<or> length path > KEY_MAX_BYTES \<or> starts_with path ''/'' then False
      else if \<not> allow_ascii_upper \<and> list_ex is_ascii_uppercase path then False
      else if path = ''.trash'' \<or> starts_with path ''.trash/'' then False
      else if \<not> list_all segment_ok (split_char CHR ''/'' path) then False
      else if path = ''.obsidian'' \<or> starts_with path ''.obsidian/'' then obsidian_allowlisted path
      else case last_extension (last (split_char CHR ''/'' path)) of
             None \<Rightarrow> False
           | Some ext \<Rightarrow> type_cap_for_ext (to_ascii_lowercase ext) \<noteq> None)"

definition validate_blob_key :: "string \<Rightarrow> bool" where
  "validate_blob_key key = validate_segments key False"

definition validate_display_path :: "string \<Rightarrow> bool" where
  "validate_display_path path = validate_segments path True"

definition cap_for_key :: "string \<Rightarrow> nat option" where
  "cap_for_key key =
     (if obsidian_allowlisted key then Some OBSIDIAN_CAP
      else case last_extension (last (split_char CHR ''/'' key)) of
             None \<Rightarrow> None
           | Some ext \<Rightarrow> type_cap_for_ext (to_ascii_lowercase ext))"

section \<open>File names and lock keys\<close>

text \<open>A path below the blob directory is the list of its components.\<close>

definition blob_file_path :: "string \<Rightarrow> string \<Rightarrow> string list" where
  "blob_file_path vault_id hash = [vault_id, take 2 hash, hash]"

definition tmp_file_path :: "string \<Rightarrow> string list" where
  "tmp_file_path upload_id = [''tmp'', upload_id]"

definition upload_lock_key :: "string \<Rightarrow> string \<Rightarrow> string" where
  "upload_lock_key vault_id hash = ''blob-upload:'' @ vault_id @ '':'' @ hash"

definition path_lock_key :: "string \<Rightarrow> string \<Rightarrow> string" where
  "path_lock_key vault_id path_key = ''blob:'' @ vault_id @ '':'' @ path_key"

section \<open>Range headers\<close>

definition parse_content_range :: "string \<Rightarrow> (nat \<times> nat \<times> nat) option" where
  "parse_content_range header =
     Option.bind (strip_prefix ''bytes '' header) (\<lambda>rest.
     Option.bind (split_once CHR ''/'' rest) (\<lambda>(range, total).
     Option.bind (split_once CHR ''-'' range) (\<lambda>(a, b).
     if a = [] \<or> b = [] then None
     else
       Option.bind (parse_u64 a) (\<lambda>a.
       Option.bind (parse_u64 b) (\<lambda>b.
       Option.bind (parse_u64 total) (\<lambda>total.
       Some (a, b, total)))))))"

text \<open>\<open>Err(())\<close> is \<open>Inl\<close>: a header that is not understood; \<open>Ok(None)\<close> is a range that cannot be satisfied.\<close>

definition or_err :: "'a option \<Rightarrow> unit + 'a" where
  "or_err x = (case x of None \<Rightarrow> Inl () | Some v \<Rightarrow> Inr v)"

definition parse_byte_range :: "string \<Rightarrow> nat \<Rightarrow> unit + (nat \<times> nat) option" where
  "parse_byte_range header total_len =
     (case strip_prefix ''bytes='' header of
        None \<Rightarrow> Inl ()
      | Some spec \<Rightarrow>
          let spec = trim (hd (split_char CHR '','' spec)) in
          if spec = [] then Inl ()
          else case (case strip_suffix CHR ''-'' spec of Some [] \<Rightarrow> None | x \<Rightarrow> x) of
            Some start \<Rightarrow>
              bind_result (or_err (parse_u64 start)) (\<lambda>start.
              if total_len = 0 \<or> start \<ge> total_len then Inr None else Inr (Some (start, total_len - 1)))
          | None \<Rightarrow>
              (case strip_prefix ''-'' spec of
                 Some suffix \<Rightarrow>
                   bind_result (or_err (parse_u64 suffix)) (\<lambda>n.
                   if n = 0 \<or> total_len = 0 then Inr None
                   else let n = min n total_len in Inr (Some (total_len - n, total_len - 1)))
               | None \<Rightarrow>
                   bind_result (or_err (split_once CHR ''-'' spec)) (\<lambda>(a, b).
                   bind_result (or_err (parse_u64 a)) (\<lambda>start.
                   bind_result (or_err (parse_u64 b)) (\<lambda>end.
                   if start > end \<or> total_len = 0 \<or> start \<ge> total_len then Inr None
                   else Inr (Some (start, min end (total_len - 1))))))))"

section \<open>Facts about keys\<close>

lemma last_segment: "CHR ''/'' \<notin> set b \<Longrightarrow> last (split_char CHR ''/'' (a @ CHR ''/'' # b)) = b"
  by (simp add: split_char_append split_char_single)

lemma key_cases:
  obtains (single) "CHR ''/'' \<notin> set s" "split_char CHR ''/'' s = [s]"
  | (nested) a b where "s = a @ CHR ''/'' # b" "CHR ''/'' \<notin> set b" "last (split_char CHR ''/'' s) = b"
proof (cases "rsplit_once CHR ''/'' s")
  case None
  then show ?thesis using single by (simp add: rsplit_once_None split_char_single)
next
  case (Some ab)
  then show ?thesis using nested last_segment by (cases ab) (auto simp: rsplit_once_Some)
qed

lemma last_extension_Some: "last_extension n = Some e \<longleftrightarrow>
    (\<exists>stem. n = stem @ CHR ''.'' # e \<and> CHR ''.'' \<notin> set e \<and> stem \<noteq> [] \<and> e \<noteq> [])"
proof -
  have "last_extension n = Some e \<longleftrightarrow> (\<exists>stem. rsplit_once CHR ''.'' n = Some (stem, e) \<and> stem \<noteq> [] \<and> e \<noteq> [])"
    by (cases "rsplit_once CHR ''.'' n") (auto simp: last_extension_def split: if_splits)
  then show ?thesis by (simp add: rsplit_once_Some)
qed

text \<open>The extension of the last segment is the extension of the whole key.\<close>

lemma extension_of_key:
  assumes "last_extension (last (split_char CHR ''/'' k)) = Some e"
  shows "last_extension k = Some e"
proof (cases k rule: key_cases)
  case (nested a b)
  then obtain stem where "b = stem @ CHR ''.'' # e" "CHR ''.'' \<notin> set e" "stem \<noteq> []" "e \<noteq> []"
    using assms by (auto simp: last_extension_Some)
  then show ?thesis
    unfolding last_extension_Some nested(1)
    by (intro exI [of _ "a @ CHR ''/'' # stem"]) simp
qed (use assms in simp)

lemma strip_prefix_append [simp]: "strip_prefix p (p @ r) = Some r"
  by simp

text \<open>What may lie under \<open>.obsidian/\<close>: two files, CSS snippets, and two files per theme.\<close>

inductive allowed_config :: "string \<Rightarrow> bool" where
  app: "allowed_config ''app.json''"
| appearance: "allowed_config ''appearance.json''"
| snippet: "CHR ''/'' \<notin> set name \<Longrightarrow> last_extension name = Some ''css'' \<Longrightarrow> allowed_config (''snippets/'' @ name)"
| theme: "dir \<noteq> [] \<Longrightarrow> CHR ''/'' \<notin> set dir \<Longrightarrow> leaf = ''theme.css'' \<or> leaf = ''manifest.json'' \<Longrightarrow>
    allowed_config (''themes/'' @ dir @ CHR ''/'' # leaf)"

lemma allowlisted_config:
  assumes "obsidian_allowlisted k"
  shows "\<exists>rest. k = ''.obsidian/'' @ rest \<and> allowed_config rest"
proof -
  obtain rest where rest: "strip_prefix ''.obsidian/'' k = Some rest"
    using assms unfolding obsidian_allowlisted_def by (auto split: option.splits)
  note run = assms [unfolded obsidian_allowlisted_def rest option.case]
  have "allowed_config rest"
  proof (cases "rest = ''app.json'' \<or> rest = ''appearance.json''")
    case True
    then show ?thesis by (auto intro: allowed_config.intros)
  next
    case False
    show ?thesis
    proof (cases "strip_prefix ''snippets/'' rest")
      case (Some name)
      with run False show ?thesis
        using allowed_config.snippet [of name] by (simp only: strip_prefix_Some) simp
    next
      case None
      then obtain theme_rest where t: "strip_prefix ''themes/'' rest = Some theme_rest"
        using run False by (auto split: option.splits)
      then obtain dir leaf where d: "split_once CHR ''/'' theme_rest = Some (dir, leaf)"
        using run False None by (auto split: option.splits)
      have "dir \<noteq> []" "leaf = ''theme.css'' \<or> leaf = ''manifest.json''"
        using run False None t d by simp_all
      moreover have "rest = ''themes/'' @ dir @ CHR ''/'' # leaf" "CHR ''/'' \<notin> set dir"
        using t d by (simp_all only: strip_prefix_Some split_once_Some not_False_eq_True)
      ultimately show ?thesis using allowed_config.theme by metis
    qed
  qed
  then show ?thesis using rest by (simp only: strip_prefix_Some) blast
qed

lemma starts_with_shape: "allowed_config rest \<Longrightarrow> obsidian_allowlisted (''.obsidian/'' @ rest)"
proof (induction rule: allowed_config.induct)
  case (snippet name)
  then have "name \<noteq> []" by (auto simp: last_extension_def rsplit_once_def)
  moreover have "strip_prefix ''snippets/'' (''snippets/'' @ name) = Some name" by (simp only: strip_prefix_Some)
  moreover have "strip_prefix ''.obsidian/'' (''.obsidian/'' @ ''snippets/'' @ name) = Some (''snippets/'' @ name)"
    by (simp only: strip_prefix_Some)
  ultimately show ?case using snippet by (simp only: obsidian_allowlisted_def option.case) simp
next
  case (theme dir leaf)
  have "strip_prefix ''themes/'' (''themes/'' @ dir @ CHR ''/'' # leaf) = Some (dir @ CHR ''/'' # leaf)"
    by (simp only: strip_prefix_Some)
  moreover have "strip_prefix ''snippets/'' (''themes/'' @ dir @ CHR ''/'' # leaf) = None"
    by (simp add: strip_prefix_None starts_with_def)
  moreover have "strip_prefix ''.obsidian/'' (''.obsidian/'' @ ''themes/'' @ dir @ CHR ''/'' # leaf) =
      Some (''themes/'' @ dir @ CHR ''/'' # leaf)"
    by (simp only: strip_prefix_Some)
  ultimately show ?case
    using theme by (simp only: obsidian_allowlisted_def option.case) (auto simp: split_once_append)
qed (simp_all add: obsidian_allowlisted_def strip_prefix_def)

lemma allowlisted_iff: "obsidian_allowlisted k \<longleftrightarrow> (\<exists>rest. k = ''.obsidian/'' @ rest \<and> allowed_config rest)"
  using allowlisted_config starts_with_shape by blast

text \<open>Every valid key has a size cap, and an SVG key is recognised by its whole text.\<close>

lemma valid_key_parts:
  assumes "validate_segments k up"
  shows "k \<noteq> []" "length k \<le> KEY_MAX_BYTES" "list_all segment_ok (split_char CHR ''/'' k)"
    and "\<not> starts_with k ''/''" and "\<not> starts_with k ''.trash/''"
    and "up \<or> \<not> list_ex is_ascii_uppercase k"
    and "if k = ''.obsidian'' \<or> starts_with k ''.obsidian/'' then obsidian_allowlisted k
      else \<exists>ext. last_extension (last (split_char CHR ''/'' k)) = Some ext \<and> type_cap_for_ext (to_ascii_lowercase ext) \<noteq> None"
  using assms unfolding validate_segments_def by (auto split: if_splits option.splits simp: not_less)

lemma valid_key_cap: "validate_segments k up \<Longrightarrow> cap_for_key k \<noteq> None"
  using valid_key_parts(7) [of k up] by (auto simp: cap_for_key_def split: if_splits)

lemma type_cap_le: "type_cap_for_ext e = Some c \<Longrightarrow> c \<le> ABSOLUTE_MAX"
  by (auto simp: type_cap_for_ext_def blob_consts split: if_splits)

lemma cap_le_absolute: "cap_for_key k = Some c \<Longrightarrow> c \<le> ABSOLUTE_MAX"
  using type_cap_le by (auto simp: cap_for_key_def split: if_splits option.splits) (simp add: blob_consts)

section \<open>Properties\<close>

text \<open>
  C23: a key the server accepts cannot escape its directory or reach a file outside the allowlist.  It
  is relative and at most 1024 bytes, no segment is empty, \<open>.\<close>, \<open>..\<close>, has a backslash or ends in a
  space or dot, it has no upper-case letter, it is not in the trash, it has a size cap of at most
  25 MiB, and under \<open>.obsidian/\<close> it is one of the four shapes of configuration files.
\<close>

theorem accepted_keys_are_safe:
  assumes "validate_blob_key k"
  shows "length k \<le> 1024 \<and> \<not> starts_with k ''/'' \<and> \<not> starts_with k ''.trash/'' \<and>
    (\<forall>seg \<in> set (split_char CHR ''/'' k). seg \<notin> {[], ''.'', ''..''} \<and> CHR 0x5C \<notin> set seg \<and>
       last seg \<noteq> CHR '' '' \<and> last seg \<noteq> CHR ''.'') \<and>
    (\<forall>c \<in> set k. \<not> is_ascii_uppercase c) \<and>
    (\<exists>cap \<le> 25 * 1024 * 1024. cap_for_key k = Some cap) \<and>
    (if starts_with k ''.obsidian/'' then \<exists>rest. k = ''.obsidian/'' @ rest \<and> allowed_config rest else True)"
proof -
  note parts = valid_key_parts [OF assms [unfolded validate_blob_key_def]]
  obtain cap where "cap_for_key k = Some cap"
    using valid_key_cap assms unfolding validate_blob_key_def by blast
  then have "\<exists>cap \<le> 25 * 1024 * 1024. cap_for_key k = Some cap"
    using cap_le_absolute by (auto simp: blob_consts)
  moreover have "\<forall>seg \<in> set (split_char CHR ''/'' k). seg \<notin> {[], ''.'', ''..''} \<and> CHR 0x5C \<notin> set seg \<and>
       last seg \<noteq> CHR '' '' \<and> last seg \<noteq> CHR ''.''"
    using parts(3) by (auto simp: list_all_iff segment_ok_def ends_with_def)
  moreover have "\<forall>c \<in> set k. \<not> is_ascii_uppercase c"
    using parts(6) by (auto simp: list_ex_iff)
  moreover have "if starts_with k ''.obsidian/'' then \<exists>rest. k = ''.obsidian/'' @ rest \<and> allowed_config rest else True"
    using parts(7) allowlisted_config by auto
  ultimately show ?thesis
    using parts(2,4,5) by (simp add: KEY_MAX_BYTES_def)
qed

theorem accepted_keys_are_safe_witness:
  "CHR 0x5C \<notin> set ''a.png'' \<and> (\<exists>cap \<le> 25 * 1024 * 1024. cap_for_key ''a.png'' = Some cap)"
proof -
  have "last_extension ''a.png'' = Some ''png''"
    by (simp add: last_extension_Some)
  then have "validate_blob_key ''a.png''"
    by (simp add: validate_blob_key_def validate_segments_def starts_with_def segment_ok_def ends_with_def
        ascii_defs to_ascii_lowercase_def type_cap_for_ext_def KEY_MAX_BYTES_def)
  from accepted_keys_are_safe [OF this] show ?thesis by (auto simp: split_char_single)
qed

section \<open>Ranges\<close>

lemma show_nat_no: "\<not> is_ascii_digit c \<Longrightarrow> c \<notin> set (show_nat n)"
  using show_nat_digits [of n] by (auto simp: list_all_iff)

lemma not_digits [simp]:
  "\<not> is_ascii_digit CHR ''-''" "\<not> is_ascii_digit CHR '',''" "\<not> is_ascii_digit CHR ''/''"
  "\<not> is_ascii_digit CHR '' ''" "\<not> is_ascii_digit CHR 0x09"
  by (simp_all add: is_ascii_digit_def code_def)

lemma digit_not_blank: "is_ascii_digit c \<Longrightarrow> \<not> is_blank c"
  by (auto simp: is_blank_def is_ascii_digit_def code_def)

lemma dash_not_blank [simp]: "\<not> is_blank CHR ''-''"
  by (simp add: is_blank_def)

lemma show_nat_end_digits: "is_ascii_digit (hd (show_nat n))" "is_ascii_digit (last (show_nat n))"
  using show_nat_digits [of n] by (simp_all add: list_all_iff)

lemmas show_nat_ends = show_nat_end_digits [THEN digit_not_blank]

lemma byte_range_inside:
  "case parse_byte_range header n of Inr (Some (start, stop)) \<Rightarrow> start \<le> stop \<and> stop < n | _ \<Rightarrow> True"
  by (auto simp: parse_byte_range_def Let_def or_err_def bind_result_def split: sum.splits option.splits prod.splits
      if_splits)

text \<open>
  A byte range the server serves lies within the file: whatever the header says, an accepted range
  has its start at or before its end and its end before the length of the file.
\<close>

theorem byte_ranges_stay_inside:
  "case parse_byte_range header n of Inr (Some (start, stop)) \<Rightarrow> start \<le> stop \<and> stop < n | _ \<Rightarrow> True"
  by (rule byte_range_inside)

text \<open>
  The range headers a client builds from numbers are read back as those numbers: the segment header
  \<open>bytes a-b/t\<close> of an upload, and for a download \<open>bytes=a-b\<close> (cut at the end of the file), \<open>bytes=a-\<close>
  and the last \<open>n\<close> bytes \<open>bytes=-n\<close>.
\<close>

theorem range_headers_are_read_back:
  assumes "a \<le> b" and "b < 2 ^ 64" and "t < 2 ^ 64" and "a < len" and "0 < n" and "n \<le> len" and "len < 2 ^ 64"
  shows "parse_content_range (''bytes '' @ show_nat a @ ''-'' @ show_nat b @ ''/'' @ show_nat t) = Some (a, b, t) \<and>
    parse_byte_range (''bytes='' @ show_nat a @ ''-'' @ show_nat b) len = Inr (Some (a, min b (len - 1))) \<and>
    parse_byte_range (''bytes='' @ show_nat a @ ''-'') len = Inr (Some (a, len - 1)) \<and>
    parse_byte_range (''bytes='' @ ''-'' @ show_nat n) len = Inr (Some (len - n, len - 1))"
proof -
  have no: "c \<notin> set (show_nat k)" if "c \<in> {CHR ''-'', CHR '','', CHR ''/''}" for c k
    using that show_nat_no by auto
  have split: "split_once CHR ''-'' (show_nat a @ CHR ''-'' # x) = Some (show_nat a, x)" for x
    by (rule split_once_append) (simp add: no)
  have parse: "parse_u64 (show_nat a) = Some a" "parse_u64 (show_nat b) = Some b" "parse_u64 (show_nat t) = Some t"
      "parse_u64 (show_nat n) = Some n"
    using assms by (simp_all add: parse_show_nat)
  have whole: "split_char CHR '','' (show_nat a @ CHR ''-'' # show_nat b) = [show_nat a @ CHR ''-'' # show_nat b]"
      "split_char CHR '','' (show_nat a @ [CHR ''-'']) = [show_nat a @ [CHR ''-'']]"
      "split_char CHR '','' (CHR ''-'' # show_nat n) = [CHR ''-'' # show_nat n]"
    by (rule split_char_single, simp add: no)+
  have trims: "trim (show_nat a @ CHR ''-'' # show_nat b) = show_nat a @ CHR ''-'' # show_nat b"
      "trim (show_nat a @ [CHR ''-'']) = show_nat a @ [CHR ''-'']"
      "trim (CHR ''-'' # show_nat n) = CHR ''-'' # show_nat n"
    by (simp_all add: trim_id show_nat_ends hd_append)
  have last_b: "last (show_nat k) \<noteq> CHR ''-''" for k
    using show_nat_end_digits(2) [of k] not_digits(1) by metis
  have hd_a: "take (Suc 0) (show_nat a @ x) \<noteq> ''-''" for x
    using show_nat_end_digits(1) [of a] not_digits(1) by (cases "show_nat a") auto
  have "parse_content_range (''bytes '' @ show_nat a @ ''-'' @ show_nat b @ ''/'' @ show_nat t) = Some (a, b, t)"
  proof -
    have "split_once CHR ''/'' ((show_nat a @ CHR ''-'' # show_nat b) @ CHR ''/'' # show_nat t) =
        Some (show_nat a @ CHR ''-'' # show_nat b, show_nat t)"
      by (rule split_once_append) (simp add: no)
    then show ?thesis
      using split parse by (simp add: parse_content_range_def strip_prefix_def)
  qed
  moreover have "parse_byte_range (''bytes='' @ show_nat a @ ''-'' @ show_nat b) len = Inr (Some (a, min b (len - 1)))"
    using assms(1,4) whole(1) trims(1) split parse last_b [of b] hd_a
    by (simp add: parse_byte_range_def strip_prefix_def strip_suffix_def ends_with_def or_err_def Let_def)
  moreover have "parse_byte_range (''bytes='' @ show_nat a @ ''-'') len = Inr (Some (a, len - 1))"
    using assms(4) whole(2) trims(2) parse
    by (cases "show_nat a") (simp_all add: parse_byte_range_def strip_prefix_def strip_suffix_def ends_with_def or_err_def Let_def)
  moreover have "parse_byte_range (''bytes='' @ ''-'' @ show_nat n) len = Inr (Some (len - n, len - 1))"
    using assms(5,6) whole(3) trims(3) parse last_b [of n]
    by (simp add: parse_byte_range_def strip_prefix_def strip_suffix_def ends_with_def or_err_def Let_def)
  ultimately show ?thesis by blast
qed

theorem range_headers_are_read_back_witness:
  "parse_byte_range (''bytes='' @ show_nat 2 @ ''-'' @ show_nat 90) 10 = Inr (Some (2, 9))"
  using range_headers_are_read_back [of 2 90 5 10 1] by simp

end
