(* ===== verification/Blob_Store.thy ===== *)
theory Blob_Store
  imports Blob_Paths Http_Auth
begin

text \<open>
  The stateful part of \<open>src/blobs.rs\<close> up to the download: resumable uploads and the content-addressed
  store.  A \<open>world\<close> is the database connection and the files below the blob directory.  Every file
  operation may fail; a write that fails may have written a part of its bytes.  \<open>gap g\<close> is a point
  at which other requests may run.  BLAKE3 in hexadecimal is the parameter \<open>blake3\<close>.
\<close>

section \<open>The world\<close>

record world =
  db_conn :: conn
  files :: "(string list, bytes) table"
  io_faults :: "(string \<times> nat) option list"

type_synonym 'a act = "world \<Rightarrow> 'a result \<times> world"

definition done_with :: "'a \<Rightarrow> 'a act" where
  "done_with x w = (Inr x, w)"

definition fail_with :: "server_error \<Rightarrow> 'a act" where
  "fail_with e w = (Inl e, w)"

definition bind_act :: "'a act \<Rightarrow> ('a \<Rightarrow> 'b act) \<Rightarrow> 'b act" where
  "bind_act m f w = (case m w of (Inl e, w') \<Rightarrow> (Inl e, w') | (Inr x, w') \<Rightarrow> f x w')"

definition on_db :: "'a io \<Rightarrow> 'a act" where
  "on_db m w = (let (r, c) = m (db_conn w) in (r, w\<lparr>db_conn := c\<rparr>))"

definition gap :: "(world \<Rightarrow> world) \<Rightarrow> unit act" where
  "gap g w = (Inr (), g w)"

text \<open>\<open>let _ = \<dots>\<close>: the effect without the error.\<close>

definition ignore :: "'a act \<Rightarrow> unit act" where
  "ignore m w = (Inr (), snd (m w))"

text \<open>Run the computation and hand over its result, error or not.\<close>

definition attempt :: "'a act \<Rightarrow> 'a result act" where
  "attempt m w = (let (r, w') = m w in (Inr r, w'))"

subsection \<open>Files\<close>

text \<open>A file operation: with a fault it fails and has the effect \<open>partial n\<close>.\<close>

definition file_op :: "(nat \<Rightarrow> (string list, bytes) table \<Rightarrow> (string list, bytes) table) \<Rightarrow>
    ((string list, bytes) table \<Rightarrow> server_error + 'a \<times> (string list, bytes) table) \<Rightarrow> 'a act" where
  "file_op partial f w =
     (let fault = (case io_faults w of [] \<Rightarrow> None | x # _ \<Rightarrow> x);
          w = w\<lparr>io_faults := tl (io_faults w)\<rparr>
      in case fault of
           Some (e, n) \<Rightarrow> (Inl (Io e), w\<lparr>files := partial n (files w)\<rparr>)
         | None \<Rightarrow> (case f (files w) of
               Inl e \<Rightarrow> (Inl e, w)
             | Inr (x, fs) \<Rightarrow> (Inr x, w\<lparr>files := fs\<rparr>)))"

definition create_dir_all :: "unit act" where
  "create_dir_all = file_op (\<lambda>_ fs. fs) (\<lambda>fs. Inr ((), fs))"

definition create_file :: "string list \<Rightarrow> unit act" where
  "create_file p = file_op (\<lambda>_ fs. fs) (\<lambda>fs. Inr ((), tbl_put p [] fs))"

text \<open>Bytes at an offset of a file, zeros where the file was shorter.\<close>

definition overwrite :: "bytes \<Rightarrow> nat \<Rightarrow> bytes \<Rightarrow> bytes" where
  "overwrite old off buf =
     (if buf = [] then old
      else take off old @ replicate (off - length old) 0 @ buf @ drop (off + length buf) old)"

definition file_or_empty :: "(string list, bytes) table \<Rightarrow> string list \<Rightarrow> bytes" where
  "file_or_empty fs p = (case tbl_get fs p of None \<Rightarrow> [] | Some b \<Rightarrow> b)"

text \<open>
  Open without truncation, creating the file if needed; seek; write all; sync.  With a fault 0 the file
  was not opened, with a fault \<open>n + 1\<close> the first \<open>n\<close> bytes reached it.
\<close>

definition write_at :: "string list \<Rightarrow> nat \<Rightarrow> bytes \<Rightarrow> unit act" where
  "write_at p off buf =
     file_op (\<lambda>n fs. if n = 0 then fs else tbl_put p (overwrite (file_or_empty fs p) off (take (n - 1) buf)) fs)
       (\<lambda>fs. Inr ((), tbl_put p (overwrite (file_or_empty fs p) off buf) fs))"

definition not_found :: server_error where
  "not_found = Io ''No such file or directory''"

definition read_file :: "string list \<Rightarrow> bytes act" where
  "read_file p = file_op (\<lambda>_ fs. fs) (\<lambda>fs. case tbl_get fs p of None \<Rightarrow> Inl not_found | Some b \<Rightarrow> Inr (b, fs))"

text \<open>A read whose absence of the file is told apart from other errors.\<close>

definition read_if_present :: "string list \<Rightarrow> bytes option act" where
  "read_if_present p = file_op (\<lambda>_ fs. fs) (\<lambda>fs. Inr (tbl_get fs p, fs))"

definition try_exists :: "string list \<Rightarrow> bool act" where
  "try_exists p = file_op (\<lambda>_ fs. fs) (\<lambda>fs. Inr (tbl_get fs p \<noteq> None, fs))"

definition remove_file :: "string list \<Rightarrow> unit act" where
  "remove_file p = file_op (\<lambda>_ fs. fs) (\<lambda>fs.
     if tbl_get fs p = None then Inl not_found else Inr ((), tbl_del p fs))"

definition sync_existing :: "string list \<Rightarrow> unit act" where
  "sync_existing p = file_op (\<lambda>_ fs. fs) (\<lambda>fs.
     if tbl_get fs p = None then Inl not_found else Inr ((), fs))"

definition rename_file :: "string list \<Rightarrow> string list \<Rightarrow> unit act" where
  "rename_file p q = file_op (\<lambda>_ fs. fs) (\<lambda>fs. case tbl_get fs p of
       None \<Rightarrow> Inl not_found
     | Some b \<Rightarrow> Inr ((), tbl_put q b (tbl_del p fs)))"

section \<open>Uploads\<close>

text \<open>An upload as the requests see it; \<open>expired\<close> when it is older than a day.\<close>

record upload_view =
  view_hash :: string
  view_size :: int
  view_received :: int
  view_expired :: bool

definition read_upload :: "string \<Rightarrow> string \<Rightarrow> upload_view option io" where
  "read_upload vault_id upload_id = query (\<lambda>t d.
     case tbl_get (blob_uploads d) upload_id of
       Some r \<Rightarrow> if upload_vault_id r = vault_id
         then Some \<lparr>view_hash = hash_claimed r, view_size = size_claimed r, view_received = received_bytes r,
           view_expired = (upload_created_at r < t - 86400)\<rparr>
         else None
     | None \<Rightarrow> None)"

definition delete_upload_row :: "string \<Rightarrow> string \<Rightarrow> unit io" where
  "delete_upload_row vault_id upload_id = exec (\<lambda>_ d. d\<lparr>blob_uploads :=
     tbl_keep (\<lambda>k r. \<not> (k = upload_id \<and> upload_vault_id r = vault_id)) (blob_uploads d)\<rparr>)"

definition discard_upload :: "string \<Rightarrow> string \<Rightarrow> unit act" where
  "discard_upload vault_id upload_id =
     bind_act (ignore (on_db (delete_upload_row vault_id upload_id))) (\<lambda>_.
     ignore (remove_file (tmp_file_path upload_id)))"

text \<open>The loop of the sweeper over the expired uploads it listed.\<close>

fun sweep_loop :: "(string \<times> string) list \<Rightarrow> nat \<Rightarrow> nat act" where
  "sweep_loop [] attempted = done_with attempted"
| "sweep_loop ((vault_id, upload_id) # rest) attempted =
     bind_act (discard_upload vault_id upload_id) (\<lambda>_.
     bind_act (on_db (query (\<lambda>_ d. tbl_get (blob_uploads d) upload_id))) (\<lambda>_.
     sweep_loop rest (attempted + 1)))"

definition sweep_expired_uploads :: "nat act" where
  "sweep_expired_uploads =
     bind_act (on_db (query (\<lambda>t d. map (\<lambda>(k, r). (upload_vault_id r, k))
       (filter (\<lambda>(_, r). upload_created_at r < t - 86400) (blob_uploads d))))) (\<lambda>expired.
     sweep_loop expired 0)"

section \<open>Creating an upload\<close>

definition json_error :: "nat \<Rightarrow> string \<Rightarrow> response" where
  "json_error st message = json_response st (error_body message)"

record create_request =
  create_hash :: string
  create_size :: int

text \<open>The uploads of a vault that are not older than a day.\<close>

definition open_uploads :: "string \<Rightarrow> timestamp \<Rightarrow> db \<Rightarrow> upload_row list" where
  "open_uploads vault_id t d =
     map snd (filter (\<lambda>(_, r). upload_vault_id r = vault_id \<and> upload_created_at r \<ge> t - 86400) (blob_uploads d))"

definition stored_bytes :: "string \<Rightarrow> db \<Rightarrow> int" where
  "stored_bytes vault_id d = sum_list (map (\<lambda>(_, r). blob_size r) (filter (\<lambda>((v, _), _). v = vault_id) (blobs d)))"

definition inflight_bytes :: "string \<Rightarrow> timestamp \<Rightarrow> db \<Rightarrow> int" where
  "inflight_bytes vault_id t d = sum_list (map (\<lambda>r. size_claimed r - received_bytes r) (open_uploads vault_id t d))"

definition effective_quota :: "int option \<Rightarrow> nat \<Rightarrow> nat" where
  "effective_quota q fallback =
     (case q of Some n \<Rightarrow> if n = 0 then 0 else if n > 0 then nat n else fallback | None \<Rightarrow> fallback)"

datatype quota_check =
    TooMany
  | OverQuota nat
  | WithinQuota

text \<open>The checks under one lock: the number of open uploads, then the bytes stored and in flight.\<close>

definition check_quota :: "app_config \<Rightarrow> string \<Rightarrow> nat \<Rightarrow> quota_check io" where
  "check_quota st vault_id n =
     and_then (query (\<lambda>t d. length (open_uploads vault_id t d))) (\<lambda>open_count.
     if open_count \<ge> MAX_OPEN_UPLOADS then ok TooMany
     else
       and_then (query (\<lambda>_ d. Option.bind (tbl_get (vaults d) vault_id) quota_bytes)) (\<lambda>quota.
       let effective = effective_quota quota (default_quota_bytes st) in
       if effective > 0 then
         and_then (query (\<lambda>_ d. stored_bytes vault_id d)) (\<lambda>stored.
         and_then (query (\<lambda>t d. inflight_bytes vault_id t d)) (\<lambda>inflight.
         let projected = sat_add (sat_add (as_u64 stored) (as_u64 inflight)) n
         in ok (if projected > effective then OverQuota effective else WithinQuota)))
       else ok WithinQuota))"

definition insert_upload :: "string \<Rightarrow> string \<Rightarrow> string \<Rightarrow> int \<Rightarrow> unit io" where
  "insert_upload vault_id upload_id hash n = stmt (\<lambda>t d.
     if tbl_get (blob_uploads d) upload_id \<noteq> None then Inl ''UNIQUE constraint failed''
     else Inr ((), d\<lparr>blob_uploads := tbl_put upload_id
       \<lparr>upload_vault_id = vault_id, hash_claimed = hash, size_claimed = n, received_bytes = 0,
        upload_created_at = t, upload_updated_at = t\<rparr> (blob_uploads d)\<rparr>))"

definition create_upload :: "jwt_lib \<Rightarrow> app_config \<Rightarrow> nat \<Rightarrow> (nat \<Rightarrow> world \<Rightarrow> world) \<Rightarrow> string \<Rightarrow> header_map \<Rightarrow>
    create_request \<Rightarrow> response act" where
  "create_upload J st secs g upload_id hdrs rq =
     bind_act (on_db (lift (vault_auth J st secs hdrs))) (\<lambda>vault_id.
     if \<not> is_hash (create_hash rq) \<or> create_size rq \<le> 0 then done_with (json_error 400 ''invalid hash or size'')
     else
       bind_act (on_db (query (\<lambda>_ d. tbl_get (blobs d) (vault_id, create_hash rq) \<noteq> None))) (\<lambda>exists.
       if exists then done_with (json_response 200 (JObj [(''exists'', JBool True)]))
       else if as_u64 (create_size rq) > ABSOLUTE_MAX
       then done_with (json_response 413 (JObj [(''error'', JStr ''type_cap_exceeded''), (''max_bytes'', JInt (int ABSOLUTE_MAX))]))
       else
         bind_act (gap (g 0)) (\<lambda>_.
         bind_act (on_db (check_quota st vault_id (as_u64 (create_size rq)))) (\<lambda>verdict.
         case verdict of
           TooMany \<Rightarrow> done_with ((json_error 429 ''too_many_uploads'')\<lparr>headers := [(''retry-after'', ''60'')]\<rparr>)
         | OverQuota q \<Rightarrow> done_with (json_response 413 (JObj [(''error'', JStr ''quota_exceeded''), (''quota_bytes'', JInt (int q))]))
         | WithinQuota \<Rightarrow>
             bind_act create_dir_all (\<lambda>_.
             bind_act (create_file (tmp_file_path upload_id)) (\<lambda>_.
             bind_act (gap (g 1)) (\<lambda>_.
             bind_act (attempt (on_db (insert_upload vault_id upload_id (create_hash rq) (create_size rq)))) (\<lambda>inserted.
             case inserted of
               Inl e \<Rightarrow> bind_act (ignore (remove_file (tmp_file_path upload_id))) (\<lambda>_. fail_with e)
             | Inr _ \<Rightarrow> done_with (json_response 201 (JObj [(''upload_id'', JStr upload_id), (''next_offset'', JInt 0),
                 (''segment_bytes'', JInt (int SEGMENT_BYTES))]))))))))))"

definition upload_not_found :: response where
  "upload_not_found = json_error 404 ''upload not found''"

definition get_upload :: "jwt_lib \<Rightarrow> app_config \<Rightarrow> nat \<Rightarrow> string \<Rightarrow> header_map \<Rightarrow> response act" where
  "get_upload J st secs upload_id hdrs =
     bind_act (on_db (lift (vault_auth J st secs hdrs))) (\<lambda>vault_id.
     bind_act (on_db (read_upload vault_id upload_id)) (\<lambda>row.
     case row of
       None \<Rightarrow> done_with upload_not_found
     | Some row \<Rightarrow>
         if view_expired row
         then bind_act (discard_upload vault_id upload_id) (\<lambda>_. done_with upload_not_found)
         else done_with (json_response 200 (JObj [(''next_offset'', JInt (view_received row)),
           (''hash'', JStr (view_hash row)), (''size'', JInt (view_size row)),
           (''segment_bytes'', JInt (int SEGMENT_BYTES))]))))"

section \<open>Receiving a segment\<close>

text \<open>The body, chunk by chunk, up to the guard; \<open>None\<close> when it is larger.\<close>

fun buffer_body :: "(string + bytes) list \<Rightarrow> bytes \<Rightarrow> bytes option result" where
  "buffer_body [] buf = Inr (Some buf)"
| "buffer_body (Inl e # _) buf = Inl (Io e)"
| "buffer_body (Inr chunk # rest) buf =
     (if sat_add (length buf) (length chunk) > SEGMENT_BODY_GUARD then Inr None
      else buffer_body rest (buf @ chunk))"

record segment =
  seg_start :: nat
  seg_end :: nat
  seg_total :: nat
  seg_bytes :: bytes

text \<open>The checks before the database is asked: a refusal or the segment.\<close>

definition segment_of :: "header_map \<Rightarrow> (string + bytes) list \<Rightarrow> (response + segment) result" where
  "segment_of hdrs chunks =
     (case Option.bind (hdrs ''content-range'') parse_content_range of
        None \<Rightarrow> Inr (Inl (json_error 400 ''missing or malformed Content-Range''))
      | Some (a, b, hdr_size) \<Rightarrow>
          if a > b then Inr (Inl (json_error 400 ''invalid Content-Range''))
          else bind_result (buffer_body chunks []) (\<lambda>buffered.
            case buffered of
              None \<Rightarrow> Inr (Inl (json_error 413 ''payload_too_large''))
            | Some buf \<Rightarrow>
                if length buf > SEGMENT_BYTES then Inr (Inl (json_error 413 ''payload_too_large''))
                else if sat_add (b - a) 1 \<noteq> length buf
                then Inr (Inl (json_error 400 ''Content-Range length does not match body''))
                else Inr (Inr \<lparr>seg_start = a, seg_end = b, seg_total = hdr_size, seg_bytes = buf\<rparr>)))"

text \<open>
  The end of a completed upload, under the lock of its hash: move the file into the store unless it is
  there already, record the blob, and drop the upload.  Every \<open>await\<close> between two database scopes or
  file operations is a gap.
\<close>

definition insert_blob :: "string \<Rightarrow> string \<Rightarrow> int \<Rightarrow> nat io" where
  "insert_blob vault_id hash n = stmt (\<lambda>t d. case tbl_get (blobs d) (vault_id, hash) of
       Some _ \<Rightarrow> Inr (0, d)
     | None \<Rightarrow> Inr (1, d\<lparr>blobs := tbl_put (vault_id, hash) \<lparr>blob_size = n, blob_created_at = t\<rparr> (blobs d)\<rparr>))"

definition blob_recorded :: "string \<Rightarrow> string \<Rightarrow> bool io" where
  "blob_recorded vault_id hash = query (\<lambda>_ d. tbl_get (blobs d) (vault_id, hash) \<noteq> None)"

definition place_blob :: "(nat \<Rightarrow> world \<Rightarrow> world) \<Rightarrow> string \<Rightarrow> string \<Rightarrow> upload_view \<Rightarrow> response act" where
  "place_blob g vault_id upload_id row =
     (let tmp = tmp_file_path upload_id; dest = blob_file_path vault_id (view_hash row) in
      bind_act create_dir_all (\<lambda>_.
      bind_act (gap (g 6)) (\<lambda>_.
      bind_act (try_exists dest) (\<lambda>dest_existed.
      bind_act (gap (g 7)) (\<lambda>_.
      bind_act (
        if dest_existed then ignore (remove_file tmp)
        else bind_act (sync_existing tmp) (\<lambda>_. bind_act (gap (g 8)) (\<lambda>_. rename_file tmp dest))) (\<lambda>_.
      bind_act (gap (g 9)) (\<lambda>_.
      bind_act (attempt (on_db (insert_blob vault_id (view_hash row) (view_size row)))) (\<lambda>insert_result.
      case insert_result of
        Inl e \<Rightarrow>
          bind_act (if dest_existed then done_with () else ignore (remove_file dest)) (\<lambda>_.
          bind_act (discard_upload vault_id upload_id) (\<lambda>_.
          fail_with e))
      | Inr inserted \<Rightarrow>
          bind_act (gap (g 10)) (\<lambda>_.
          bind_act (
            if inserted = 0 \<and> \<not> dest_existed then
              bind_act (on_db (blob_recorded vault_id (view_hash row))) (\<lambda>has_row.
              if has_row then done_with ()
              else
                bind_act (ignore (remove_file dest)) (\<lambda>_.
                bind_act (discard_upload vault_id upload_id) (\<lambda>_.
                fail_with (Io ''blob insert failed after rename''))))
            else done_with ()) (\<lambda>_.
          bind_act (gap (g 11)) (\<lambda>_.
          bind_act (on_db (delete_upload_row vault_id upload_id)) (\<lambda>_.
          done_with (json_response 201 (JObj [(''hash'', JStr (view_hash row))]))))))))))))))"

text \<open>The checks of a completed upload: its size, its digest, and the SVG filter.\<close>

definition finalize_upload :: "(bytes \<Rightarrow> string) \<Rightarrow> (bytes \<Rightarrow> string + bytes) \<Rightarrow> (nat \<Rightarrow> world \<Rightarrow> world) \<Rightarrow>
    string \<Rightarrow> string \<Rightarrow> upload_view \<Rightarrow> nat \<Rightarrow> response act" where
  "finalize_upload blake3 filter_svg g vault_id upload_id row next_offset =
     (if next_offset > ABSOLUTE_MAX then
        bind_act (discard_upload vault_id upload_id) (\<lambda>_.
        done_with (json_response 413 (JObj [(''error'', JStr ''type_cap_exceeded''), (''max_bytes'', JInt (int ABSOLUTE_MAX))])))
      else
        bind_act (read_file (tmp_file_path upload_id)) (\<lambda>content.
        bind_act (gap (g 5)) (\<lambda>_.
        if blake3 content \<noteq> view_hash row then
          bind_act (discard_upload vault_id upload_id) (\<lambda>_. done_with (json_error 422 ''hash_mismatch''))
        else case (if looks_like_svg content then svg_fixpoint_error filter_svg content else None) of
          Some kind \<Rightarrow> bind_act (discard_upload vault_id upload_id) (\<lambda>_. done_with (json_error 422 kind))
        | None \<Rightarrow> place_blob g vault_id upload_id row)))"

definition record_progress :: "string \<Rightarrow> string \<Rightarrow> int \<Rightarrow> unit io" where
  "record_progress vault_id upload_id n = exec (\<lambda>t d. case tbl_get (blob_uploads d) upload_id of
       Some r \<Rightarrow> if upload_vault_id r = vault_id
         then d\<lparr>blob_uploads := tbl_put upload_id (r\<lparr>received_bytes := n, upload_updated_at := t\<rparr>) (blob_uploads d)\<rparr>
         else d
     | None \<Rightarrow> d)"

text \<open>A row that is missing or expired ends the request.\<close>

definition with_upload :: "string \<Rightarrow> string \<Rightarrow> (upload_view \<Rightarrow> response act) \<Rightarrow> response act" where
  "with_upload vault_id upload_id k =
     bind_act (on_db (read_upload vault_id upload_id)) (\<lambda>found.
     case found of
       None \<Rightarrow> done_with upload_not_found
     | Some row \<Rightarrow>
         if view_expired row
         then bind_act (discard_upload vault_id upload_id) (\<lambda>_. done_with upload_not_found)
         else k row)"

text \<open>Under the lock of the upload's hash.\<close>

definition put_locked :: "(bytes \<Rightarrow> string) \<Rightarrow> (bytes \<Rightarrow> string + bytes) \<Rightarrow> (nat \<Rightarrow> world \<Rightarrow> world) \<Rightarrow>
    string \<Rightarrow> string \<Rightarrow> segment \<Rightarrow> upload_view \<Rightarrow> response act" where
  "put_locked blake3 filter_svg g vault_id upload_id seg row =
     (if seg_total seg \<noteq> as_u64 (view_size row)
      then done_with (json_error 400 ''Content-Range size does not match upload'')
      else if seg_start seg \<noteq> as_u64 (view_received row)
      then done_with (json_response 409 (JObj [(''next_offset'', JInt (view_received row))]))
      else
        let next_offset = sat_add (seg_end seg) 1 in
        if next_offset > as_u64 (view_size row)
        then done_with (json_error 400 ''Content-Range exceeds claimed size'')
        else
          bind_act (gap (g 2)) (\<lambda>_.
          bind_act (write_at (tmp_file_path upload_id) (as_u64 (view_received row)) (seg_bytes seg)) (\<lambda>_.
          bind_act (gap (g 3)) (\<lambda>_.
          bind_act (on_db (record_progress vault_id upload_id (as_i64 next_offset))) (\<lambda>_.
          if next_offset \<noteq> as_u64 (view_size row)
          then done_with (json_response 202 (JObj [(''next_offset'', JInt (int next_offset))]))
          else
            bind_act (gap (g 4)) (\<lambda>_.
            finalize_upload blake3 filter_svg g vault_id upload_id row next_offset))))))"

text \<open>\<open>g 0\<close> is the time before the request has its row, \<open>g 1\<close> the wait for the lock.\<close>

definition put_upload :: "(bytes \<Rightarrow> string) \<Rightarrow> (bytes \<Rightarrow> string + bytes) \<Rightarrow> jwt_lib \<Rightarrow> app_config \<Rightarrow> nat \<Rightarrow>
    (nat \<Rightarrow> world \<Rightarrow> world) \<Rightarrow> string \<Rightarrow> header_map \<Rightarrow> (string + bytes) list \<Rightarrow> response act" where
  "put_upload blake3 filter_svg J st secs g upload_id hdrs chunks =
     bind_act (on_db (lift (vault_auth J st secs hdrs))) (\<lambda>vault_id.
     bind_act (on_db (lift (segment_of hdrs chunks))) (\<lambda>checked.
     case checked of
       Inl refusal \<Rightarrow> done_with refusal
     | Inr seg \<Rightarrow>
         bind_act (gap (g 0)) (\<lambda>_.
         with_upload vault_id upload_id (\<lambda>_.
         bind_act (gap (g 1)) (\<lambda>_.
         with_upload vault_id upload_id (put_locked blake3 filter_svg g vault_id upload_id seg))))))"

section \<open>Downloads\<close>

text \<open>A reply with a JSON body, or with bytes.\<close>

datatype reply =
    JsonReply response
  | BytesReply (reply_status: nat) (reply_bytes: bytes) (reply_headers: "(string \<times> string) list")

definition blob_not_found :: reply where
  "blob_not_found = JsonReply (json_error 404 ''blob not found'')"

text \<open>Seek and \<open>read_exact\<close>.\<close>

definition read_range :: "string list \<Rightarrow> nat \<Rightarrow> nat \<Rightarrow> bytes act" where
  "read_range p start len = file_op (\<lambda>_ fs. fs) (\<lambda>fs. case tbl_get fs p of
       None \<Rightarrow> Inl not_found
     | Some b \<Rightarrow> if start + len \<le> length b then Inr (take len (drop start b), fs)
         else Inl (Io ''failed to fill whole buffer''))"

definition blob_headers :: "string \<Rightarrow> nat \<Rightarrow> (string \<times> string) list" where
  "blob_headers hash len = [(''content-type'', ''application/octet-stream''), (''content-disposition'', ''attachment''),
     (''x-content-type-options'', ''nosniff''), (''accept-ranges'', ''bytes''),
     (''etag'', CHR 0x22 # hash @ [CHR 0x22]), (''content-length'', show_nat len)]"

definition serve_range :: "string list \<Rightarrow> string \<Rightarrow> nat \<Rightarrow> nat \<Rightarrow> nat \<Rightarrow> nat \<Rightarrow> reply act" where
  "serve_range p hash st start stop file_len =
     (let len = (if file_len = 0 then 0 else sat_add (sat_sub stop start) 1) in
      bind_act (read_range p start len) (\<lambda>buf.
      done_with (BytesReply st buf (blob_headers hash len @
        (if st = 206 then [(''content-range'', ''bytes '' @ show_nat start @ ''-'' @ show_nat stop @ ''/'' @ show_nat file_len)]
         else [])))))"

text \<open>The range header, when there is one that parses, decides what is served.\<close>

definition serve_blob :: "string list \<Rightarrow> string \<Rightarrow> string option \<Rightarrow> nat \<Rightarrow> reply act" where
  "serve_blob p hash range_hdr file_len =
     (let whole = serve_range p hash 200 0 (sat_sub file_len 1) file_len in
      case range_hdr of
        None \<Rightarrow> whole
      | Some h \<Rightarrow>
          (case parse_byte_range h file_len of
             Inr (Some (start, stop)) \<Rightarrow> serve_range p hash 206 start stop file_len
           | Inr None \<Rightarrow> done_with (JsonReply ((json_error 416 ''range not satisfiable'')\<lparr>headers :=
               [(''content-range'', ''bytes */'' @ show_nat file_len)]\<rparr>))
           | Inl _ \<Rightarrow> whole))"

definition get_blob :: "jwt_lib \<Rightarrow> app_config \<Rightarrow> nat \<Rightarrow> (nat \<Rightarrow> world \<Rightarrow> world) \<Rightarrow> string \<Rightarrow> header_map \<Rightarrow> reply act" where
  "get_blob J st secs g hash hdrs =
     bind_act (on_db (lift (vault_auth J st secs hdrs))) (\<lambda>vault_id.
     if \<not> is_hash hash then done_with blob_not_found
     else
       bind_act (on_db (query (\<lambda>_ d. map_option blob_size (tbl_get (blobs d) (vault_id, hash))))) (\<lambda>found.
       case found of
         None \<Rightarrow> done_with blob_not_found
       | Some n \<Rightarrow>
           let p = blob_file_path vault_id hash; file_len = as_u64 (max n 0) in
           bind_act (gap (g 0)) (\<lambda>_.
           bind_act (read_if_present p) (\<lambda>meta.
           case meta of
             None \<Rightarrow> done_with blob_not_found
           | Some content \<Rightarrow>
               if length content \<noteq> file_len then done_with blob_not_found
               else
                 bind_act (gap (g 1)) (\<lambda>_.
                 serve_blob p hash (hdrs ''range'') file_len)))))"

end
