(* ===== verification/Blob_Index.thy ===== *)
theory Blob_Index
  imports Blob_Store "HOL-Library.Product_Lexorder"
begin

text \<open>
  The path index of \<open>src/blobs.rs\<close>: which content a path of a vault has, last writer wins, with a
  sequence number per accepted write that clients page through.  Rust compares strings and tuples
  lexicographically by bytes, as HOL does here.
\<close>

section \<open>Requests\<close>

text \<open>A missing \<open>key_version\<close> is 1, a missing \<open>since_seq\<close> 0 and a missing \<open>limit\<close> 1000.\<close>

record path_body =
  body_path_key :: string
  body_display_path :: string
  body_key_version :: int
  body_generation :: int
  body_state :: string
  body_content_hash :: "string option"
  body_size :: "int option"
  body_peer_id :: string

definition default_key_version :: int where "default_key_version = 1"
definition default_list_limit :: int where "default_list_limit = 1000"

record path_query =
  since_seq :: int
  limit :: int

definition path_row_json :: "string \<Rightarrow> string \<Rightarrow> path_row \<Rightarrow> json" where
  "path_row_json vault_id path_key r = JObj [
     (''vault_id'', JStr vault_id), (''path_key'', JStr path_key), (''display_path'', JStr (display_path r)),
     (''key_version'', JInt (key_version r)), (''generation'', JInt (generation r)), (''state'', JStr (path_state r)),
     (''content_hash'', opt_json JStr (path_hash r)), (''size'', opt_json JInt (path_size r)),
     (''peer_id'', JStr (path_peer_id r)), (''updated_at'', JInt (path_updated_at r)), (''seq'', JInt (seq r)),
     (''env_json'', opt_json JStr (env_json r))]"

section \<open>Writing a path\<close>

definition invalid_path :: response where
  "invalid_path = json_error 400 ''invalid blob path''"

text \<open>The checks before the lock: \<open>None\<close> when the body passes.\<close>

definition check_path :: "path_body \<Rightarrow> response option" where
  "check_path b =
     (if body_peer_id b = [] \<or> length (body_peer_id b) > MAX_PEER_ID_BYTES \<or> body_generation b < 0 \<or>
         body_key_version b \<noteq> 1 \<or> (body_state b \<noteq> ''live'' \<and> body_state b \<noteq> ''deleted'') \<or>
         \<not> validate_blob_key (body_path_key b) \<or> \<not> validate_display_path (body_display_path b)
      then Some invalid_path
      else if body_state b = ''live'' \<and> (body_content_hash b = None \<or> body_size b = None) then Some invalid_path
      else if (case body_content_hash b of Some h \<Rightarrow> \<not> is_hash h | None \<Rightarrow> False) then Some invalid_path
      else case body_size b of
             None \<Rightarrow> None
           | Some n \<Rightarrow>
               if n < 0 then Some invalid_path
               else (case cap_for_key (body_path_key b) of
                   None \<Rightarrow> None
                 | Some cap \<Rightarrow>
                     if as_u64 n > cap
                     then Some (json_response 413 (JObj [(''error'', JStr ''type_cap_exceeded''), (''max_bytes'', JInt (int cap))]))
                     else None))"

text \<open>The order of the writes to a path: by generation, then device, then content.\<close>

type_synonym rank = "int \<times> string \<times> string"

definition or_default :: "string option \<Rightarrow> string" where
  "or_default x = (case x of None \<Rightarrow> [] | Some s \<Rightarrow> s)"

definition body_rank :: "path_body \<Rightarrow> rank" where
  "body_rank b = (body_generation b, body_peer_id b, or_default (body_content_hash b))"

definition row_rank :: "path_row \<Rightarrow> rank" where
  "row_rank r = (generation r, path_peer_id r, or_default (path_hash r))"

text \<open>A repetition of the stored write, whoever sends it.\<close>

definition repeats :: "path_row \<Rightarrow> path_body \<Rightarrow> bool" where
  "repeats cur b \<longleftrightarrow> generation cur = body_generation b \<and> path_hash cur = body_content_hash b \<and> path_state cur = body_state b"

definition wins :: "path_body \<Rightarrow> path_row \<Rightarrow> bool" where
  "wins b cur \<longleftrightarrow> body_generation b > generation cur \<or>
     (body_generation b = generation cur \<and>
      (body_peer_id b, or_default (body_content_hash b)) > (path_peer_id cur, or_default (path_hash cur)))"

definition accepted :: "int \<Rightarrow> response" where
  "accepted n = json_response 200 (JObj [(''accepted'', JBool True), (''seq'', JInt n)])"

text \<open>\<open>UPDATE counters \<dots> RETURNING\<close>; SQLite fails rather than store an integer beyond 64 bits.\<close>

definition next_seq :: "db \<Rightarrow> string + int \<times> db" where
  "next_seq d = (if blob_seq d < i64_max then Inr (blob_seq d + 1, d\<lparr>blob_seq := blob_seq d + 1\<rparr>)
     else Inl ''integer overflow'')"

definition path_row_of :: "path_body \<Rightarrow> int \<Rightarrow> timestamp \<Rightarrow> path_row" where
  "path_row_of b n t = \<lparr>display_path = body_display_path b, key_version = body_key_version b, generation = body_generation b,
     path_state = body_state b, path_hash = body_content_hash b, path_size = body_size b, path_peer_id = body_peer_id b,
     path_updated_at = t, seq = n, env_json = None\<rparr>"

definition store_path :: "string \<Rightarrow> path_body \<Rightarrow> int io" where
  "store_path vault_id b =
     transaction (
       and_then (stmt (\<lambda>_. next_seq)) (\<lambda>n.
       and_then (exec (\<lambda>t d. d\<lparr>blob_path_states :=
         tbl_put (vault_id, body_path_key b) (path_row_of b n t) (blob_path_states d)\<rparr>)) (\<lambda>_.
       ok n)))"

text \<open>The checks of the content a path names: it is uploaded, and an SVG is at the filter's fixpoint.\<close>

definition check_content :: "(bytes \<Rightarrow> string + bytes) \<Rightarrow> (nat \<Rightarrow> world \<Rightarrow> world) \<Rightarrow> string \<Rightarrow> path_body \<Rightarrow> response option act" where
  "check_content filter_svg g vault_id b =
     (case body_content_hash b of
        None \<Rightarrow> done_with None
      | Some hash \<Rightarrow>
          bind_act (on_db (blob_recorded vault_id hash)) (\<lambda>present.
          if \<not> present then done_with (Some (json_error 412 ''blob not uploaded''))
          else if body_state b = ''live'' \<and> last_extension (body_path_key b) = Some ''svg'' then
            bind_act (gap (g 2)) (\<lambda>_.
            bind_act (read_if_present (blob_file_path vault_id hash)) (\<lambda>found.
            case found of
              None \<Rightarrow> done_with (Some (json_error 412 ''blob not uploaded''))
            | Some content \<Rightarrow> done_with (map_option (json_error 422) (svg_fixpoint_error filter_svg content))))
          else done_with None))"

text \<open>A write that wins: the checks, the transaction, and the event for the other devices.\<close>

definition write_path :: "(bytes \<Rightarrow> string + bytes) \<Rightarrow> (nat \<Rightarrow> world \<Rightarrow> world) \<Rightarrow> string \<Rightarrow> path_body \<Rightarrow>
    (response \<times> broadcast_event option) act" where
  "write_path filter_svg g vault_id b =
     bind_act (gap (g 1)) (\<lambda>_.
     bind_act (check_content filter_svg g vault_id b) (\<lambda>refused.
     case refused of
       Some refusal \<Rightarrow> done_with (refusal, None)
     | None \<Rightarrow>
         bind_act (gap (g 3)) (\<lambda>_.
         bind_act (on_db (store_path vault_id b)) (\<lambda>n.
         done_with (accepted n, Some (BlobPathEvent vault_id (body_path_key b) n))))))"

text \<open>\<open>POST /vault/blob-paths\<close>, with the event it broadcasts.  \<open>g 0\<close> is the wait for the lock of the path.\<close>

definition post_blob_path :: "(bytes \<Rightarrow> string + bytes) \<Rightarrow> jwt_lib \<Rightarrow> app_config \<Rightarrow> nat \<Rightarrow> (nat \<Rightarrow> world \<Rightarrow> world) \<Rightarrow>
    header_map \<Rightarrow> path_body \<Rightarrow> (response \<times> broadcast_event option) act" where
  "post_blob_path filter_svg J st secs g hdrs b =
     bind_act (on_db (lift (vault_auth J st secs hdrs))) (\<lambda>vault_id.
     case check_path b of
       Some refusal \<Rightarrow> done_with (refusal, None)
     | None \<Rightarrow>
         bind_act (gap (g 0)) (\<lambda>_.
         bind_act (on_db (query (\<lambda>_ d. tbl_get (blob_path_states d) (vault_id, body_path_key b)))) (\<lambda>stored.
         case stored of
           Some cur \<Rightarrow>
             if repeats cur b then done_with (accepted (seq cur), None)
             else if \<not> wins b cur
             then done_with (json_response 409 (JObj [(''accepted'', JBool False),
               (''current'', path_row_json vault_id (body_path_key b) cur)]), None)
             else write_path filter_svg g vault_id b
         | None \<Rightarrow> write_path filter_svg g vault_id b)))"

section \<open>Listing\<close>

text \<open>\<open>ORDER BY seq ASC LIMIT\<close> over the rows of the vault after the cursor.\<close>

definition vault_paths :: "string \<Rightarrow> db \<Rightarrow> (string \<times> path_row) list" where
  "vault_paths vault_id d = map (\<lambda>((_, k), r). (k, r)) (filter (\<lambda>((v, _), _). v = vault_id) (blob_path_states d))"

definition effective_limit :: "int \<Rightarrow> nat" where
  "effective_limit n = (if n \<le> 0 then 1000 else nat (min n 1000))"

definition page :: "string \<Rightarrow> int \<Rightarrow> nat \<Rightarrow> db \<Rightarrow> (string \<times> path_row) list" where
  "page vault_id since n d = take n (sort_key (\<lambda>(_, r). seq r) (filter (\<lambda>(_, r). seq r > since) (vault_paths vault_id d)))"

text \<open>\<open>COALESCE(MAX(seq), 0)\<close>.\<close>

definition max_seq :: "string \<Rightarrow> db \<Rightarrow> int" where
  "max_seq vault_id d = (case map (\<lambda>(_, r). seq r) (vault_paths vault_id d) of [] \<Rightarrow> 0 | n # ns \<Rightarrow> fold max ns n)"

definition list_blob_paths :: "jwt_lib \<Rightarrow> app_config \<Rightarrow> nat \<Rightarrow> header_map \<Rightarrow> path_query \<Rightarrow> response io" where
  "list_blob_paths J st secs hdrs q =
     and_then (lift (vault_auth J st secs hdrs)) (\<lambda>vault_id.
     and_then (query (\<lambda>_ d. max_seq vault_id d)) (\<lambda>newest.
     and_then (query (\<lambda>_ d. page vault_id (since_seq q) (effective_limit (limit q)) d)) (\<lambda>rows.
     ok (json_response 200 (JObj [(''states'', JArr (map (\<lambda>(k, r). path_row_json vault_id k r) rows)),
       (''max_seq'', JInt newest)])))))"

section \<open>The transaction\<close>

definition put_path :: "string \<Rightarrow> path_body \<Rightarrow> timestamp \<Rightarrow> db \<Rightarrow> db" where
  "put_path vault_id b t d = d\<lparr>blob_seq := blob_seq d + 1, blob_path_states :=
     tbl_put (vault_id, body_path_key b) (path_row_of b (blob_seq d + 1) t) (blob_path_states d)\<rparr>"

lemma store_path_Inl: "store_path vault_id b c = (Inl e, c') \<Longrightarrow> tables c' = tables c"
  unfolding store_path_def by (rule transaction_Inl)

lemma store_path_Inr:
  assumes "store_path vault_id b c = (Inr n, c')"
  shows "n = blob_seq (tables c) + 1 \<and> n \<le> i64_max \<and> tables c' = put_path vault_id b (now c) (tables c)"
proof -
  obtain c1 c2 where c: "tables c1 = tables c" "now c1 = now c" "tables c' = tables c2"
      "and_then (stmt (\<lambda>_. next_seq)) (\<lambda>n. and_then (exec (\<lambda>t d. d\<lparr>blob_path_states :=
         tbl_put (vault_id, body_path_key b) (path_row_of b n t) (blob_path_states d)\<rparr>)) (\<lambda>_. ok n)) c1 = (Inr n, c2)"
    using transaction_Inr [OF assms [unfolded store_path_def]] by blast
  then obtain c3 where s: "stmt (\<lambda>_. next_seq) c1 = (Inr n, c3)"
      "exec (\<lambda>t d. d\<lparr>blob_path_states := tbl_put (vault_id, body_path_key b) (path_row_of b n t) (blob_path_states d)\<rparr>) c3 = (Inr (), c2)"
    by (auto simp: and_then_Inr)
  then have "n = blob_seq (tables c1) + 1" "n \<le> i64_max" "tables c3 = (tables c1)\<lparr>blob_seq := n\<rparr>" "now c3 = now c1"
    by (auto simp: stmt_Inr next_seq_def split: if_splits)
  then show ?thesis
    using exec_Inr [OF s(2)] c by (simp add: put_path_def)
qed

section \<open>Sequence numbers\<close>

interpretation path_seq: token_allocator next_seq "\<lambda>d. blob_seq d + 1"
  by unfold_locales (auto simp: next_seq_def split: if_splits)

text \<open>No two rows share a sequence number and none is ahead of the counter.\<close>

definition seqs_ok :: "db \<Rightarrow> bool" where
  "seqs_ok d \<longleftrightarrow> tbl_wf (blob_path_states d) \<and>
     (\<forall>k r. tbl_get (blob_path_states d) k = Some r \<longrightarrow> seq r \<le> blob_seq d) \<and>
     (\<forall>k k' r r'. tbl_get (blob_path_states d) k = Some r \<longrightarrow> tbl_get (blob_path_states d) k' = Some r' \<longrightarrow>
        seq r = seq r' \<longrightarrow> k = k')"

text \<open>How the index moves on: no path disappears, and a row that is new is ahead of the old counter.\<close>

definition advances :: "db \<Rightarrow> db \<Rightarrow> bool" where
  "advances d0 d \<longleftrightarrow> blob_seq d0 \<le> blob_seq d \<and>
     (\<forall>k. tbl_get (blob_path_states d0) k \<noteq> None \<longrightarrow> tbl_get (blob_path_states d) k \<noteq> None) \<and>
     (\<forall>k r. tbl_get (blob_path_states d) k = Some r \<longrightarrow> tbl_get (blob_path_states d0) k = Some r \<or> blob_seq d0 < seq r)"

lemma advances_refl [simp]: "advances d d"
  by (simp add: advances_def)

lemma advances_trans: "advances d0 d1 \<Longrightarrow> advances d1 d2 \<Longrightarrow> advances d0 d2"
proof -
  assume a: "advances d0 d1" "advances d1 d2"
  have le: "blob_seq d0 \<le> blob_seq d1" "blob_seq d1 \<le> blob_seq d2"
    using a by (simp_all add: advances_def)
  have "tbl_get (blob_path_states d0) k = Some r \<or> blob_seq d0 < seq r" if "tbl_get (blob_path_states d2) k = Some r" for k r
  proof (cases "tbl_get (blob_path_states d1) k = Some r")
    case True
    then show ?thesis using a(1) unfolding advances_def by blast
  next
    case False
    then have "blob_seq d1 < seq r" using a(2) that unfolding advances_def by blast
    then show ?thesis using le by simp
  qed
  moreover have "tbl_get (blob_path_states d2) k \<noteq> None" if "tbl_get (blob_path_states d0) k \<noteq> None" for k
    using a that unfolding advances_def by blast
  ultimately show ?thesis using le unfolding advances_def by (meson order_trans)
qed

lemma put_path_seqs: "seqs_ok d \<Longrightarrow> seqs_ok (put_path v b t d)"
proof -
  assume d: "seqs_ok d"
  let ?k = "(v, body_path_key b)" and ?r = "path_row_of b (blob_seq d + 1) t"
  have get: "tbl_get (blob_path_states (put_path v b t d)) = (tbl_get (blob_path_states d))(?k \<mapsto> ?r)"
    by (simp add: put_path_def sql.get_put)
  have old: "seq r \<le> blob_seq d" if "tbl_get (blob_path_states d) k = Some r" for k r
    using d that unfolding seqs_ok_def by blast
  have new: "seq ?r = blob_seq d + 1" "blob_seq (put_path v b t d) = blob_seq d + 1"
    by (simp_all add: path_row_of_def put_path_def)
  have "tbl_wf (blob_path_states (put_path v b t d))"
    using d by (simp add: seqs_ok_def put_path_def sql.wf_put)
  moreover have "seq r \<le> blob_seq d + 1" if "((tbl_get (blob_path_states d))(?k \<mapsto> ?r)) k = Some r" for k r
    using that old [of k r] new(1) by (auto split: if_splits)
  moreover have "k = k'" if "((tbl_get (blob_path_states d))(?k \<mapsto> ?r)) k = Some r"
      "((tbl_get (blob_path_states d))(?k \<mapsto> ?r)) k' = Some r'" "seq r = seq r'" for k k' r r'
  proof (cases "k = ?k \<or> k' = ?k")
    case True
    then show ?thesis using that old [of k r] old [of k' r'] new(1) by (auto split: if_splits)
  next
    case False
    then show ?thesis using that d unfolding seqs_ok_def by (metis fun_upd_other)
  qed
  ultimately show ?thesis unfolding seqs_ok_def get new(2) by blast
qed

lemma put_path_advances: "advances d (put_path v b t d)"
  by (auto simp del: split_paired_All simp: advances_def put_path_def sql.get_put path_row_of_def split: if_splits)

text \<open>A row that is there now and was there before has been there all along.\<close>

lemma row_survives:
  assumes "advances d0 d1" and "advances d1 d2" and "seqs_ok d0"
    and r: "tbl_get (blob_path_states d0) k = Some r" "tbl_get (blob_path_states d2) k = Some r"
  shows "tbl_get (blob_path_states d1) k = Some r"
proof -
  have "seq r \<le> blob_seq d0"
    using assms(3) r(1) unfolding seqs_ok_def by blast
  then have "\<not> blob_seq d1 < seq r"
    using assms(1) by (simp add: advances_def)
  then show ?thesis
    using assms(2) r(2) unfolding advances_def by blast
qed

end
