(* ===== verification/Blob_Logic.thy ===== *)
theory Blob_Logic
  imports Blob_Index
begin

text \<open>
  A logic for the computations of \<open>Blob_Store\<close>.  \<open>triple P m Q E\<close> says that from a world with \<open>P\<close> the
  computation ends with its value and \<open>Q\<close>, or with an error and \<open>E\<close>.  An assertion that names an
  earlier world states a guarantee, and what a gap keeps is its rely condition, so the same rules
  serve both.
\<close>

definition triple :: "(world \<Rightarrow> bool) \<Rightarrow> 'a act \<Rightarrow> ('a \<Rightarrow> world \<Rightarrow> bool) \<Rightarrow> (world \<Rightarrow> bool) \<Rightarrow> bool" where
  "triple P m Q E \<longleftrightarrow> (\<forall>w. P w \<longrightarrow> (case fst (m w) of Inl _ \<Rightarrow> E (snd (m w)) | Inr x \<Rightarrow> Q x (snd (m w))))"

named_theorems triple_rules \<open>rules for the computations on worlds\<close>

lemma tripleD: "triple P m Q E \<Longrightarrow> P w \<Longrightarrow> (case fst (m w) of Inl _ \<Rightarrow> E (snd (m w)) | Inr x \<Rightarrow> Q x (snd (m w)))"
  unfolding triple_def by blast

lemma tripleD_Inr: "triple P m Q E \<Longrightarrow> P w \<Longrightarrow> m w = (Inr x, w') \<Longrightarrow> Q x w'"
  by (drule tripleD) auto

lemma tripleD_Inl: "triple P m Q E \<Longrightarrow> P w \<Longrightarrow> m w = (Inl e, w') \<Longrightarrow> E w'"
  by (drule tripleD) auto

lemma triple_keep: "triple P m (\<lambda>_. I) I \<Longrightarrow> P w \<Longrightarrow> I (snd (m w))"
  by (drule tripleD) (auto split: sum.splits)

lemma triple_weaken:
  "triple P' m Q' E' \<Longrightarrow> (\<And>w. P w \<Longrightarrow> P' w) \<Longrightarrow> (\<And>x w. Q' x w \<Longrightarrow> Q x w) \<Longrightarrow> (\<And>w. E' w \<Longrightarrow> E w) \<Longrightarrow>
   triple P m Q E"
  unfolding triple_def by (fastforce split: sum.splits)

lemma triple_pre: "triple P' m Q E \<Longrightarrow> (\<And>w. P w \<Longrightarrow> P' w) \<Longrightarrow> triple P m Q E"
  by (rule triple_weaken)

lemma triple_assume: "(\<And>w. P w \<Longrightarrow> triple (\<lambda>w'. w' = w) m Q E) \<Longrightarrow> triple P m Q E"
  unfolding triple_def by blast

lemma triple_pure: "(A \<Longrightarrow> triple P m Q E) \<Longrightarrow> triple (\<lambda>w. A \<and> P w) m Q E"
  unfolding triple_def by blast

lemma triple_done: "(\<And>w. P w \<Longrightarrow> Q x w) \<Longrightarrow> triple P (done_with x) Q E"
  by (simp add: triple_def done_with_def)

lemma triple_fail: "(\<And>w. P w \<Longrightarrow> E w) \<Longrightarrow> triple P (fail_with e) Q E"
  by (simp add: triple_def fail_with_def)

lemma triple_bind: "triple P m R E \<Longrightarrow> (\<And>x. triple (R x) (f x) Q E) \<Longrightarrow> triple P (bind_act m f) Q E"
  unfolding triple_def bind_act_def by (fastforce simp: split_beta split: sum.splits)

lemma triple_if: "(b \<Longrightarrow> triple P m Q E) \<Longrightarrow> (\<not> b \<Longrightarrow> triple P m' Q E) \<Longrightarrow> triple P (if b then m else m') Q E"
  by simp

lemma triple_option: "(x = None \<Longrightarrow> triple P m Q E) \<Longrightarrow> (\<And>y. x = Some y \<Longrightarrow> triple P (f y) Q E) \<Longrightarrow>
    triple P (case x of None \<Rightarrow> m | Some y \<Rightarrow> f y) Q E"
  by (cases x) auto

lemma triple_sum: "(\<And>e. x = Inl e \<Longrightarrow> triple P (f e) Q E) \<Longrightarrow> (\<And>y. x = Inr y \<Longrightarrow> triple P (h y) Q E) \<Longrightarrow>
    triple P (case x of Inl e \<Rightarrow> f e | Inr y \<Rightarrow> h y) Q E"
  by (cases x) auto

lemmas [triple_rules] = triple_if triple_option triple_sum

lemma triple_gap: "(\<And>w. P w \<Longrightarrow> Q () (g w)) \<Longrightarrow> triple P (gap g) Q E"
  by (simp add: triple_def gap_def)

lemma triple_ignore: "triple P m (\<lambda>_. Q ()) (Q ()) \<Longrightarrow> triple P (ignore m) Q E"
  unfolding triple_def ignore_def by (auto split: sum.splits)

lemma triple_attempt:
  assumes "triple P m (\<lambda>x. Q (Inr x)) (\<lambda>w. \<forall>e. Q (Inl e) w)"
  shows "triple P (attempt m) Q E"
  unfolding triple_def attempt_def
proof (intro allI impI)
  fix w assume "P w"
  with assms have "Q (fst (m w)) (snd (m w))"
    by (cases "fst (m w)") (auto dest!: tripleD [of P m _ _ w])
  then show "case fst (let (r, w') = m w in (Inr r, w')) of
      Inl _ \<Rightarrow> E (snd (let (r, w') = m w in (Inr r, w')))
    | Inr x \<Rightarrow> Q x (snd (let (r, w') = m w in (Inr r, w')))"
    by (simp add: split_beta)
qed

text \<open>An operation on the database sees and changes the tables only, one on a file the files only.\<close>

definition set_tables :: "db \<Rightarrow> world \<Rightarrow> world" where
  "set_tables d w = w\<lparr>db_conn := (db_conn w)\<lparr>tables := d\<rparr>\<rparr>"

lemma set_tables_id [simp]: "set_tables (tables (db_conn w)) w = w"
  by (simp add: set_tables_def)

text \<open>What an assertion may depend on: the tables and the files, not the clock or the faults to come.\<close>

definition observes :: "(world \<Rightarrow> bool) \<Rightarrow> bool" where
  "observes P \<longleftrightarrow> (\<forall>w w'. tables (db_conn w') = tables (db_conn w) \<longrightarrow> files w' = files w \<longrightarrow> P w \<longrightarrow> P w')"

lemma observesD: "observes P \<Longrightarrow> P w \<Longrightarrow> tables (db_conn w') = tables (db_conn w) \<Longrightarrow> files w' = files w \<Longrightarrow> P w'"
  unfolding observes_def by blast

lemma triple_lift: "(\<And>w. P w \<Longrightarrow> E w) \<Longrightarrow> (\<And>x w. r = Inr x \<Longrightarrow> P w \<Longrightarrow> Q x w) \<Longrightarrow> triple P (on_db (lift r)) Q E"
  by (auto simp: triple_def on_db_def lift_def split: sum.splits)

lemma triple_stmt:
  assumes obs: "observes E" "\<And>x. observes (Q x)"
    and err: "\<And>w. P w \<Longrightarrow> E w"
    and run: "\<And>w x d. P w \<Longrightarrow> f (now (db_conn w)) (tables (db_conn w)) = Inr (x, d) \<Longrightarrow> Q x (set_tables d w)"
  shows "triple P (on_db (stmt f)) Q E"
  unfolding triple_def
proof (intro allI impI)
  fix w assume P: "P w"
  obtain r c where rc: "stmt f (db_conn w) = (r, c)" by (metis prod.exhaust)
  show "case fst (on_db (stmt f) w) of Inl _ \<Rightarrow> E (snd (on_db (stmt f) w)) | Inr x \<Rightarrow> Q x (snd (on_db (stmt f) w))"
  proof (cases r)
    case (Inl e)
    then have "tables c = tables (db_conn w)"
      using rc stmt_Inl_tables by blast
    then show ?thesis
      using rc Inl observesD [OF obs(1) err [OF P]] by (simp add: on_db_def)
  next
    case (Inr x)
    then obtain d where d: "f (now (db_conn w)) (tables (db_conn w)) = Inr (x, d)"
        "c = (db_conn w)\<lparr>faults := tl (faults (db_conn w)), tables := d\<rparr>"
      using rc by (auto simp: stmt_Inr)
    show ?thesis
      using rc Inr observesD [OF obs(2) run [OF P d(1)]] d(2) by (simp add: on_db_def set_tables_def)
  qed
qed

lemma triple_query:
  assumes "observes E" and "\<And>x. observes (Q x)" and "\<And>w. P w \<Longrightarrow> E w"
    and "\<And>w. P w \<Longrightarrow> Q (f (now (db_conn w)) (tables (db_conn w))) w"
  shows "triple P (on_db (query f)) Q E"
  unfolding query_def
proof (rule triple_stmt [OF assms(1-3)])
  fix w x d assume "P w" "Inr (f (now (db_conn w)) (tables (db_conn w)), tables (db_conn w)) = Inr (x, d)"
  then show "Q x (set_tables d w)"
    using assms(4) [of w] observesD [OF assms(2)] by (auto simp: set_tables_def)
qed

lemma triple_exec:
  assumes "observes E" and "observes (Q ())" and "\<And>w. P w \<Longrightarrow> E w"
    and "\<And>w. P w \<Longrightarrow> Q () (set_tables (f (now (db_conn w)) (tables (db_conn w))) w)"
  shows "triple P (on_db (exec f)) Q E"
  unfolding exec_def using assms by (intro triple_stmt) auto

lemma triple_file_op:
  assumes obs: "observes E" "\<And>x. observes (Q x)"
    and err: "\<And>w. P w \<Longrightarrow> E w"
    and broken: "\<And>w n. P w \<Longrightarrow> E (w\<lparr>files := partial n (files w)\<rparr>)"
    and run: "\<And>w x fs. P w \<Longrightarrow> f (files w) = Inr (x, fs) \<Longrightarrow> Q x (w\<lparr>files := fs\<rparr>)"
  shows "triple P (file_op partial f) Q E"
  unfolding triple_def
proof (intro allI impI)
  fix w assume P: "P w"
  let ?w = "w\<lparr>io_faults := tl (io_faults w)\<rparr>"
  have E: "E ?w" "\<And>n. E (?w\<lparr>files := partial n (files w)\<rparr>)"
    using observesD [OF obs(1) err [OF P]] observesD [OF obs(1) broken [OF P]] by simp_all
  have Q: "Q x (?w\<lparr>files := fs\<rparr>)" if "f (files w) = Inr (x, fs)" for x fs
    using observesD [OF obs(2) run [OF P that]] by simp
  show "case fst (file_op partial f w) of Inl _ \<Rightarrow> E (snd (file_op partial f w)) | Inr x \<Rightarrow> Q x (snd (file_op partial f w))"
    using E Q by (auto simp: file_op_def Let_def split: option.splits sum.splits list.splits)
qed

lemma observes_const [intro, simp]: "observes (\<lambda>_. A)"
  by (simp add: observes_def)

lemma observes_conj [intro]: "observes P \<Longrightarrow> observes Q \<Longrightarrow> observes (\<lambda>w. P w \<and> Q w)"
  unfolding observes_def by blast

lemma observes_imp [intro]: "observes P \<Longrightarrow> observes (\<lambda>w. A \<longrightarrow> P w)"
  unfolding observes_def by blast

lemma observes_all [intro]: "(\<And>x. observes (P x)) \<Longrightarrow> observes (\<lambda>w. \<forall>x. P x w)"
  unfolding observes_def by blast

lemma observes_state [intro]: "observes (\<lambda>w. P (tables (db_conn w)) (files w))"
  unfolding observes_def by simp

end
