(* ===== verification/Blob_Safety.thy ===== *)
theory Blob_Safety
  imports Blob_Logic
begin

text \<open>
  The safety of the blob store under concurrent requests: every recorded blob has its file, every file
  of the store has the digest it is named after and passed the SVG filter if it looks like one.  The
  proof is by rely and guarantee: while a request holds the lock of its hash the others leave the
  file and the row of that hash alone and at most remove the temporary file; and a request under
  another lock gives exactly that.  \<open>owner\<close> is the vault and the hash an upload id was issued for.
\<close>

section \<open>The invariant\<close>

definition blob_file :: "world \<Rightarrow> string \<times> string \<Rightarrow> bytes option" where
  "blob_file w vh = tbl_get (files w) (blob_file_path (fst vh) (snd vh))"

definition tmp_file :: "world \<Rightarrow> string \<Rightarrow> bytes option" where
  "tmp_file w u = tbl_get (files w) (tmp_file_path u)"

definition blob_rec :: "world \<Rightarrow> string \<times> string \<Rightarrow> blob_row option" where
  "blob_rec w vh = tbl_get (blobs (tables (db_conn w))) vh"

definition upload_rec :: "world \<Rightarrow> string \<Rightarrow> upload_row option" where
  "upload_rec w u = tbl_get (blob_uploads (tables (db_conn w))) u"

text \<open>A content that may be stored under a hash.\<close>

definition clean :: "(bytes \<Rightarrow> string) \<Rightarrow> (bytes \<Rightarrow> string + bytes) \<Rightarrow> string \<Rightarrow> bytes \<Rightarrow> bool" where
  "clean blake3 filter_svg h b \<longleftrightarrow>
     blake3 b = h \<and> (if looks_like_svg b then svg_fixpoint_error filter_svg b = None else True)"

text \<open>An SVG path that is live is only ever given a content the filter leaves as it is.\<close>

definition is_fixpoint :: "(bytes \<Rightarrow> string + bytes) \<Rightarrow> bytes \<Rightarrow> bool" where
  "is_fixpoint filter_svg b \<longleftrightarrow> filter_svg b = Inr b"

definition live_svg :: "string \<Rightarrow> path_row \<Rightarrow> bool" where
  "live_svg k r \<longleftrightarrow> path_state r = ''live'' \<and> last_extension k = Some ''svg''"

definition path_rec :: "world \<Rightarrow> string \<times> string \<Rightarrow> path_row option" where
  "path_rec w vk = tbl_get (blob_path_states (tables (db_conn w))) vk"

text \<open>A blob a path may name: it is recorded, and fit for a live SVG path if it is to be one.\<close>

definition nameable :: "(bytes \<Rightarrow> bool) \<Rightarrow> world \<Rightarrow> string \<times> string \<Rightarrow> bool \<Rightarrow> bool" where
  "nameable safe w vh svg \<longleftrightarrow> blob_rec w vh \<noteq> None \<and> (svg \<longrightarrow> (\<exists>b. blob_file w vh = Some b \<and> safe b))"

definition index_ok :: "(bytes \<Rightarrow> bool) \<Rightarrow> world \<Rightarrow> bool" where
  "index_ok safe w \<longleftrightarrow> (\<forall>v k r h. path_rec w (v, k) = Some r \<longrightarrow> path_hash r = Some h \<longrightarrow> nameable safe w (v, h) (live_svg k r))"

definition store_ok :: "(string \<Rightarrow> string \<times> string) \<Rightarrow> (string \<Rightarrow> bytes \<Rightarrow> bool) \<Rightarrow> (bytes \<Rightarrow> bool) \<Rightarrow> world \<Rightarrow> bool" where
  "store_ok owner good safe w \<longleftrightarrow>
     tbl_wf (blob_uploads (tables (db_conn w))) \<and>
     (\<forall>vh. blob_rec w vh \<noteq> None \<longrightarrow> blob_file w vh \<noteq> None) \<and>
     (\<forall>vh b. blob_file w vh = Some b \<longrightarrow> good (snd vh) b) \<and>
     index_ok safe w \<and> seqs_ok (tables (db_conn w)) \<and>
     (\<forall>u r. upload_rec w u = Some r \<longrightarrow> owner u = (upload_vault_id r, hash_claimed r))"

definition same_for :: "(string \<Rightarrow> string \<times> string) \<Rightarrow> world \<Rightarrow> world \<Rightarrow> string \<Rightarrow> bool" where
  "same_for owner w0 w u \<longleftrightarrow> blob_file w (owner u) = blob_file w0 (owner u) \<and>
     blob_rec w (owner u) = blob_rec w0 (owner u) \<and> (tmp_file w u = tmp_file w0 u \<or> tmp_file w u = None)"

text \<open>A recorded blob is never changed again, and the path index only moves on.\<close>

definition frozen :: "world \<Rightarrow> world \<Rightarrow> bool" where
  "frozen w0 w \<longleftrightarrow> advances (tables (db_conn w0)) (tables (db_conn w)) \<and> (\<forall>vh. blob_rec w0 vh \<noteq> None \<longrightarrow> blob_rec w vh = blob_rec w0 vh \<and> blob_file w vh = blob_file w0 vh)"

text \<open>What others may do while the requests of the uploads \<open>us\<close> hold their locks.\<close>

definition quiet :: "(string \<Rightarrow> string \<times> string) \<Rightarrow> (string \<Rightarrow> bytes \<Rightarrow> bool) \<Rightarrow> (bytes \<Rightarrow> bool) \<Rightarrow> string set \<Rightarrow> (world \<Rightarrow> world) \<Rightarrow> bool" where
  "quiet owner good safe us f \<longleftrightarrow> (\<forall>w. store_ok owner good safe w \<longrightarrow>
     store_ok owner good safe (f w) \<and> frozen w (f w) \<and> (\<forall>u \<in> us. same_for owner w (f w) u))"

definition guarded :: "(string \<Rightarrow> string \<times> string) \<Rightarrow> (string \<Rightarrow> bytes \<Rightarrow> bool) \<Rightarrow> (bytes \<Rightarrow> bool) \<Rightarrow> string set \<Rightarrow> world \<Rightarrow> world \<Rightarrow> bool" where
  "guarded owner good safe us w0 w \<longleftrightarrow> store_ok owner good safe w \<and> frozen w0 w \<and> (\<forall>u \<in> us. same_for owner w0 w u)"

lemma same_for_refl [simp]: "same_for owner w w u"
  by (simp add: same_for_def)

lemma same_for_trans: "same_for owner w0 w1 u \<Longrightarrow> same_for owner w1 w2 u \<Longrightarrow> same_for owner w0 w2 u"
  by (auto simp: same_for_def)

lemma frozen_refl [simp]: "frozen w w"
  by (simp add: frozen_def)

lemma frozen_trans: "frozen w0 w1 \<Longrightarrow> frozen w1 w2 \<Longrightarrow> frozen w0 w2"
  unfolding frozen_def by (auto simp: all_conj_distrib intro: advances_trans)

lemma guarded_start: "store_ok owner good safe w \<Longrightarrow> guarded owner good safe us w w"
  by (simp add: guarded_def)

lemma guarded_gap: "guarded owner good safe us w0 w \<Longrightarrow> quiet owner good safe us' f \<Longrightarrow> us \<subseteq> us' \<Longrightarrow> guarded owner good safe us w0 (f w)"
  unfolding guarded_def quiet_def by (blast intro: same_for_trans frozen_trans)

lemma quiet_same: "guarded owner good safe us w0 w \<Longrightarrow> quiet owner good safe us' f \<Longrightarrow> u \<in> us' \<Longrightarrow> same_for owner w (f w) u"
  unfolding guarded_def quiet_def by blast

lemma observes_projections [intro]: "observes (\<lambda>w. P (blob_file w) (tmp_file w) (blob_rec w) (upload_rec w))"
  unfolding observes_def by (simp add: blob_file_def [abs_def] tmp_file_def [abs_def] blob_rec_def [abs_def] upload_rec_def [abs_def])

lemma observes_guarded [intro]: "observes (guarded owner good safe us w0)"
  unfolding observes_def guarded_def store_ok_def same_for_def frozen_def index_ok_def nameable_def seqs_ok_def advances_def blob_file_def
    tmp_file_def blob_rec_def upload_rec_def path_rec_def
  by simp

section \<open>Paths\<close>

lemma blob_path_inj [simp]: "blob_file_path v h = blob_file_path v' h' \<longleftrightarrow> v = v' \<and> h = h'"
  by (auto simp: blob_file_path_def)

lemma tmp_path_inj [simp]: "tmp_file_path u = tmp_file_path u' \<longleftrightarrow> u = u'"
  by (simp add: tmp_file_path_def)

lemma blob_path_not_tmp [simp]: "blob_file_path v h \<noteq> tmp_file_path u" "tmp_file_path u \<noteq> blob_file_path v h"
  by (simp_all add: blob_file_path_def tmp_file_path_def)

lemmas projections = blob_file_def tmp_file_def blob_rec_def upload_rec_def path_rec_def

section \<open>The steps\<close>

text \<open>Each effect of a handler, as a change of the world that keeps \<open>guarded\<close>.\<close>

definition same_paths :: "world \<Rightarrow> world \<Rightarrow> bool" where
  "same_paths w w' \<longleftrightarrow> blob_path_states (tables (db_conn w')) = blob_path_states (tables (db_conn w)) \<and>
     blob_seq (tables (db_conn w')) = blob_seq (tables (db_conn w))"

lemma same_paths_simps:
  assumes "same_paths w w'"
  shows "path_rec w' = path_rec w" "seqs_ok (tables (db_conn w')) = seqs_ok (tables (db_conn w))"
    "advances (tables (db_conn w)) (tables (db_conn w'))"
  using assms by (simp_all add: fun_eq_iff same_paths_def path_rec_def seqs_ok_def advances_def)

lemma index_frozen:
  assumes "index_ok safe w" and "frozen w w'" and "path_rec w' = path_rec w"
  shows "index_ok safe w'"
proof -
  have "nameable safe w vh svg \<Longrightarrow> nameable safe w' vh svg" for vh svg
    using assms(2) unfolding nameable_def frozen_def by metis
  then show ?thesis
    using assms(1,3) unfolding index_ok_def by simp
qed

lemma guarded_step:
  assumes G: "guarded owner good safe us w0 w"
    and paths: "same_paths w w'" and wf: "tbl_wf (blob_uploads (tables (db_conn w')))"
    and frozen: "frozen w w'" and files: "\<And>vh. blob_rec w' vh \<noteq> None \<Longrightarrow> blob_file w' vh \<noteq> None"
    and good: "\<And>vh b. blob_file w' vh = Some b \<Longrightarrow> good (snd vh) b"
    and uploads: "\<And>u r. upload_rec w' u = Some r \<Longrightarrow> owner u = (upload_vault_id r, hash_claimed r)"
    and same: "\<And>u. u \<in> us \<Longrightarrow> same_for owner w w' u"
  shows "guarded owner good safe us w0 w'"
proof -
  have "index_ok safe w'"
    using index_frozen [OF _ frozen same_paths_simps(1) [OF paths]] G by (simp add: guarded_def store_ok_def)
  moreover have "seqs_ok (tables (db_conn w'))"
    using same_paths_simps(2) [OF paths] G by (simp add: guarded_def store_ok_def)
  ultimately have "store_ok owner good safe w'"
    unfolding store_ok_def using wf files good uploads by blast
  moreover have "frozen w0 w'"
    using G frozen frozen_trans unfolding guarded_def by blast
  moreover have "same_for owner w0 w' u" if "u \<in> us" for u
    using G same [OF that] that same_for_trans unfolding guarded_def by blast
  ultimately show ?thesis by (simp add: guarded_def)
qed

lemma guarded_files:
  assumes "guarded owner good safe us w0 w"
  shows "blob_rec w vh \<noteq> None \<Longrightarrow> blob_file w vh \<noteq> None" "blob_file w vh = Some b \<Longrightarrow> good (snd vh) b"
    "upload_rec w u = Some r \<Longrightarrow> owner u = (upload_vault_id r, hash_claimed r)"
    "tbl_wf (blob_uploads (tables (db_conn w)))"
  using assms unfolding guarded_def store_ok_def by blast+

text \<open>A change of the temporary files only.\<close>

lemma guarded_tmp:
  assumes G: "guarded owner good safe us w0 w" and "db_conn w' = db_conn w" and "blob_file w' = blob_file w"
    and "\<And>u. u \<in> us \<Longrightarrow> tmp_file w' u = tmp_file w u \<or> tmp_file w' u = None"
  shows "guarded owner good safe us w0 w'"
proof -
  have "blob_rec w' = blob_rec w" "upload_rec w' = upload_rec w"
    using assms(2) by (simp_all add: fun_eq_iff projections)
  then show ?thesis
    using assms(2-) guarded_files [OF G] by (intro guarded_step [OF G]) (auto simp: frozen_def same_for_def same_paths_def)
qed

lemma guarded_put_tmp:
  assumes "guarded owner good safe us w0 w" and "u \<notin> us"
  shows "guarded owner good safe us w0 (w\<lparr>files := tbl_put (tmp_file_path u) b (files w)\<rparr>)"
proof (rule guarded_tmp [OF assms(1)])
  fix u' assume "u' \<in> us"
  with assms(2) have "u' \<noteq> u" by blast
  then show "tmp_file (w\<lparr>files := tbl_put (tmp_file_path u) b (files w)\<rparr>) u' = tmp_file w u' \<or>
      tmp_file (w\<lparr>files := tbl_put (tmp_file_path u) b (files w)\<rparr>) u' = None"
    by (simp add: tmp_file_def sql.get_put)
qed (simp_all add: fun_eq_iff blob_file_def sql.get_put)

lemma guarded_del_tmp:
  "guarded owner good safe us w0 w \<Longrightarrow> guarded owner good safe us w0 (w\<lparr>files := tbl_del (tmp_file_path u) (files w)\<rparr>)"
  by (rule guarded_tmp) (auto simp: fun_eq_iff blob_file_def tmp_file_def sql.get_del)

text \<open>A change of the file of an unrecorded blob that no watched upload is for.\<close>

lemma guarded_blob_file:
  assumes G: "guarded owner good safe us w0 w" and us: "\<forall>u' \<in> us. owner u' \<noteq> vh" and none: "blob_rec w vh = None"
    and tables: "db_conn w' = db_conn w"
    and at: "blob_file w' = (blob_file w)(vh := b)" and tmp: "\<And>u'. tmp_file w' u' = tmp_file w u' \<or> tmp_file w' u' = None"
    and good: "\<And>c. b = Some c \<Longrightarrow> good (snd vh) c"
  shows "guarded owner good safe us w0 w'"
proof -
  have recs: "same_paths w w'" "blob_rec w' = blob_rec w" "upload_rec w' = upload_rec w"
    using tables by (simp_all add: fun_eq_iff projections same_paths_def)
  show ?thesis
  proof (rule guarded_step [OF G recs(1)])
    show "blob_file w' vh' \<noteq> None" if "blob_rec w' vh' \<noteq> None" for vh'
      using that none guarded_files(1) [OF G, of vh'] by (auto simp: recs at)
    show "same_for owner w w' u" if "u \<in> us" for u
      using us that tmp [of u] by (auto simp: same_for_def recs at)
  qed (use guarded_files(2-) [OF G] none tables good in \<open>auto simp: frozen_def recs(2,3) at split: if_splits\<close>)
qed

lemma blob_file_upd:
  "blob_file (w\<lparr>files := tbl_del (blob_file_path (fst vh) (snd vh)) (files w)\<rparr>) = (blob_file w)(vh := None)"
  "blob_file (w\<lparr>files := tbl_put (blob_file_path (fst vh) (snd vh)) b (tbl_del (tmp_file_path u) (files w))\<rparr>) =
    (blob_file w)(vh := Some b)"
  by (auto simp: fun_eq_iff blob_file_def sql.get_put sql.get_del prod_eq_iff)

lemma guarded_del_blob:
  assumes "guarded owner good safe us w0 w" and "\<forall>u' \<in> us. owner u' \<noteq> vh" and "blob_rec w vh = None"
  shows "guarded owner good safe us w0 (w\<lparr>files := tbl_del (blob_file_path (fst vh) (snd vh)) (files w)\<rparr>)"
  by (rule guarded_blob_file [OF assms _ blob_file_upd(1)]) (auto simp: tmp_file_def sql.get_del)

lemma guarded_place:
  assumes "guarded owner good safe us w0 w" and "\<forall>u' \<in> us. owner u' \<noteq> vh" and "blob_rec w vh = None" and "good (snd vh) b"
  shows "guarded owner good safe us w0 (w\<lparr>files := tbl_put (blob_file_path (fst vh) (snd vh)) b (tbl_del (tmp_file_path u) (files w))\<rparr>)"
  by (rule guarded_blob_file [OF assms(1-3) _ blob_file_upd(2)]) (auto simp: tmp_file_def sql.get_del sql.get_put assms(4))

lemma guarded_uploads:
  assumes G: "guarded owner good safe us w0 w" and "tbl_wf t"
    and "\<And>u r. tbl_get t u = Some r \<Longrightarrow> owner u = (upload_vault_id r, hash_claimed r)"
  shows "guarded owner good safe us w0 (set_tables ((tables (db_conn w))\<lparr>blob_uploads := t\<rparr>) w)" (is "guarded _ _ _ _ _ ?w")
proof -
  have same: "blob_rec ?w = blob_rec w" "blob_file ?w = blob_file w" "tmp_file ?w = tmp_file w"
      "upload_rec ?w = tbl_get t" "blob_uploads (tables (db_conn ?w)) = t"
    by (simp_all add: fun_eq_iff projections set_tables_def)
  have paths: "same_paths w ?w"
    by (simp add: same_paths_def set_tables_def)
  show ?thesis
    using assms(2,3) guarded_files [OF G] same_paths_simps(3) [OF paths]
    by (intro guarded_step [OF G paths]) (auto simp: frozen_def same_for_def same)
qed

lemma guarded_record:
  assumes G: "guarded owner good safe us w0 w" and us: "\<forall>u' \<in> us. owner u' \<noteq> vh"
    and there: "blob_file w vh \<noteq> None" and none: "blob_rec w vh = None"
  shows "guarded owner good safe us w0 (set_tables ((tables (db_conn w))\<lparr>blobs := tbl_put vh r (blobs (tables (db_conn w)))\<rparr>) w)"
    (is "guarded _ _ _ _ _ ?w")
proof -
  have same: "blob_rec ?w = (blob_rec w)(vh \<mapsto> r)" "upload_rec ?w = upload_rec w" "blob_file ?w = blob_file w"
      "tmp_file ?w = tmp_file w"
      "blob_uploads (tables (db_conn ?w)) = blob_uploads (tables (db_conn w))"
    by (simp_all add: fun_eq_iff projections set_tables_def sql.get_put)
  have paths: "same_paths w ?w"
    by (simp add: same_paths_def set_tables_def)
  then have "frozen w ?w"
    using none same_paths_simps(3) by (auto simp: frozen_def same)
  then show ?thesis
    using us there guarded_files [OF G] by (intro guarded_step [OF G paths]) (auto simp: same_for_def same split: if_splits)
qed

section \<open>Operations\<close>

lemma triple_quiet_gap:
  "quiet owner good safe us f \<Longrightarrow> triple (guarded owner good safe us w0) (gap f) (\<lambda>_. guarded owner good safe us w0) E"
  by (auto intro!: triple_gap intro: guarded_gap)

lemma triple_guarded_lift:
  "triple (guarded owner good safe us w0) (on_db (lift r)) (\<lambda>_. guarded owner good safe us w0) (guarded owner good safe us w0)"
  by (rule triple_lift)

lemma triple_guarded_query:
  "triple (guarded owner good safe us w0) (on_db (query f)) (\<lambda>_. guarded owner good safe us w0) (guarded owner good safe us w0)"
  by (rule triple_query) auto

lemma triple_delete_row:
  "triple (guarded owner good safe us w0) (on_db (delete_upload_row vault_id u)) (\<lambda>_. guarded owner good safe us w0) (guarded owner good safe us w0)"
  unfolding delete_upload_row_def
proof (rule triple_exec)
  fix w assume g: "guarded owner good safe us w0 w"
  then show "guarded owner good safe us w0 (set_tables ((tables (db_conn w))\<lparr>blob_uploads :=
      tbl_keep (\<lambda>k r. \<not> (k = u \<and> upload_vault_id r = vault_id)) (blob_uploads (tables (db_conn w)))\<rparr>) w)"
    by (intro guarded_uploads)
      (auto simp: guarded_def store_ok_def upload_rec_def tbl_wf_keep tbl_get_keep split: option.splits if_splits)
qed auto

lemma triple_remove_tmp:
  "triple (guarded owner good safe us w0) (remove_file (tmp_file_path u)) (\<lambda>_. guarded owner good safe us w0) (guarded owner good safe us w0)"
  unfolding remove_file_def by (rule triple_file_op) (auto intro: guarded_del_tmp split: if_splits)

lemma triple_discard:
  "triple (guarded owner good safe us w0) (discard_upload vault_id u) (\<lambda>_. guarded owner good safe us w0) E"
  unfolding discard_upload_def
  by (rule triple_bind [OF triple_ignore [OF triple_delete_row]]) (rule triple_ignore [OF triple_remove_tmp])

lemma triple_discard_then:
  assumes "triple (guarded owner good safe us w0) k Q E"
  shows "triple (guarded owner good safe us w0) (bind_act (discard_upload vault_id u) (\<lambda>_. k)) Q E"
  by (rule triple_bind [OF triple_discard assms])

lemmas observables = observes_def guarded_def store_ok_def same_for_def frozen_def index_ok_def nameable_def seqs_ok_def
  advances_def projections

text \<open>\<open>read_upload\<close> returns a row of the vault, so the id was issued for it.\<close>

lemma triple_with_upload:
  assumes "\<And>row. owner u = (vault_id, view_hash row) \<Longrightarrow>
      triple (guarded owner good safe us w0) (k row) (\<lambda>_. guarded owner good safe us w0) (guarded owner good safe us w0)"
  shows "triple (guarded owner good safe us w0) (with_upload vault_id u k) (\<lambda>_. guarded owner good safe us w0) (guarded owner good safe us w0)"
  unfolding with_upload_def
proof (rule triple_bind)
  let ?Q = "\<lambda>found w. (\<forall>row. found = Some row \<longrightarrow> owner u = (vault_id, view_hash row)) \<and> guarded owner good safe us w0 w"
  have "observes (?Q found)" for found
    by (rule observes_conj [OF observes_const observes_guarded])
  moreover have "owner u = (upload_vault_id r, hash_claimed r)"
    if "guarded owner good safe us w0 w" "tbl_get (blob_uploads (tables (db_conn w))) u = Some r" for w r
    using that by (simp add: guarded_def store_ok_def upload_rec_def)
  ultimately show "triple (guarded owner good safe us w0) (on_db (read_upload vault_id u)) ?Q (guarded owner good safe us w0)"
    unfolding read_upload_def by (intro triple_query) (auto split: option.splits)
  show "triple (?Q found) (case found of None \<Rightarrow> done_with upload_not_found
      | Some row \<Rightarrow> if view_expired row then bind_act (discard_upload vault_id u) (\<lambda>_. done_with upload_not_found) else k row)
      (\<lambda>_. guarded owner good safe us w0) (guarded owner good safe us w0)" for found
    by (intro triple_pure triple_option triple_if triple_discard_then triple_done assms) auto
qed

section \<open>Placing a blob\<close>

text \<open>
  The stations of \<open>place_blob\<close>.  First the temporary file holds the checked content or is gone, and the
  request knows whether the blob is there (\<open>ex\<close>); then it is there, and without a row if this request
  placed it.
\<close>

definition checked where
  "checked owner good safe us w0 u content w \<longleftrightarrow> guarded owner good safe us w0 w \<and> tmp_file w u \<in> {Some content, None}"

definition looked where
  "looked owner good safe us w0 u content ex w \<longleftrightarrow> checked owner good safe us w0 u content w \<and> (blob_file w (owner u) \<noteq> None \<longleftrightarrow> ex)"

definition unrecorded where
  "unrecorded owner good safe us w0 u ex w \<longleftrightarrow> guarded owner good safe us w0 w \<and> (ex \<or> blob_rec w (owner u) = None)"

definition placed where
  "placed owner good safe us w0 u ex w \<longleftrightarrow> unrecorded owner good safe us w0 u ex w \<and> blob_file w (owner u) \<noteq> None"

lemmas station_defs = checked_def looked_def unrecorded_def placed_def

lemma observes_stations [intro]:
  "observes (checked owner good safe us w0 u content)" "observes (looked owner good safe us w0 u content ex)"
  "observes (unrecorded owner good safe us w0 u ex)" "observes (placed owner good safe us w0 u ex)"
  by (auto simp: station_defs observables)

lemma stations_guarded [dest]:
  "checked owner good safe us w0 u content w \<Longrightarrow> guarded owner good safe us w0 w"
  "looked owner good safe us w0 u content ex w \<Longrightarrow> guarded owner good safe us w0 w"
  "unrecorded owner good safe us w0 u ex w \<Longrightarrow> guarded owner good safe us w0 w"
  "placed owner good safe us w0 u ex w \<Longrightarrow> guarded owner good safe us w0 w"
  by (simp_all add: station_defs)

lemma stations_quiet:
  assumes "quiet owner good safe (insert u us) f"
  shows "triple (checked owner good safe us w0 u content) (gap f) (\<lambda>_. checked owner good safe us w0 u content) E"
    "triple (looked owner good safe us w0 u content ex) (gap f) (\<lambda>_. looked owner good safe us w0 u content ex) E"
    "triple (placed owner good safe us w0 u ex) (gap f) (\<lambda>_. placed owner good safe us w0 u ex) E"
    "triple (guarded owner good safe us w0) (gap f) (\<lambda>_. guarded owner good safe us w0) E"
proof -
  have kept: "guarded owner good safe us w0 w \<Longrightarrow> blob_file (f w) (owner u) = blob_file w (owner u)"
      "guarded owner good safe us w0 w \<Longrightarrow> blob_rec (f w) (owner u) = blob_rec w (owner u)"
      "guarded owner good safe us w0 w \<Longrightarrow> tmp_file w u \<in> {Some content, None} \<Longrightarrow> tmp_file (f w) u \<in> {Some content, None}"
      "guarded owner good safe us w0 w \<Longrightarrow> guarded owner good safe us w0 (f w)" for w
    using quiet_same [OF _ assms, of us w0 w u] guarded_gap [OF _ assms, of us w0 w]
    by (auto simp: same_for_def subset_insertI)
  from kept show "triple (checked owner good safe us w0 u content) (gap f) (\<lambda>_. checked owner good safe us w0 u content) E"
    "triple (looked owner good safe us w0 u content ex) (gap f) (\<lambda>_. looked owner good safe us w0 u content ex) E"
    "triple (placed owner good safe us w0 u ex) (gap f) (\<lambda>_. placed owner good safe us w0 u ex) E"
    "triple (guarded owner good safe us w0) (gap f) (\<lambda>_. guarded owner good safe us w0) E"
    by (auto intro!: triple_gap simp del: insert_iff simp: station_defs)
qed

lemma blob_file_owner: "owner u = (vault_id, hash) \<Longrightarrow> blob_file w (owner u) = tbl_get (files w) (blob_file_path vault_id hash)"
  by (simp add: blob_file_def)

lemma triple_create_dir_all:
  "triple (checked owner good safe us w0 u content) create_dir_all (\<lambda>_. checked owner good safe us w0 u content) (guarded owner good safe us w0)"
  unfolding create_dir_all_def by (rule triple_file_op) auto

lemma triple_try_exists:
  assumes "owner u = (vault_id, hash)"
  shows "triple (checked owner good safe us w0 u content) (try_exists (blob_file_path vault_id hash))
      (looked owner good safe us w0 u content) (guarded owner good safe us w0)"
  unfolding try_exists_def
  by (rule triple_file_op) (auto simp: looked_def blob_file_owner [where owner = owner and u = u, OF assms])

lemma triple_drop_tmp:
  "triple (looked owner good safe us w0 u content True) (ignore (remove_file (tmp_file_path u)))
     (\<lambda>_. placed owner good safe us w0 u True) E"
  unfolding remove_file_def
  by (rule triple_ignore, rule triple_file_op)
    (auto split: if_splits intro: guarded_del_tmp simp: station_defs blob_file_def sql.get_del)

lemma triple_sync_existing:
  "triple (looked owner good safe us w0 u content ex) (sync_existing p) (\<lambda>_. looked owner good safe us w0 u content ex)
     (guarded owner good safe us w0)"
  unfolding sync_existing_def by (rule triple_file_op) (auto split: if_splits)

lemma triple_rename:
  assumes us: "\<forall>u' \<in> us. owner u' \<noteq> owner u" and own: "owner u = (vault_id, hash)" and good: "good hash content"
  shows "triple (looked owner good safe us w0 u content False) (rename_file (tmp_file_path u) (blob_file_path vault_id hash))
      (\<lambda>_. placed owner good safe us w0 u False) (guarded owner good safe us w0)"
  unfolding rename_file_def
proof (rule triple_file_op)
  let ?tmp = "tmp_file_path u" and ?dest = "blob_file_path vault_id hash"
  fix w x fs
  assume L: "looked owner good safe us w0 u content False w"
    and run: "(case tbl_get (files w) ?tmp of None \<Rightarrow> Inl not_found
      | Some b \<Rightarrow> Inr ((), tbl_put ?dest b (tbl_del ?tmp (files w)))) = Inr (x, fs)"
  then have fs: "fs = tbl_put ?dest content (tbl_del ?tmp (files w))"
    by (auto simp: station_defs tmp_file_def split: option.splits)
  have G: "guarded owner good safe us w0 w" using L by auto
  have "blob_rec w (owner u) = None"
    using L by (metis G guarded_def looked_def store_ok_def)
  moreover from this have "guarded owner good safe us w0 (w\<lparr>files := fs\<rparr>)"
    unfolding fs using G us good guarded_place [of owner good safe us w0 w "owner u" content u] own by simp
  ultimately show "placed owner good safe us w0 u False (w\<lparr>files := fs\<rparr>)"
    by (simp add: station_defs blob_file_owner [where owner = owner and u = u, OF own] fs sql.get_put blob_rec_def)
qed auto

lemma triple_insert_blob:
  assumes us: "\<forall>u' \<in> us. owner u' \<noteq> owner u" and own: "owner u = (vault_id, hash)"
  shows "triple (placed owner good safe us w0 u ex) (attempt (on_db (insert_blob vault_id hash n)))
      (\<lambda>r w. unrecorded owner good safe us w0 u (ex \<or> (\<exists>k. r = Inr k)) w) E"
  unfolding insert_blob_def
proof (rule triple_attempt, rule triple_stmt)
  fix w x d
  assume P: "placed owner good safe us w0 u ex w" and run: "(case tbl_get (blobs (tables (db_conn w))) (vault_id, hash) of
      None \<Rightarrow> Inr (1, (tables (db_conn w))\<lparr>blobs := tbl_put (vault_id, hash)
        \<lparr>blob_size = n, blob_created_at = now (db_conn w)\<rparr> (blobs (tables (db_conn w)))\<rparr>)
    | Some _ \<Rightarrow> Inr (0, tables (db_conn w))) = Inr (x, d)"
  then have "guarded owner good safe us w0 (set_tables d w)"
    using us own guarded_record [of owner good safe us w0 w "owner u"]
    by (auto simp: placed_def unrecorded_def blob_rec_def split: option.splits)
  then show "unrecorded owner good safe us w0 u (ex \<or> (\<exists>k. Inr x = Inr k)) (set_tables d w)"
    by (simp add: unrecorded_def)
qed (auto simp: placed_def unrecorded_def)

lemma triple_undo:
  assumes us: "\<forall>u' \<in> us. owner u' \<noteq> owner u" and own: "owner u = (vault_id, hash)"
  shows "triple (unrecorded owner good safe us w0 u False) (ignore (remove_file (blob_file_path vault_id hash)))
      (\<lambda>_. guarded owner good safe us w0) E"
  unfolding remove_file_def using us own guarded_del_blob [of owner good safe us w0 _ "owner u"]
  by (intro triple_ignore triple_file_op) (auto split: if_splits simp: unrecorded_def)

lemma triple_blob_recorded:
  assumes "owner u = (vault_id, hash)"
  shows "triple (guarded owner good safe us w0) (on_db (blob_recorded vault_id hash))
     (\<lambda>present w. unrecorded owner good safe us w0 u present w) (guarded owner good safe us w0)"
  unfolding blob_recorded_def
  by (rule triple_query) (auto simp: unrecorded_def assms blob_rec_def)

lemma triple_place_blob:
  assumes q: "\<And>i. 1 < i \<Longrightarrow> quiet owner good safe (insert u us) (g i)"
    and us: "\<forall>u' \<in> us. owner u' \<noteq> owner u" and own: "owner u = (vault_id, view_hash row)"
    and good: "good (view_hash row) content"
  shows "triple (checked owner good safe us w0 u content) (place_blob g vault_id u row)
      (\<lambda>_. guarded owner good safe us w0) (guarded owner good safe us w0)"
proof -
  let ?G = "guarded owner good safe us w0" and ?tmp = "tmp_file_path u" and ?dest = "blob_file_path vault_id (view_hash row)"
  note gap = stations_quiet [OF q]
  have move: "triple (looked owner good safe us w0 u content ex) (if ex then ignore (remove_file ?tmp)
      else bind_act (sync_existing ?tmp) (\<lambda>_. bind_act (gap (g 8)) (\<lambda>_. rename_file ?tmp ?dest)))
      (\<lambda>_. placed owner good safe us w0 u ex) ?G" for ex
    using triple_drop_tmp triple_bind [OF triple_sync_existing triple_bind [OF gap(2) [of 8] triple_rename [where owner = owner and u = u and good = good and content = content, OF us own good]]]
    by (cases ex) auto
  have failed: "triple (unrecorded owner good safe us w0 u (ex \<or> (\<exists>k. Inl e = Inr k)))
      (bind_act (if ex then done_with () else ignore (remove_file ?dest)) (\<lambda>_.
       bind_act (discard_upload vault_id u) (\<lambda>_. fail_with e))) (\<lambda>_. ?G) ?G" for ex e
    by (rule triple_bind [where R = "\<lambda>_. ?G"])
      (auto intro!: triple_discard_then triple_fail triple_done simp: triple_undo [where owner = owner and u = u, OF us own])
  have confirm: "triple ?G (if b then bind_act (on_db (blob_recorded vault_id (view_hash row))) (\<lambda>has_row.
        if has_row then done_with ()
        else bind_act (ignore (remove_file ?dest)) (\<lambda>_. bind_act (discard_upload vault_id u) (\<lambda>_. fail_with e)))
      else done_with ()) (\<lambda>_. ?G) ?G" for b e
    by (auto intro!: triple_if triple_done triple_bind [OF triple_blob_recorded [where owner = owner and u = u, OF own]] triple_discard_then triple_fail
        triple_bind [OF triple_undo [where owner = owner and u = u, OF us own]])
  have finish: "triple ?G (bind_act (on_db (delete_upload_row vault_id u)) (\<lambda>_. done_with r)) (\<lambda>_. ?G) ?G" for r
    by (rule triple_bind [OF triple_delete_row triple_done])
  show ?thesis
    unfolding place_blob_def Let_def
    apply (rule triple_bind [OF triple_create_dir_all])
    apply (rule triple_bind [OF gap(1) [of 6]], simp)
    apply (rule triple_bind [OF triple_try_exists [where owner = owner and u = u, OF own]])
    apply (rule triple_bind [OF gap(2) [of 7]], simp)
    apply (rule triple_bind [OF move])
    apply (rule triple_bind [OF gap(3) [of 9]], simp)
    apply (rule triple_bind [OF triple_insert_blob [where owner = owner and u = u, OF us own]])
    apply (rule triple_sum)
     apply (simp only:, rule failed)
    apply (rule triple_pre [where P' = ?G])
     apply (rule triple_bind [OF gap(4) [of 10]], simp)
     apply (rule triple_bind [OF confirm])
     apply (rule triple_bind [OF gap(4) [of 11]], simp)
     apply (rule finish)
    apply auto
    done
qed

section \<open>Receiving\<close>

lemma triple_write_tmp:
  assumes "u \<notin> us"
  shows "triple (guarded owner good safe us w0) (write_at (tmp_file_path u) off buf) (\<lambda>_. guarded owner good safe us w0) (guarded owner good safe us w0)"
  unfolding write_at_def
  by (rule triple_file_op) (auto intro: guarded_put_tmp [OF _ assms])

lemma triple_record_progress:
  "triple (guarded owner good safe us w0) (on_db (record_progress vault_id u n)) (\<lambda>_. guarded owner good safe us w0) (guarded owner good safe us w0)"
  unfolding record_progress_def
proof (rule triple_exec)
  fix w assume G: "guarded owner good safe us w0 w"
  let ?t = "blob_uploads (tables (db_conn w))"
  have ok: "tbl_wf ?t" "tbl_get ?t k = Some r \<Longrightarrow> owner k = (upload_vault_id r, hash_claimed r)" for k r
    using G by (simp_all add: guarded_def store_ok_def upload_rec_def)
  show "guarded owner good safe us w0 (set_tables (case tbl_get ?t u of None \<Rightarrow> tables (db_conn w)
      | Some r \<Rightarrow> if upload_vault_id r = vault_id
          then (tables (db_conn w))\<lparr>blob_uploads := tbl_put u (r\<lparr>received_bytes := n, upload_updated_at := now (db_conn w)\<rparr>) ?t\<rparr>
          else tables (db_conn w)) w)"
    using G ok by (auto intro!: guarded_uploads sql.wf_put simp: sql.get_put split: option.splits if_splits)
qed auto

lemma triple_read_tmp:
  "triple (guarded owner good safe us w0) (read_file (tmp_file_path u)) (\<lambda>content. checked owner good safe us w0 u content) (guarded owner good safe us w0)"
  unfolding read_file_def
  by (rule triple_file_op) (auto simp: checked_def tmp_file_def split: option.splits)

lemma triple_finalize:
  assumes q: "\<And>i. 1 < i \<Longrightarrow> quiet owner (clean blake3 filter_svg) (is_fixpoint filter_svg) (insert u us) (g i)"
    and us: "\<forall>u' \<in> us. owner u' \<noteq> owner u" and own: "owner u = (vault_id, view_hash row)"
  shows "triple (guarded owner (clean blake3 filter_svg) (is_fixpoint filter_svg) us w0) (finalize_upload blake3 filter_svg g vault_id u row n)
      (\<lambda>_. guarded owner (clean blake3 filter_svg) (is_fixpoint filter_svg) us w0) (guarded owner (clean blake3 filter_svg) (is_fixpoint filter_svg) us w0)"
proof -
  let ?good = "clean blake3 filter_svg"
  note discard = triple_pre [OF triple_discard_then [OF triple_done] stations_guarded(1)]
  have place: "triple (checked owner ?good (is_fixpoint filter_svg) us w0 u content) (place_blob g vault_id u row)
      (\<lambda>_. guarded owner ?good (is_fixpoint filter_svg) us w0) (guarded owner ?good (is_fixpoint filter_svg) us w0)"
    if "blake3 content = view_hash row"
      "(if looks_like_svg content then svg_fixpoint_error filter_svg content else None) = None" for content
    using that by (intro triple_place_blob [OF q us own]) (auto simp: clean_def)
  show ?thesis
    unfolding finalize_upload_def
    apply (intro triple_if)
     apply (rule triple_discard_then [OF triple_done], assumption)
    apply (rule triple_bind [OF triple_read_tmp])
    apply (rule triple_bind [OF stations_quiet(1) [OF q]], simp)
    apply (intro triple_if triple_option discard; (rule place)?; assumption?)
    apply auto
    done
qed

lemma triple_put_locked:
  assumes q: "\<And>i. 1 < i \<Longrightarrow> quiet owner (clean blake3 filter_svg) (is_fixpoint filter_svg) (insert u us) (g i)"
    and us: "\<forall>u' \<in> us. owner u' \<noteq> owner u" and own: "owner u = (vault_id, view_hash row)"
  shows "triple (guarded owner (clean blake3 filter_svg) (is_fixpoint filter_svg) us w0) (put_locked blake3 filter_svg g vault_id u seg row)
      (\<lambda>_. guarded owner (clean blake3 filter_svg) (is_fixpoint filter_svg) us w0) (guarded owner (clean blake3 filter_svg) (is_fixpoint filter_svg) us w0)"
proof -
  have "u \<notin> us" using us by blast
  note gap = stations_quiet(4) [OF q]
  show ?thesis
    unfolding put_locked_def Let_def
    apply (intro triple_if triple_done; assumption?)
    apply (rule triple_bind [OF gap [of 2]], simp)
    apply (rule triple_bind [OF triple_write_tmp [OF \<open>u \<notin> us\<close>]])
    apply (rule triple_bind [OF gap [of 3]], simp)
    apply (rule triple_bind [OF triple_record_progress])
    apply (intro triple_if triple_done; assumption?)
    apply (rule triple_bind [OF gap [of 4]], simp)
    apply (rule triple_finalize [OF q us own], assumption)
    done
qed

lemma triple_put_upload:
  assumes early: "quiet owner (clean blake3 filter_svg) (is_fixpoint filter_svg) us (g 0)" "quiet owner (clean blake3 filter_svg) (is_fixpoint filter_svg) us (g 1)"
    and q: "\<And>i. 1 < i \<Longrightarrow> quiet owner (clean blake3 filter_svg) (is_fixpoint filter_svg) (insert u us) (g i)"
    and us: "\<forall>u' \<in> us. owner u' \<noteq> owner u"
  shows "triple (guarded owner (clean blake3 filter_svg) (is_fixpoint filter_svg) us w0) (put_upload blake3 filter_svg J st secs g u hdrs chunks)
      (\<lambda>_. guarded owner (clean blake3 filter_svg) (is_fixpoint filter_svg) us w0) (guarded owner (clean blake3 filter_svg) (is_fixpoint filter_svg) us w0)"
proof -
  let ?G = "guarded owner (clean blake3 filter_svg) (is_fixpoint filter_svg) us w0"
  note gap = triple_quiet_gap
  show ?thesis
    unfolding put_upload_def
    apply (rule triple_bind [OF triple_guarded_lift])
    apply (rule triple_bind [OF triple_guarded_lift])
    apply (intro triple_sum triple_done, assumption)
    apply (rule triple_bind [OF gap [OF early(1)]])
    apply (rule triple_with_upload)
    apply (rule triple_bind [OF gap [OF early(2)]])
    apply (rule triple_with_upload)
    apply (rule triple_put_locked [OF q us], assumption, assumption)
    done
qed

end
