(* ===== verification/Blob_Runs.thy ===== *)
theory Blob_Runs
  imports Blob_Safety
begin

text \<open>
  The requests of the blob store as they interleave.  \<open>schedule\<close> builds what the other requests do
  during a gap out of the handlers themselves, so that nothing is assumed about the gaps; that a
  schedule is quiet is a theorem, by rule induction.
\<close>

section \<open>The other handlers\<close>

lemma triple_check_quota:
  "triple (guarded owner good safe us w0) (on_db (check_quota st vault_id n)) (\<lambda>_. guarded owner good safe us w0) (guarded owner good safe us w0)"
proof -
  have "tables (snd (check_quota st vault_id n c)) = tables c" for c
  proof -
    have "keeps (\<lambda>d. d = tables c) (check_quota st vault_id n)"
      unfolding check_quota_def Let_def by (intro keeps_intros)
    then show ?thesis by (simp add: keeps_def)
  qed
  then have "guarded owner good safe us w0 (snd (on_db (check_quota st vault_id n) w))" if "guarded owner good safe us w0 w" for w
    using observesD [OF observes_guarded that] by (simp add: on_db_def split_beta)
  then show ?thesis by (auto simp: triple_def split: sum.splits)
qed

lemma triple_guarded_dirs: "triple (guarded owner good safe us w0) create_dir_all (\<lambda>_. guarded owner good safe us w0) (guarded owner good safe us w0)"
  unfolding create_dir_all_def by (rule triple_file_op) auto

lemma triple_create_file:
  assumes "u \<notin> us"
  shows "triple (guarded owner good safe us w0) (create_file (tmp_file_path u)) (\<lambda>_. guarded owner good safe us w0) (guarded owner good safe us w0)"
  unfolding create_file_def by (rule triple_file_op) (auto intro: guarded_put_tmp [OF _ assms])

lemma triple_insert_upload:
  assumes "owner u = (vault_id, hash)"
  shows "triple (guarded owner good safe us w0) (attempt (on_db (insert_upload vault_id u hash n))) (\<lambda>_. guarded owner good safe us w0) E"
  unfolding insert_upload_def
proof (rule triple_attempt, rule triple_stmt)
  fix w x d
  assume G: "guarded owner good safe us w0 w"
    and run: "(if tbl_get (blob_uploads (tables (db_conn w))) u \<noteq> None then Inl ''UNIQUE constraint failed''
      else Inr ((), (tables (db_conn w))\<lparr>blob_uploads := tbl_put u \<lparr>upload_vault_id = vault_id, hash_claimed = hash,
        size_claimed = n, received_bytes = 0, upload_created_at = now (db_conn w), upload_updated_at = now (db_conn w)\<rparr>
        (blob_uploads (tables (db_conn w)))\<rparr>)) = Inr (x, d)"
  have "tbl_wf (blob_uploads (tables (db_conn w)))"
      "tbl_get (blob_uploads (tables (db_conn w))) k = Some r \<Longrightarrow> owner k = (upload_vault_id r, hash_claimed r)" for k r
    using G by (simp_all add: guarded_def store_ok_def upload_rec_def)
  then show "guarded owner good safe us w0 (set_tables d w)"
    using run G assms by (auto intro!: guarded_uploads sql.wf_put simp: sql.get_put split: if_splits)
qed auto

lemma triple_create_upload:
  assumes "quiet owner good safe us (g 0)" and "quiet owner good safe us (g 1)" and u: "u \<notin> us"
    and own: "\<And>v. vault_auth J st secs hdrs = Inr v \<Longrightarrow> owner u = (v, create_hash rq)"
  shows "triple (guarded owner good safe us w0) (create_upload J st secs g u hdrs rq) (\<lambda>_. guarded owner good safe us w0) (guarded owner good safe us w0)"
proof -
  let ?G = "guarded owner good safe us w0"
  have auth: "triple ?G (on_db (lift (vault_auth J st secs hdrs))) (\<lambda>v w. owner u = (v, create_hash rq) \<and> ?G w) ?G"
    by (rule triple_lift) (auto simp: own)
  note steps = triple_bind [OF triple_guarded_query] triple_bind [OF triple_quiet_gap [OF assms(1)]]
    triple_bind [OF triple_check_quota] triple_bind [OF triple_guarded_dirs] triple_bind [OF triple_create_file [OF u]]
    triple_bind [OF triple_quiet_gap [OF assms(2)]] triple_bind [OF triple_ignore [OF triple_remove_tmp]]
  have insert: "triple ?G (bind_act (attempt (on_db (insert_upload v u (create_hash rq) n))) f) (\<lambda>_. ?G) ?G"
    if "owner u = (v, create_hash rq)" "\<And>r. triple ?G (f r) (\<lambda>_. ?G) ?G" for v n f
    using triple_bind [OF triple_insert_upload] that by blast
  have verdicts: "triple ?G (case v of TooMany \<Rightarrow> a | OverQuota q \<Rightarrow> b q | WithinQuota \<Rightarrow> c) (\<lambda>_. ?G) ?G"
    if "triple ?G a (\<lambda>_. ?G) ?G" "\<And>q. triple ?G (b q) (\<lambda>_. ?G) ?G" "triple ?G c (\<lambda>_. ?G) ?G"
    for v and a :: "response act" and b c
    using that by (cases v) auto
  show ?thesis
    unfolding create_upload_def
    by (rule triple_bind [OF auth], rule triple_pure)
      (intro triple_if steps verdicts insert triple_sum triple_done triple_fail; assumption)
qed

lemma triple_get_upload:
  "triple (guarded owner good safe us w0) (get_upload J st secs u hdrs) (\<lambda>_. guarded owner good safe us w0) (guarded owner good safe us w0)"
proof -
  have "get_upload J st secs u hdrs = bind_act (on_db (lift (vault_auth J st secs hdrs))) (\<lambda>v.
      with_upload v u (\<lambda>row. done_with (json_response 200 (JObj [(''next_offset'', JInt (view_received row)),
        (''hash'', JStr (view_hash row)), (''size'', JInt (view_size row)), (''segment_bytes'', JInt (int SEGMENT_BYTES))]))))"
    by (simp add: get_upload_def with_upload_def)
  then show ?thesis
    by (auto intro!: triple_bind [OF triple_guarded_lift] triple_with_upload triple_done)
qed

lemma triple_sweep_loop:
  "triple (guarded owner good safe us w0) (sweep_loop rows n) (\<lambda>_. guarded owner good safe us w0) (guarded owner good safe us w0)"
  by (induction rows n rule: sweep_loop.induct)
    (auto intro!: triple_done triple_discard_then triple_bind [OF triple_guarded_query])

lemma triple_sweep:
  "triple (guarded owner good safe us w0) sweep_expired_uploads (\<lambda>_. guarded owner good safe us w0) (guarded owner good safe us w0)"
  unfolding sweep_expired_uploads_def by (rule triple_bind [OF triple_guarded_query triple_sweep_loop])

section \<open>Downloads\<close>

text \<open>What a download may be: the whole content of the hash, or the part the range header names.\<close>

definition served :: "(string \<Rightarrow> bytes \<Rightarrow> bool) \<Rightarrow> string \<Rightarrow> string option \<Rightarrow> reply \<Rightarrow> bool" where
  "served good hash rng reply \<longleftrightarrow> (case reply of
     JsonReply r \<Rightarrow> status r \<notin> {200, 206}
   | BytesReply s bs _ \<Rightarrow> \<exists>b. good hash b \<and> (if s = 200 then bs = b
       else s = 206 \<and> (\<exists>h start stop. rng = Some h \<and> parse_byte_range h (length b) = Inr (Some (start, stop)) \<and>
         bs = take (stop + 1 - start) (drop start b))))"

text \<open>The assertion of a download: the blob is recorded, and after \<open>metadata\<close> its content is known.\<close>

definition reading where
  "reading owner good safe us w0 vh content w \<longleftrightarrow> guarded owner good safe us w0 w \<and> blob_rec w vh \<noteq> None \<and>
     (case content of None \<Rightarrow> True | Some b \<Rightarrow> blob_file w vh = Some b \<and> good (snd vh) b)"

lemma observes_reading [intro]: "observes (reading owner good safe us w0 vh content)"
  by (cases content) (simp_all add: reading_def observables)

lemma reading_guarded: "reading owner good safe us w0 vh content w \<Longrightarrow> guarded owner good safe us w0 w"
  by (simp add: reading_def)

lemma reading_gap:
  assumes "quiet owner good safe us f"
  shows "triple (reading owner good safe us w0 vh content) (gap f) (\<lambda>_. reading owner good safe us w0 vh content) E"
proof (rule triple_gap)
  fix w assume R: "reading owner good safe us w0 vh content w"
  have "frozen w (f w)" "guarded owner good safe us w0 (f w)"
    using R assms guarded_gap [OF reading_guarded [OF R] assms] by (auto simp: reading_def guarded_def quiet_def)
  moreover from this have "blob_rec (f w) vh = blob_rec w vh" "blob_file (f w) vh = blob_file w vh"
    using R unfolding reading_def frozen_def by metis+
  ultimately show "reading owner good safe us w0 vh content (f w)"
    using R by (auto simp: reading_def split: option.splits)
qed

lemma triple_find_blob:
  "triple (guarded owner good safe us w0) (on_db (query (\<lambda>_ d. map_option blob_size (tbl_get (blobs d) vh))))
     (\<lambda>found w. if found = None then guarded owner good safe us w0 w else reading owner good safe us w0 vh None w)
     (guarded owner good safe us w0)"
proof (rule triple_query)
  show "observes (\<lambda>w. if found = None then guarded owner good safe us w0 w else reading owner good safe us w0 vh None w)" for found
    by (cases "found = None") auto
qed (auto simp: reading_def blob_rec_def)

lemma triple_metadata:
  "triple (reading owner good safe us w0 (v, hash) None) (read_if_present (blob_file_path v hash))
     (\<lambda>meta. reading owner good safe us w0 (v, hash) meta) (guarded owner good safe us w0)"
  unfolding read_if_present_def
proof (rule triple_file_op)
  fix w x fs
  assume R: "reading owner good safe us w0 (v, hash) None w" and run: "Inr (tbl_get (files w) (blob_file_path v hash), files w) = Inr (x, fs)"
  have "good hash b" if "blob_file w (v, hash) = Some b" for b
    using R that by (auto simp: reading_def guarded_def store_ok_def)
  then show "reading owner good safe us w0 (v, hash) x (w\<lparr>files := fs\<rparr>)"
    using R run by (auto simp: reading_def blob_file_def split: option.splits)
qed (auto dest: reading_guarded)

lemma triple_serve_range:
  assumes "\<And>bs hs. good hash b \<Longrightarrow> bs = take (if length b = 0 then 0 else sat_add (sat_sub stop start) 1) (drop start b) \<Longrightarrow>
      served good hash rng (BytesReply s bs hs)"
  shows "triple (reading owner good safe us w0 (v, hash) (Some b)) (serve_range (blob_file_path v hash) hash s start stop (length b))
     (\<lambda>reply w. guarded owner good safe us w0 w \<and> served good hash rng reply) (guarded owner good safe us w0)"
proof -
  let ?len = "if length b = 0 then 0 else sat_add (sat_sub stop start) 1"
  have "triple (reading owner good safe us w0 (v, hash) (Some b)) (read_range (blob_file_path v hash) start ?len)
      (\<lambda>bs w. (good hash b \<and> bs = take ?len (drop start b)) \<and> guarded owner good safe us w0 w) (guarded owner good safe us w0)"
    unfolding read_range_def
    by (rule triple_file_op)
      (auto simp: reading_def blob_file_def split: if_splits intro!: observes_conj [OF observes_const observes_guarded, simplified])
  then show ?thesis
    unfolding serve_range_def Let_def
    by (rule triple_bind) (rule triple_pure, rule triple_done, simp add: assms)
qed

lemma triple_json:
  "status r \<notin> {200, 206} \<Longrightarrow> (\<And>w. P w \<Longrightarrow> guarded owner good safe us w0 w) \<Longrightarrow>
   triple P (done_with (JsonReply r)) (\<lambda>reply w. guarded owner good safe us w0 w \<and> served good hash rng reply) E"
  by (intro triple_done) (simp add: served_def)

lemma triple_serve_blob:
  assumes b: "length b \<le> u64_max"
  shows "triple (reading owner good safe us w0 (v, hash) (Some b)) (serve_blob (blob_file_path v hash) hash rng (length b))
     (\<lambda>reply w. guarded owner good safe us w0 w \<and> served good hash rng reply) (guarded owner good safe us w0)"
proof -
  let ?Q = "\<lambda>reply w. guarded owner good safe us w0 w \<and> served good hash rng reply"
  have whole: "triple (reading owner good safe us w0 (v, hash) (Some b))
      (serve_range (blob_file_path v hash) hash 200 0 (sat_sub (length b) 1) (length b)) ?Q (guarded owner good safe us w0)"
    by (rule triple_serve_range) (use b in \<open>simp add: served_def sat_add_def sat_sub_def split: if_splits\<close>)
  have part: "triple (reading owner good safe us w0 (v, hash) (Some b))
      (serve_range (blob_file_path v hash) hash 206 s e (length b))
      (\<lambda>reply w. guarded owner good safe us w0 w \<and> served good hash (Some h) reply) (guarded owner good safe us w0)"
    if "parse_byte_range h (length b) = Inr (Some (s, e))" for h s e
  proof (rule triple_serve_range)
    fix bs hs
    assume "good hash b" and bs: "bs = take (if length b = 0 then 0 else sat_add (sat_sub e s) 1) (drop s b)"
    have "s \<le> e \<and> e < length b"
      using byte_range_inside [where header = h and n = "length b"] that by simp
    then have "sat_add (sat_sub e s) 1 = e + 1 - s" "length b \<noteq> 0"
      using b by (auto simp: sat_add_def sat_sub_def)
    then have "bs = take (e + 1 - s) (drop s b)"
      using bs by simp
    with that \<open>good hash b\<close> show "served good hash (Some h) (BytesReply 206 bs hs)"
      by (auto simp: served_def)
  qed
  show ?thesis
    unfolding serve_blob_def Let_def
    by (intro triple_option triple_sum whole)
      (auto intro!: triple_json part dest: reading_guarded split: option.splits simp: json_error_def json_response_def)
qed

lemma triple_get_blob:
  assumes q: "quiet owner good safe us (g 0)" "quiet owner good safe us (g 1)"
  shows "triple (guarded owner good safe us w0) (get_blob J st secs g hash hdrs)
     (\<lambda>reply w. guarded owner good safe us w0 w \<and> served good hash (hdrs ''range'') reply) (guarded owner good safe us w0)"
proof -
  let ?Q = "\<lambda>reply w. guarded owner good safe us w0 w \<and> served good hash (hdrs ''range'') reply"
  have missing: "triple P (done_with blob_not_found) ?Q E" if "\<And>w. P w \<Longrightarrow> guarded owner good safe us w0 w" for P E
    unfolding blob_not_found_def by (rule triple_json) (simp_all add: json_error_def json_response_def that)
  have answer: "triple (reading owner good safe us w0 (v, hash) (Some b)) (serve_blob (blob_file_path v hash) hash (hdrs ''range'') n)
      ?Q (guarded owner good safe us w0)" if "\<not> length b \<noteq> as_u64 m" "n = as_u64 m" for v b m n
    using that triple_serve_blob [of b] as_u64_le [of m] by simp
  show ?thesis
    unfolding get_blob_def Let_def
    apply (rule triple_bind [OF triple_guarded_lift])
    apply (rule triple_if, rule missing, assumption)
    apply (rule triple_bind [OF triple_find_blob])
    apply (rule triple_option, rule missing, simp)
    apply (simp only: option.simps if_False simp_thms)
    apply (rule triple_bind [OF reading_gap [OF q(1)]])
    apply (rule triple_bind [OF triple_metadata])
    apply (rule triple_option, rule missing, erule reading_guarded)
    apply (rule triple_if, rule missing, erule reading_guarded)
    apply (simp only:, rule triple_bind [OF reading_gap [OF q(2)]])
    apply (rule answer, assumption, rule refl)
    done
qed

section \<open>Writing a path\<close>

lemma nameable_frozen: "nameable safe w vh svg \<Longrightarrow> frozen w w' \<Longrightarrow> nameable safe w' vh svg"
  unfolding nameable_def frozen_def by metis

text \<open>The content a write names may be named, and stays so while others run.\<close>

definition cleared where
  "cleared owner good safe us w0 v b w \<longleftrightarrow> guarded owner good safe us w0 w \<and>
     (\<forall>h. body_content_hash b = Some h \<longrightarrow>
       nameable safe w (v, h) (body_state b = ''live'' \<and> last_extension (body_path_key b) = Some ''svg''))"

lemma triple_cleared_gap:
  assumes "quiet owner good safe us f"
  shows "triple (cleared owner good safe us w0 v b) (gap f) (\<lambda>_. cleared owner good safe us w0 v b) E"
proof (rule triple_gap)
  fix w assume C: "cleared owner good safe us w0 v b w"
  then have "frozen w (f w)" "guarded owner good safe us w0 (f w)"
    using assms guarded_gap [OF _ assms] by (auto simp: cleared_def guarded_def quiet_def)
  then show "cleared owner good safe us w0 v b (f w)"
    using C nameable_frozen by (auto simp: cleared_def)
qed

lemma guarded_put_path:
  assumes C: "cleared owner good safe us w0 v b w"
  shows "guarded owner good safe us w0 (set_tables (put_path v b t (tables (db_conn w))) w)" (is "guarded _ _ _ _ _ ?w")
proof -
  have same: "blob_rec ?w = blob_rec w" "upload_rec ?w = upload_rec w" "blob_file ?w = blob_file w" "tmp_file ?w = tmp_file w"
      "blob_uploads (tables (db_conn ?w)) = blob_uploads (tables (db_conn w))"
      "path_rec ?w = (path_rec w)((v, body_path_key b) \<mapsto> path_row_of b (blob_seq (tables (db_conn w)) + 1) t)"
    by (simp_all add: fun_eq_iff projections set_tables_def put_path_def sql.get_put)
  have "nameable safe ?w = nameable safe w" for vh svg
    by (simp add: fun_eq_iff nameable_def same)
  then have "index_ok safe ?w"
    using C by (auto simp: cleared_def guarded_def store_ok_def index_ok_def same live_svg_def path_row_of_def)
  moreover have "seqs_ok (tables (db_conn ?w))" "advances (tables (db_conn w0)) (tables (db_conn ?w))"
    using C put_path_seqs advances_trans [OF _ put_path_advances]
    by (auto simp: cleared_def guarded_def store_ok_def frozen_def set_tables_def)
  ultimately show ?thesis
    using C by (simp add: cleared_def guarded_def store_ok_def frozen_def same_for_def same)
qed

lemma triple_store_path:
  "triple (cleared owner good safe us w0 v b) (on_db (store_path v b)) (\<lambda>_. guarded owner good safe us w0) (guarded owner good safe us w0)"
  unfolding triple_def
proof (intro allI impI)
  fix w assume C: "cleared owner good safe us w0 v b w"
  then have G: "guarded owner good safe us w0 w" by (simp add: cleared_def)
  obtain r c where run: "store_path v b (db_conn w) = (r, c)" by (metis prod.exhaust)
  have "guarded owner good safe us w0 (w\<lparr>db_conn := c\<rparr>)"
  proof (cases r)
    case (Inl e)
    then show ?thesis using observesD [OF observes_guarded G] store_path_Inl run by simp
  next
    case (Inr n)
    then show ?thesis
      using observesD [OF observes_guarded guarded_put_path [OF C, of "now (db_conn w)"]] store_path_Inr run
      by (simp add: set_tables_def)
  qed
  then show "case fst (on_db (store_path v b) w) of Inl _ \<Rightarrow> guarded owner good safe us w0 (snd (on_db (store_path v b) w))
      | Inr x \<Rightarrow> guarded owner good safe us w0 (snd (on_db (store_path v b) w))"
    using run by (simp add: on_db_def split: sum.splits)
qed

lemma fixpoint_error_None: "svg_fixpoint_error filter_svg b = None \<longleftrightarrow> is_fixpoint filter_svg b"
  by (auto simp: svg_fixpoint_error_def svg_at_fixpoint_def is_fixpoint_def split: sum.splits bool.splits)

lemma triple_check_content:
  assumes q: "quiet owner good (is_fixpoint filter_svg) us (g 2)"
  shows "triple (guarded owner good (is_fixpoint filter_svg) us w0) (check_content filter_svg g v b)
     (\<lambda>refused w. if refused = None then cleared owner good (is_fixpoint filter_svg) us w0 v b w
        else guarded owner good (is_fixpoint filter_svg) us w0 w) (guarded owner good (is_fixpoint filter_svg) us w0)"
    (is "triple ?G _ ?Q _")
proof (cases "body_content_hash b")
  case None
  then show ?thesis by (auto simp: check_content_def cleared_def intro!: triple_done)
next
  case (Some h)
  let ?P = "\<lambda>w. ?G w \<and> blob_rec w (v, h) \<noteq> None"
  have present: "triple ?G (on_db (blob_recorded v h)) (\<lambda>present w. ?G w \<and> (present \<longleftrightarrow> blob_rec w (v, h) \<noteq> None)) ?G"
    unfolding blob_recorded_def by (rule triple_query) (auto simp: observables)
  have gap: "triple ?P (gap (g 2)) (\<lambda>_. ?P) ?G"
    using reading_gap [OF q, where content = None and vh = "(v, h)"] by (simp add: reading_def [abs_def])
  have read: "triple ?P (read_if_present (blob_file_path v h)) (\<lambda>found w. ?P w \<and> found = blob_file w (v, h)) ?G"
    unfolding read_if_present_def by (rule triple_file_op) (auto simp: observables)
  show ?thesis
    unfolding check_content_def Some option.case
    apply (rule triple_bind [OF present])
    apply (rule triple_if, rule triple_done, simp)
    apply (rule triple_if)
     apply (rule triple_bind, rule triple_pre [OF gap], simp)
     apply (rule triple_bind [OF read], rule triple_option, rule triple_done, simp)
     apply (rule triple_done)
     apply (auto simp: fixpoint_error_None cleared_def nameable_def Some) [1]
    apply (rule triple_done, auto simp: cleared_def nameable_def Some)
    done
qed

lemma triple_post_blob_path:
  assumes q: "\<And>i. quiet owner good (is_fixpoint filter_svg) us (g i)"
  shows "triple (guarded owner good (is_fixpoint filter_svg) us w0) (post_blob_path filter_svg J st secs g hdrs b)
     (\<lambda>_. guarded owner good (is_fixpoint filter_svg) us w0) (guarded owner good (is_fixpoint filter_svg) us w0)"
proof -
  let ?G = "guarded owner good (is_fixpoint filter_svg) us w0"
  have winner: "triple ?G (write_path filter_svg g v b) (\<lambda>_. ?G) ?G" for v
    unfolding write_path_def
    apply (rule triple_bind [OF triple_quiet_gap [OF q]])
    apply (rule triple_bind [OF triple_check_content [OF q]])
    apply (rule triple_option)
     apply (simp only: simp_thms if_True)
     apply (rule triple_bind [OF triple_cleared_gap [OF q]])
     apply (rule triple_bind [OF triple_store_path triple_done], assumption)
    apply (rule triple_done, simp)
    done
  show ?thesis
    unfolding post_blob_path_def
    by (rule triple_bind [OF triple_guarded_lift])
      (intro triple_option triple_if triple_done triple_bind [OF triple_quiet_gap [OF q]]
        triple_bind [OF triple_guarded_query] winner; assumption)
qed

section \<open>Schedules\<close>

text \<open>
  What happens to the store while the requests of the uploads \<open>us\<close> hold their locks: nothing, one thing
  after another, anything that leaves the blob tables alone (time passing, failures arriving, the other
  routes), and the requests of others, each interrupted in its gaps by further schedules.  A segment is stored under the lock of its hash, so in its gaps
  that lock is taken too, and it waits while \<open>us\<close> hold it.  An upload id is issued once, for the
  vault of the token and the hash of the request.
\<close>

definition blob_part :: "db \<Rightarrow> _" where
  "blob_part d = (blobs d, blob_uploads d, blob_path_states d, blob_seq d)"

inductive schedule :: "(string \<Rightarrow> string \<times> string) \<Rightarrow> (bytes \<Rightarrow> string) \<Rightarrow> (bytes \<Rightarrow> string + bytes) \<Rightarrow> string set \<Rightarrow>
    (world \<Rightarrow> world) \<Rightarrow> bool" for owner blake3 filter_svg where
  idle: "schedule owner blake3 filter_svg us (\<lambda>w. w)"
| seq: "schedule owner blake3 filter_svg us f \<Longrightarrow> schedule owner blake3 filter_svg us f' \<Longrightarrow>
    schedule owner blake3 filter_svg us (\<lambda>w. f' (f w))"
| other: "(\<And>c. blob_part (tables (h c)) = blob_part (tables c)) \<Longrightarrow>
    schedule owner blake3 filter_svg us (\<lambda>w. w\<lparr>db_conn := h (db_conn w), io_faults := ios w\<rparr>)"
| create: "schedule owner blake3 filter_svg us (g 0) \<Longrightarrow> schedule owner blake3 filter_svg us (g 1) \<Longrightarrow> u \<notin> us \<Longrightarrow>
    (\<And>v. vault_auth J st secs hdrs = Inr v \<Longrightarrow> owner u = (v, create_hash rq)) \<Longrightarrow>
    schedule owner blake3 filter_svg us (\<lambda>w. snd (create_upload J st secs g u hdrs rq w))"
| status: "schedule owner blake3 filter_svg us (\<lambda>w. snd (get_upload J st secs u hdrs w))"
| put: "schedule owner blake3 filter_svg us (g 0) \<Longrightarrow> schedule owner blake3 filter_svg us (g 1) \<Longrightarrow>
    (\<And>i. 1 < i \<Longrightarrow> schedule owner blake3 filter_svg (insert u us) (g i)) \<Longrightarrow> (\<And>u'. u' \<in> us \<Longrightarrow> owner u' \<noteq> owner u) \<Longrightarrow>
    schedule owner blake3 filter_svg us (\<lambda>w. snd (put_upload blake3 filter_svg J st secs g u hdrs chunks w))"
| download: "schedule owner blake3 filter_svg us (g 0) \<Longrightarrow> schedule owner blake3 filter_svg us (g 1) \<Longrightarrow>
    schedule owner blake3 filter_svg us (\<lambda>w. snd (get_blob J st secs g hash hdrs w))"
| attach: "(\<And>i. schedule owner blake3 filter_svg us (g i)) \<Longrightarrow>
    schedule owner blake3 filter_svg us (\<lambda>w. snd (post_blob_path filter_svg J st secs g hdrs b w))"
| sweep: "schedule owner blake3 filter_svg us (\<lambda>w. snd (sweep_expired_uploads w))"

lemma quiet_triple:
  assumes "\<And>w0. triple (guarded owner good safe us w0) m (\<lambda>x w. guarded owner good safe us w0 w \<and> A x w) (guarded owner good safe us w0)"
  shows "quiet owner good safe us (\<lambda>w. snd (m w))"
proof -
  have "guarded owner good safe us w (snd (m w))" if "store_ok owner good safe w" for w
    using tripleD [OF assms guarded_start [OF that]] by (auto split: sum.splits)
  then show ?thesis by (simp add: quiet_def guarded_def)
qed

lemmas quiet_keep = quiet_triple [where A = "\<lambda>_ _. True", simplified]

lemma quiet_seq: "quiet owner good safe us f \<Longrightarrow> quiet owner good safe us f' \<Longrightarrow> quiet owner good safe us (\<lambda>w. f' (f w))"
  unfolding quiet_def by (blast intro: frozen_trans same_for_trans)

lemma quiet_other:
  assumes "\<And>c. blob_part (tables (h c)) = blob_part (tables c)"
  shows "quiet owner good safe us (\<lambda>w. w\<lparr>db_conn := h (db_conn w), io_faults := ios w\<rparr>)"
proof -
  have "blobs (tables (h c)) = blobs (tables c)" "blob_uploads (tables (h c)) = blob_uploads (tables c)"
      "blob_path_states (tables (h c)) = blob_path_states (tables c)" "blob_seq (tables (h c)) = blob_seq (tables c)" for c
    using assms [of c] by (simp_all add: blob_part_def)
  then show ?thesis
    by (simp add: quiet_def store_ok_def index_ok_def nameable_def frozen_def seqs_ok_def advances_def same_for_def projections)
qed

lemma schedule_quiet: "schedule owner blake3 filter_svg us f \<Longrightarrow> quiet owner (clean blake3 filter_svg) (is_fixpoint filter_svg) us f"
proof (induction rule: schedule.induct)
  case idle
  then show ?case by (simp add: quiet_def)
next
  case (create us g u J st secs hdrs rq)
  then show ?case by (intro quiet_keep triple_create_upload)
next
  case (put us g u J st secs hdrs chunks)
  then show ?case by (intro quiet_keep triple_put_upload) auto
next
  case (attach us g J st secs hdrs b)
  then show ?case by (intro quiet_keep triple_post_blob_path)
next
  case (download us g J st secs hash hdrs)
  then have "triple (guarded owner (clean blake3 filter_svg) (is_fixpoint filter_svg) us w0) (get_blob J st secs g hash hdrs)
      (\<lambda>reply w. guarded owner (clean blake3 filter_svg) (is_fixpoint filter_svg) us w0 w \<and>
        served (clean blake3 filter_svg) hash (hdrs ''range'') reply) (guarded owner (clean blake3 filter_svg) (is_fixpoint filter_svg) us w0)" for w0
    by (intro triple_get_blob)
  then show ?case by (rule quiet_triple)
qed (simp_all add: quiet_seq quiet_other quiet_keep triple_get_upload triple_sweep)

text \<open>The store of a new server.\<close>

definition new_store :: "world \<Rightarrow> bool" where
  "new_store w \<longleftrightarrow> files w = [] \<and> blobs (tables (db_conn w)) = [] \<and> blob_uploads (tables (db_conn w)) = [] \<and>
     blob_path_states (tables (db_conn w)) = []"

lemma new_store_ok: "new_store w \<Longrightarrow> store_ok owner good safe w"
  by (simp add: new_store_def store_ok_def index_ok_def seqs_ok_def projections)

text \<open>The store as a transition system whose steps are schedules.\<close>

interpretation blob_lane: transition_invariant new_store
  "\<lambda>w w'. \<exists>f. schedule owner blake3 filter_svg {} f \<and> w' = f w" "store_ok owner (clean blake3 filter_svg) (is_fixpoint filter_svg)"
  for owner blake3 filter_svg
  using new_store_ok schedule_quiet by unfold_locales (auto simp: quiet_def)

end
