(* ===== verification/Blob_Properties.thy ===== *)
theory Blob_Properties
  imports Blob_Runs
begin

text \<open>
  What clients of the blob store can rely on: what is recorded is authentic and stays, downloads are
  the bytes of their hash, paths name blobs that exist, and paging through the path index misses
  nothing.
\<close>

section \<open>Reachable stores\<close>

lemma reached_ok:
  "new_store w \<Longrightarrow> schedule owner blake3 filter_svg {} f \<Longrightarrow>
   store_ok owner (clean blake3 filter_svg) (is_fixpoint filter_svg) (f w)"
  using blob_lane.good_reachable by blast

lemma reached_frozen:
  "store_ok owner (clean blake3 filter_svg) (is_fixpoint filter_svg) w \<Longrightarrow> schedule owner blake3 filter_svg {} f \<Longrightarrow> frozen w (f w)"
  using schedule_quiet unfolding quiet_def by blast

lemma clean_iff: "clean blake3 filter_svg h b \<longleftrightarrow>
    blake3 b = h \<and> (if looks_like_svg b then filter_svg b = Inr b else True)"
  by (auto simp: clean_def fixpoint_error_None is_fixpoint_def)

text \<open>
  C15: every blob the server records is authentic.  After any interleaving of uploads, downloads, path
  writes and sweeps, with any database and file errors on the way, a recorded blob has its file, the
  file has the digest it is recorded under, and if the server takes it for an SVG the filter leaves it
  as it is.
\<close>

theorem stored_blobs_are_authentic:
  assumes "new_store w" and "schedule owner blake3 filter_svg {} f"
    and "tbl_get (blobs (tables (db_conn (f w)))) (v, h) = Some r"
  shows "\<exists>b. tbl_get (files (f w)) (blob_file_path v h) = Some b \<and> blake3 b = h \<and>
    (if looks_like_svg b then filter_svg b = Inr b else True)"
proof -
  note ok = reached_ok [OF assms(1,2), unfolded store_ok_def]
  have "blob_rec (f w) (v, h) \<noteq> None"
    using assms(3) by (simp add: blob_rec_def)
  then obtain b where b: "blob_file (f w) (v, h) = Some b"
    using ok by blast
  then have "clean blake3 filter_svg (snd (v, h)) b"
    using ok by blast
  then show ?thesis
    using b by (simp add: clean_iff blob_file_def)
qed

text \<open>
  C17: the path index never dangles.  A path that names a content names a recorded blob of its vault, and
  the content of a live path with the extension \<open>svg\<close> is left as it is by the filter.
\<close>

theorem paths_name_stored_blobs:
  assumes "new_store w" and "schedule owner blake3 filter_svg {} f"
    and "tbl_get (blob_path_states (tables (db_conn (f w)))) (v, k) = Some r" and "path_hash r = Some h"
  shows "tbl_get (blobs (tables (db_conn (f w)))) (v, h) \<noteq> None \<and>
    (if path_state r = ''live'' \<and> last_extension k = Some ''svg''
     then \<exists>b. tbl_get (files (f w)) (blob_file_path v h) = Some b \<and> filter_svg b = Inr b else True)"
proof -
  have "index_ok (is_fixpoint filter_svg) (f w)"
    using reached_ok [OF assms(1,2)] by (simp add: store_ok_def)
  then have "nameable (is_fixpoint filter_svg) (f w) (v, h) (live_svg k r)"
    using assms(3,4) unfolding index_ok_def path_rec_def by blast
  then show ?thesis
    by (simp add: nameable_def live_svg_def blob_rec_def blob_file_def is_fixpoint_def)
qed

text \<open>
  C16: a download is the bytes of its hash.  Whatever other requests do meanwhile, a reply with bytes is
  the whole of a content with the requested digest, or exactly the part of it that the range header
  names, and an SVG in it has been through the filter.
\<close>

theorem downloads_are_authentic:
  assumes "new_store w" and "schedule owner blake3 filter_svg {} f"
    and "schedule owner blake3 filter_svg {} (g 0)" and "schedule owner blake3 filter_svg {} (g 1)"
    and "get_blob J st secs g hash hdrs (f w) = (Inr (BytesReply sc bs hs), w')"
  shows "\<exists>b. blake3 b = hash \<and> (if looks_like_svg b then filter_svg b = Inr b else True) \<and>
    (if sc = 200 then bs = b
     else sc = 206 \<and> (\<exists>h start stop. hdrs ''range'' = Some h \<and> parse_byte_range h (length b) = Inr (Some (start, stop)) \<and>
       bs = take (stop + 1 - start) (drop start b)))"
proof -
  let ?good = "clean blake3 filter_svg" and ?safe = "is_fixpoint filter_svg"
  have "guarded owner ?good ?safe {} (f w) (f w)"
    using reached_ok [OF assms(1,2)] by (rule guarded_start)
  then have "served ?good hash (hdrs ''range'') (BytesReply sc bs hs)"
    using tripleD_Inr [OF triple_get_blob [OF schedule_quiet [OF assms(3)] schedule_quiet [OF assms(4)]] _ assms(5)] by blast
  then show ?thesis
    unfolding served_def reply.case clean_iff by blast
qed

text \<open>
  C18: a recorded blob never changes and never goes away, whatever requests and errors follow.
\<close>

theorem recorded_blobs_never_change:
  assumes "new_store w" and "schedule owner blake3 filter_svg {} f" and "schedule owner blake3 filter_svg {} f'"
    and "tbl_get (blobs (tables (db_conn (f w)))) (v, h) = Some r"
  shows "tbl_get (blobs (tables (db_conn (f' (f w))))) (v, h) = Some r \<and>
    tbl_get (files (f' (f w))) (blob_file_path v h) = tbl_get (files (f w)) (blob_file_path v h)"
proof -
  have "blob_rec (f w) (v, h) \<noteq> None"
    using assms(4) by (simp add: blob_rec_def)
  then have "blob_rec (f' (f w)) (v, h) = blob_rec (f w) (v, h) \<and> blob_file (f' (f w)) (v, h) = blob_file (f w) (v, h)"
    using reached_frozen [OF reached_ok [OF assms(1,2)] assms(3)] unfolding frozen_def by blast
  then show ?thesis
    using assms(4) by (simp add: blob_rec_def blob_file_def)
qed

section \<open>Paging\<close>

text \<open>
  A client pages through the index: it asks for the rows after its cursor, moves the cursor to the last
  row it got, and stops at a page that is not full.  Each page is answered by the database of its
  time.
\<close>

definition cursor :: "int \<Rightarrow> (string \<times> path_row) list \<Rightarrow> int" where
  "cursor since p = (if p = [] then since else seq (snd (last p)))"

fun walk :: "string \<Rightarrow> nat \<Rightarrow> int \<Rightarrow> db list \<Rightarrow> (string \<times> path_row) list" where
  "walk v n since [] = []"
| "walk v n since (d # ds) = page v since n d @ walk v n (cursor since (page v since n d)) ds"

fun finished :: "string \<Rightarrow> nat \<Rightarrow> int \<Rightarrow> db list \<Rightarrow> bool" where
  "finished v n since [] = False"
| "finished v n since (d # ds) =
     (length (page v since n d) < n \<or> finished v n (cursor since (page v since n d)) ds)"

lemma vault_paths_mem: "tbl_wf (blob_path_states d) \<Longrightarrow>
    (k, r) \<in> set (vault_paths v d) \<longleftrightarrow> tbl_get (blob_path_states d) (v, k) = Some r"
  by (auto simp: vault_paths_def tbl_get_mem image_iff)

lemma last_of_take: "0 < n \<Longrightarrow> n \<le> length xs \<Longrightarrow> last (take n xs) = xs ! (n - 1)"
  by (subst last_conv_nth) (auto simp: min_def)

text \<open>A row after the cursor is on the page, or the page is full of rows before it.\<close>

lemma page_covers:
  assumes d: "seqs_ok d" and row: "tbl_get (blob_path_states d) (v, k) = Some r" and since: "since < seq r"
    and missing: "(k, r) \<notin> set (page v since n d)" and n: "0 < n"
  shows "length (page v since n d) = n \<and> cursor since (page v since n d) < seq r"
proof -
  let ?xs = "sort_key (\<lambda>(_, r). seq r) (filter (\<lambda>(_, r). seq r > since) (vault_paths v d))"
  have wf: "tbl_wf (blob_path_states d)" using d by (simp add: seqs_ok_def)
  have "(k, r) \<in> set ?xs"
    using row since vault_paths_mem [OF wf] by simp
  then obtain i where i: "i < length ?xs" "?xs ! i = (k, r)"
    by (metis in_set_conv_nth)
  have "\<not> i < n"
    using missing i by (metis (no_types, lifting) in_set_conv_nth length_take min_less_iff_conj nth_take page_def)
  then have len: "length (page v since n d) = n" and last: "last (page v since n d) = ?xs ! (n - 1)"
    using i n by (auto simp: page_def last_of_take)
  have le: "(\<lambda>(_, r). seq r) (?xs ! (n - 1)) \<le> seq r"
    using sorted_nth_mono [OF sorted_sort_key [of "\<lambda>(_, r). seq r" "filter (\<lambda>(_, r). seq r > since) (vault_paths v d)"], of "n - 1" i]
      i \<open>\<not> i < n\<close> by (simp del: sort_key_simps)
  obtain k' r' where kr: "?xs ! (n - 1) = (k', r')" by fastforce
  have "(k', r') \<in> set ?xs"
    using kr i \<open>\<not> i < n\<close> n by (metis Suc_pred' in_set_conv_nth not_less_eq order.strict_trans linorder_neqE_nat)
  then have row': "tbl_get (blob_path_states d) (v, k') = Some r'"
    using vault_paths_mem [OF wf] by simp
  have "(k', r') \<noteq> (k, r)"
    using missing kr len last n by (metis last_in_set length_greater_0_conv)
  then have "seq r' \<noteq> seq r"
    using d row row' unfolding seqs_ok_def by (metis Pair_inject option.inject)
  then show ?thesis
    using le kr len last n by (auto simp: cursor_def)
qed

lemma walk_complete:
  "0 < n \<Longrightarrow> since < seq r \<Longrightarrow> finished v n since ds \<Longrightarrow>
   (\<And>d. d \<in> set ds \<Longrightarrow> seqs_ok d \<and> tbl_get (blob_path_states d) (v, k) = Some r) \<Longrightarrow> (k, r) \<in> set (walk v n since ds)"
proof (induction ds arbitrary: since)
  case (Cons d ds)
  have d: "seqs_ok d" "tbl_get (blob_path_states d) (v, k) = Some r"
    using Cons.prems(4) [of d] by auto
  show ?case
  proof (cases "(k, r) \<in> set (page v since n d)")
    case False
    then have "length (page v since n d) = n \<and> cursor since (page v since n d) < seq r"
      using page_covers d Cons.prems(1,2) by blast
    then show ?thesis
      using Cons.IH [of "cursor since (page v since n d)"] Cons.prems by simp
  qed simp
qed simp

text \<open>The databases the pages of a walk see, with other requests running in between.\<close>

fun timeline :: "(world \<Rightarrow> world) list \<Rightarrow> world \<Rightarrow> world list" where
  "timeline [] w = [w]"
| "timeline (f # fs) w = w # timeline fs (f w)"

lemma timeline_advance:
  assumes "\<forall>f \<in> set fs. schedule owner blake3 filter_svg {} f" and "store_ok owner (clean blake3 filter_svg) (is_fixpoint filter_svg) w"
    and "x \<in> set (timeline fs w)"
  shows "seqs_ok (tables (db_conn x)) \<and> advances (tables (db_conn w)) (tables (db_conn x)) \<and>
    advances (tables (db_conn x)) (tables (db_conn (last (timeline fs w))))"
  using assms
proof (induction fs arbitrary: w x)
  case Nil
  then show ?case by (simp add: store_ok_def)
next
  case (Cons f fs)
  let ?ok = "store_ok owner (clean blake3 filter_svg) (is_fixpoint filter_svg)"
  have f: "schedule owner blake3 filter_svg {} f" using Cons.prems(1) by simp
  have ok: "?ok (f w)"
    using schedule_quiet [OF f] Cons.prems(2) unfolding quiet_def by blast
  have step: "advances (tables (db_conn w)) (tables (db_conn (f w)))"
    using reached_frozen [OF Cons.prems(2) f] by (simp add: frozen_def)
  have last: "last (timeline (f # fs) w) = last (timeline fs (f w))"
    by (cases fs) simp_all
  note IH = Cons.IH [OF _ ok]
  have first: "f w \<in> set (timeline fs (f w))" by (cases fs) simp_all
  have rest: "\<forall>f \<in> set fs. schedule owner blake3 filter_svg {} f" using Cons.prems(1) by simp
  show ?case
  proof (cases "x \<in> set (timeline fs (f w))")
    case True
    then show ?thesis
      using IH [OF rest True] step advances_trans last by metis
  next
    case False
    then have "x = w" using Cons.prems(3) by simp
    then show ?thesis
      using IH [OF rest first] step advances_trans last Cons.prems(2) unfolding store_ok_def by (metis advances_refl)
  qed
qed

text \<open>
  C21: paging with a fence misses nothing.  However other requests run between the pages, a walk that
  reached a page that was not full has returned every row that was in the index when it started, was
  after its cursor, and is still there at the end.
\<close>

theorem fenced_walk_is_complete:
  assumes "new_store w0" and "schedule owner blake3 filter_svg {} f" and "w = f w0"
    and "\<forall>f \<in> set fs. schedule owner blake3 filter_svg {} f"
    and "finished v (effective_limit n) since (map (\<lambda>x. tables (db_conn x)) (timeline fs w))"
    and "tbl_get (blob_path_states (tables (db_conn w))) (v, k) = Some r" and "since < seq r"
    and "tbl_get (blob_path_states (tables (db_conn (last (timeline fs w))))) (v, k) = Some r"
  shows "(k, r) \<in> set (walk v (effective_limit n) since (map (\<lambda>x. tables (db_conn x)) (timeline fs w)))"
proof (rule walk_complete)
  have ok: "store_ok owner (clean blake3 filter_svg) (is_fixpoint filter_svg) w"
    using reached_ok [OF assms(1,2)] assms(3) by simp
  then have start: "seqs_ok (tables (db_conn w))" by (simp add: store_ok_def)
  fix d assume "d \<in> set (map (\<lambda>x. tables (db_conn x)) (timeline fs w))"
  then obtain x where x: "x \<in> set (timeline fs w)" "d = tables (db_conn x)" by auto
  then show "seqs_ok d \<and> tbl_get (blob_path_states d) (v, k) = Some r"
    using timeline_advance [OF assms(4) ok x(1)] row_survives [OF _ _ start assms(6,8)] by blast
qed (use assms in \<open>simp_all add: effective_limit_def\<close>)

end
