(* ===== verification/Blob_Lww.thy ===== *)
theory Blob_Lww
  imports Blob_Properties
begin

text \<open>
  A path of the index is a last-writer-wins register: the handler of path writes, on every outcome,
  makes exactly the change the register makes.
\<close>

section \<open>The register\<close>

text \<open>\<open>repeats\<close> and \<open>wins\<close> of a stored row against the row a write would store.\<close>

definition row_same :: "path_row \<Rightarrow> path_row \<Rightarrow> bool" where
  "row_same c r \<longleftrightarrow> generation c = generation r \<and> path_hash c = path_hash r \<and> path_state c = path_state r"

definition offer_path :: "path_row option \<Rightarrow> path_row \<Rightarrow> path_row option" where
  "offer_path stored r =
     (case stored of
        None \<Rightarrow> Some r
      | Some cur \<Rightarrow> if row_same cur r then Some cur else if row_rank cur < row_rank r then Some r else Some cur)"

interpretation paths: lww_register row_rank row_same offer_path
  by unfold_locales (auto simp: offer_path_def)

lemma rank_of_row [simp]: "row_rank (path_row_of b n t) = body_rank b"
  by (simp add: row_rank_def body_rank_def path_row_of_def)

lemma same_of_row [simp]: "row_same c (path_row_of b n t) \<longleftrightarrow> repeats c b"
  by (simp add: row_same_def repeats_def path_row_of_def)

lemma wins_rank: "wins b c \<longleftrightarrow> row_rank c < body_rank b"
  by (auto simp: wins_def row_rank_def body_rank_def less_prod_def')

section \<open>The handler\<close>

lemma authorized: "bind_act (on_db (lift (Inr v))) f = f v"
  by (simp add: fun_eq_iff bind_act_def on_db_def lift_def)

lemma check_path_status: "check_path b = Some r \<Longrightarrow> status r \<in> {400, 413}"
  by (auto simp: check_path_def invalid_path_def json_error_def json_response_def split: if_splits option.splits)

definition at_path :: "string \<times> string \<Rightarrow> path_row option \<Rightarrow> world \<Rightarrow> bool" where
  "at_path vk r w \<longleftrightarrow> tbl_get (blob_path_states (tables (db_conn w))) vk = r"

lemma observes_at [intro]: "observes (at_path vk r)"
  by (simp add: observes_def at_path_def)

definition path_stable :: "string \<times> string \<Rightarrow> (world \<Rightarrow> world) \<Rightarrow> bool" where
  "path_stable vk f \<longleftrightarrow> (\<forall>w. tbl_get (blob_path_states (tables (db_conn (f w)))) vk =
     tbl_get (blob_path_states (tables (db_conn w))) vk)"

lemma triple_stable: "path_stable vk f \<Longrightarrow> triple (at_path vk r) (gap f) (\<lambda>_. at_path vk r) E"
  by (rule triple_gap) (simp add: at_path_def path_stable_def)

lemma triple_at_content:
  assumes "path_stable vk (g 2)"
  shows "triple (at_path vk r) (check_content filter_svg g v b)
     (\<lambda>refused w. (\<forall>x. refused = Some x \<longrightarrow> status x \<in> {412, 422}) \<and> at_path vk r w) (at_path vk r)"
proof (cases "body_content_hash b")
  case None
  then show ?thesis by (auto simp: check_content_def intro!: triple_done)
next
  case (Some h)
  have present: "triple (at_path vk r) (on_db (blob_recorded v h)) (\<lambda>_. at_path vk r) (at_path vk r)"
    unfolding blob_recorded_def by (rule triple_query) auto
  have read: "triple (at_path vk r) (read_if_present p) (\<lambda>_. at_path vk r) (at_path vk r)" for p
    unfolding read_if_present_def by (rule triple_file_op) (auto simp: at_path_def observes_def)
  show ?thesis
    unfolding check_content_def Some option.case
    by (intro triple_bind [OF present] triple_bind [OF triple_stable [OF assms]] triple_bind [OF read] triple_if triple_option
        triple_done) (auto simp: json_error_def json_response_def)
qed

lemma triple_at_store:
  "triple (at_path (v, body_path_key b) r) (on_db (store_path v b))
     (\<lambda>n w. \<exists>t. at_path (v, body_path_key b) (Some (path_row_of b n t)) w) (at_path (v, body_path_key b) r)"
  unfolding triple_def
proof (intro allI impI)
  fix w assume at: "at_path (v, body_path_key b) r w"
  obtain x c where run: "store_path v b (db_conn w) = (x, c)" by (metis prod.exhaust)
  show "case fst (on_db (store_path v b) w) of Inl _ \<Rightarrow> at_path (v, body_path_key b) r (snd (on_db (store_path v b) w))
      | Inr n \<Rightarrow> \<exists>t. at_path (v, body_path_key b) (Some (path_row_of b n t)) (snd (on_db (store_path v b) w))"
  proof (cases x)
    case (Inl e)
    then show ?thesis using run at store_path_Inl [of v b "db_conn w" e c] by (simp add: on_db_def at_path_def)
  next
    case (Inr n)
    then show ?thesis using run store_path_Inr [of v b "db_conn w" n c]
      by (auto simp: on_db_def at_path_def put_path_def sql.get_put)
  qed
qed

text \<open>What a write answers, with the row before and after it.\<close>

definition lww_outcome :: "string \<Rightarrow> path_body \<Rightarrow> path_row option \<Rightarrow> path_row option \<Rightarrow> response \<times> broadcast_event option \<Rightarrow> bool" where
  "lww_outcome v b old new reply \<longleftrightarrow> (case reply of
      (resp, Some ev) \<Rightarrow> \<exists>n t. resp = accepted n \<and> ev = BlobPathEvent v (body_path_key b) n \<and>
        new = Some (path_row_of b n t) \<and> new = offer_path old (path_row_of b n t)
    | (resp, None) \<Rightarrow> new = old \<and>
        (status resp \<in> {412, 422} \<or> (\<exists>c. old = Some c \<and> (\<forall>n t. offer_path old (path_row_of b n t) = Some c) \<and>
           (resp = accepted (seq c) \<and> repeats c b \<or>
            resp = json_response 409 (JObj [(''accepted'', JBool False), (''current'', path_row_json v (body_path_key b) c)])))))"

definition answered where
  "answered v b old reply w \<longleftrightarrow> lww_outcome v b old (tbl_get (blob_path_states (tables (db_conn w))) (v, body_path_key b)) reply"

lemma triple_write_path:
  assumes stable: "\<forall>i \<ge> 1. path_stable (v, body_path_key b) (g i)"
    and wins: "\<And>n t. offer_path old (path_row_of b n t) = Some (path_row_of b n t)"
  shows "triple (at_path (v, body_path_key b) old) (write_path filter_svg g v b) (answered v b old) (at_path (v, body_path_key b) old)"
proof -
  let ?at = "at_path (v, body_path_key b) old"
  have gap: "triple ?at (gap (g i)) (\<lambda>_. ?at) ?at" if "1 \<le> i" for i
    using stable that by (intro triple_stable) blast
  have "path_stable (v, body_path_key b) (g 2)" using stable by simp
  note content = triple_at_content [where g = g, OF this, where r = old]
  show ?thesis
    unfolding write_path_def
    apply (rule triple_bind [OF gap], simp)
    apply (rule triple_bind [OF content])
    apply (rule triple_pure, rule triple_option)
     apply (rule triple_bind [OF gap], simp)
     apply (rule triple_bind [OF triple_at_store])
     apply (rule triple_done)
     apply (auto simp: answered_def lww_outcome_def at_path_def wins) [1]
    apply (rule triple_done)
    apply (auto simp: answered_def lww_outcome_def at_path_def)
    done
qed

lemma triple_post_answer:
  assumes stable: "\<forall>i \<ge> 1. path_stable (v, body_path_key b) (g i)" and auth: "vault_auth J st secs hdrs = Inr v"
    and valid: "check_path b = None"
    and old: "old = tbl_get (blob_path_states (tables (db_conn (g 0 w)))) (v, body_path_key b)"
  shows "triple (\<lambda>x. x = w) (post_blob_path filter_svg J st secs g hdrs b) (answered v b old) (at_path (v, body_path_key b) old)"
proof -
  let ?at = "at_path (v, body_path_key b) old"
  have wait: "triple (\<lambda>x. x = w) (gap (g 0)) (\<lambda>_. ?at) ?at"
    by (rule triple_gap) (simp add: at_path_def old)
  have stored: "triple ?at (on_db (query (\<lambda>_ d. tbl_get (blob_path_states d) (v, body_path_key b)))) (\<lambda>found w. found = old \<and> ?at w) ?at"
    by (rule triple_query) (auto simp: at_path_def observes_def)
  have free: "triple ?at (write_path filter_svg g v b) (answered v b old) ?at" if "old = None"
    using that by (intro triple_write_path [OF stable]) (simp add: offer_path_def)
  have won: "triple ?at (write_path filter_svg g v b) (answered v b old) ?at" if "old = Some c" "\<not> repeats c b" "\<not> \<not> wins b c" for c
    using that by (intro triple_write_path [OF stable]) (simp add: offer_path_def wins_rank)
  show ?thesis
    unfolding post_blob_path_def auth authorized valid option.case
    apply (rule triple_bind [OF wait])
    apply (rule triple_bind [OF stored])
    apply (rule triple_pure)
    apply (simp only:)
    apply (rule triple_option, rule free, assumption)
    apply (intro triple_if triple_done; (rule won; assumption)?)
     apply (auto simp: answered_def lww_outcome_def at_path_def offer_path_def wins_rank)
    done
qed

text \<open>
  C19: a path is a last-writer-wins register.  With the lock of the path held, a write that passes the
  checks of its fields ends in one of these ways.  It becomes the row, with a fresh sequence number and
  an event, and this is what the register does.  Or the row stays and there is no event: the write
  repeats it and is acknowledged with its sequence number, or the register refuses the write
  and the reply shows the row, or its content is not there or not clean.  After a failure of the
  database or of a file the row is what it was, too.
\<close>

theorem path_writes_are_lww:
  assumes "vault_auth J st secs hdrs = Inr v" and "check_path b = None"
    and "\<forall>i \<ge> 1. path_stable (v, body_path_key b) (g i)"
    and "old = tbl_get (blob_path_states (tables (db_conn (g 0 w)))) (v, body_path_key b)"
    and "post_blob_path filter_svg J st secs g hdrs b w = (reply, w')"
    and "new = tbl_get (blob_path_states (tables (db_conn w'))) (v, body_path_key b)"
  shows "case reply of Inl _ \<Rightarrow> new = old | Inr answer \<Rightarrow> lww_outcome v b old new answer"
proof (cases reply)
  case (Inl e)
  then show ?thesis
    using tripleD_Inl [OF triple_post_answer [OF assms(3,1,2,4), of filter_svg] refl] assms(5,6)
    by (simp add: at_path_def)
next
  case (Inr answer)
  then show ?thesis
    using tripleD_Inr [OF triple_post_answer [OF assms(3,1,2,4), of filter_svg] refl] assms(5,6)
    by (simp add: answered_def)
qed

section \<open>Convergence\<close>


text \<open>
  Without that premise the order matters: a write that repeats the stored content is acknowledged and
  dropped even if its device ranks higher, so a later write of a device in between still wins.
\<close>

definition sample_row :: "string \<Rightarrow> string \<Rightarrow> path_row" where
  "sample_row peer hash = \<lparr>display_path = ''a.png'', key_version = 1, generation = 1, path_state = ''live'',
     path_hash = Some hash, path_size = Some 1, path_peer_id = peer, path_updated_at = 0, seq = 1, env_json = None\<rparr>"

theorem repeated_content_hides_its_device:
  "foldl offer_path None [sample_row ''a'' ''x'', sample_row ''c'' ''x'', sample_row ''b'' ''y''] = Some (sample_row ''b'' ''y'') \<and>
   foldl offer_path None [sample_row ''a'' ''x'', sample_row ''b'' ''y'', sample_row ''c'' ''x''] = Some (sample_row ''c'' ''x'')"
  by (simp add: offer_path_def row_same_def row_rank_def sample_row_def or_default_def less_prod_def')

end
