(* ===== verification/Blob_Witnesses.thy ===== *)
theory Blob_Witnesses
  imports Blob_Lww Invite_Witnesses
begin

text \<open>
  A one-byte blob uploaded to a fresh store, downloaded, and attached to a path, with a digest that
  knows this one content.
\<close>

section \<open>A run\<close>

definition pic_hash :: string where "pic_hash = replicate 64 CHR ''a''"

definition toy_blake3 :: "bytes \<Rightarrow> string" where
  "toy_blake3 b = (if b = [1] then pic_hash else [])"

definition toy_filter :: "bytes \<Rightarrow> string + bytes" where
  "toy_filter b = Inr b"

definition toy_owner :: "string \<Rightarrow> string \<times> string" where
  "toy_owner _ = (''v'', pic_hash)"

definition calm :: "nat \<Rightarrow> world \<Rightarrow> world" where
  "calm i w = w"

definition toy_headers :: header_map where
  "toy_headers = [''authorization'' \<mapsto> ''Bearer s3cret:v'', ''content-range'' \<mapsto> ''bytes 0-0/1'']"

definition store0 :: world where
  "store0 = \<lparr>db_conn = fresh_conn, files = [], io_faults = []\<rparr>"

definition pic :: create_request where "pic = \<lparr>create_hash = pic_hash, create_size = 1\<rparr>"

definition pic_path :: path_body where
  "pic_path = \<lparr>body_path_key = ''a.png'', body_display_path = ''a.png'', body_key_version = 1, body_generation = 1,
     body_state = ''live'', body_content_hash = Some pic_hash, body_size = Some 1, body_peer_id = ''p''\<rparr>"

definition created :: "world \<Rightarrow> world" where
  "created w = snd (create_upload toy_jwt toy_config 0 calm ''u'' toy_headers pic w)"

definition uploaded :: "world \<Rightarrow> world" where
  "uploaded w = snd (put_upload toy_blake3 toy_filter toy_jwt toy_config 0 calm ''u'' toy_headers [Inr [1]] (created w))"

definition attached :: "world \<Rightarrow> world" where
  "attached w = snd (post_blob_path toy_filter toy_jwt toy_config 0 calm toy_headers pic_path (uploaded w))"

lemma toy_auth: "vault_auth toy_jwt toy_config n toy_headers = Inr ''v''"
proof -
  have "bearer toy_headers = Some ''s3cret:v''"
    by (simp add: bearer_def toy_headers_def strip_prefix_def)
  then show ?thesis
    by (simp add: vault_auth_def toy_jwt_def toy_config_def jwt_verify_def strip_prefix_def)
qed

lemma pic_hash_ok: "is_hash pic_hash"
  by (simp add: is_hash_def pic_hash_def list_all_iff is_ascii_digit_def code_def)

lemma calm_schedule: "schedule owner blake3 filter_svg us (calm i)"
proof -
  have "calm i = (\<lambda>w. w)" by (simp add: fun_eq_iff calm_def)
  then show ?thesis by (simp add: schedule.idle)
qed

lemma created_schedule: "schedule toy_owner toy_blake3 toy_filter {} created"
proof -
  have "schedule toy_owner toy_blake3 toy_filter {} (\<lambda>w. snd (create_upload toy_jwt toy_config 0 calm ''u'' toy_headers pic w))"
    by (rule schedule.create) (auto simp: calm_schedule toy_auth toy_owner_def pic_def)
  then show ?thesis by (simp add: created_def [abs_def])
qed

lemma uploaded_schedule: "schedule toy_owner toy_blake3 toy_filter {} uploaded"
proof -
  have "schedule toy_owner toy_blake3 toy_filter {}
      (\<lambda>w. snd (put_upload toy_blake3 toy_filter toy_jwt toy_config 0 calm ''u'' toy_headers [Inr [1]] w))"
    by (rule schedule.put) (auto simp: calm_schedule)
  from schedule.seq [OF created_schedule this] show ?thesis by (simp add: uploaded_def [abs_def])
qed

lemma attached_schedule: "schedule toy_owner toy_blake3 toy_filter {} attached"
proof -
  have "schedule toy_owner toy_blake3 toy_filter {}
      (\<lambda>w. snd (post_blob_path toy_filter toy_jwt toy_config 0 calm toy_headers pic_path w))"
    by (rule schedule.attach) (auto simp: calm_schedule)
  from schedule.seq [OF uploaded_schedule this] show ?thesis by (simp add: attached_def [abs_def])
qed

lemma new_store0: "new_store store0"
  by (simp add: new_store_def store0_def fresh_conn_def empty_db_def)

lemmas act_run = bind_act_def done_with_def fail_with_def on_db_def gap_def ignore_def attempt_def calm_def file_op_def
  create_dir_all_def create_file_def write_at_def read_file_def read_if_present_def try_exists_def remove_file_def
  sync_existing_def rename_file_def lift_def

lemma created_run: "created store0 = store0\<lparr>db_conn := fresh_conn\<lparr>tables := empty_db\<lparr>blob_uploads := [(''u'',
    \<lparr>upload_vault_id = ''v'', hash_claimed = pic_hash, size_claimed = 1, received_bytes = 0, upload_created_at = 1000,
     upload_updated_at = 1000\<rparr>)]\<rparr>\<rparr>, files := [(tmp_file_path ''u'', [])]\<rparr>"
  unfolding created_def create_upload_def authorized toy_auth
  by (simp add: act_run pic_def pic_hash_ok store0_def fresh_conn_def empty_db_def query_no_fault no_fault check_quota_def
      and_then_def open_uploads_def stored_bytes_def inflight_bytes_def effective_quota_def toy_config_def blob_consts
      as_u64_def sat_add_def insert_upload_def tbl_put_def)

lemma pic_range: "parse_content_range ''bytes 0-0/1'' = Some (0, 0, 1)"
proof -
  have "parse_u64 ''0'' = Some 0" "parse_u64 ''1'' = Some 1"
    by (simp_all add: parse_u64_def is_ascii_digit_def code_def digits_value_def)
  then show ?thesis by (simp add: parse_content_range_def strip_prefix_def)
qed

lemma pic_segment: "segment_of toy_headers [Inr [1]] =
    Inr (Inr \<lparr>seg_start = 0, seg_end = 0, seg_total = 1, seg_bytes = [1]\<rparr>)"
  by (simp add: segment_of_def toy_headers_def pic_range sat_add_def blob_consts)

definition pic_view :: upload_view where
  "pic_view = \<lparr>view_hash = pic_hash, view_size = 1, view_received = 0, view_expired = False\<rparr>"

lemma found_upload: "with_upload ''v'' ''u'' k (created store0) = k pic_view (created store0)"
  unfolding created_run
  by (simp add: with_upload_def act_run read_upload_def query_no_fault store0_def fresh_conn_def empty_db_def pic_view_def)

lemma uploaded_run: "uploaded store0 = store0\<lparr>db_conn := fresh_conn\<lparr>tables := empty_db\<lparr>blobs := [((''v'', pic_hash),
    \<lparr>blob_size = 1, blob_created_at = 1000\<rparr>)]\<rparr>\<rparr>, files := [(blob_file_path ''v'' pic_hash, [1])]\<rparr>"
proof -
  have "uploaded store0 = snd (put_locked toy_blake3 toy_filter calm ''v'' ''u''
      \<lparr>seg_start = 0, seg_end = 0, seg_total = 1, seg_bytes = [1]\<rparr> pic_view (created store0))"
    unfolding uploaded_def put_upload_def toy_auth pic_segment authorized
    by (simp add: bind_act_def [of "gap g" for g] gap_def calm_def found_upload)
  also have "\<dots> = store0\<lparr>db_conn := fresh_conn\<lparr>tables := empty_db\<lparr>blobs := [((''v'', pic_hash),
    \<lparr>blob_size = 1, blob_created_at = 1000\<rparr>)]\<rparr>\<rparr>, files := [(blob_file_path ''v'' pic_hash, [1])]\<rparr>"
    unfolding created_run
    by (simp add: put_locked_def pic_view_def as_u64_def act_run sat_add_def record_progress_def no_fault store0_def
        fresh_conn_def empty_db_def file_or_empty_def overwrite_def finalize_upload_def blob_consts toy_blake3_def
        looks_like_svg_def place_blob_def insert_blob_def delete_upload_row_def tbl_keep_def tbl_put_def tbl_del_def
        is_ascii_whitespace_def as_i64_def Let_def)
  finally show ?thesis .
qed

definition pic_row :: path_row where "pic_row = path_row_of pic_path 1 1000"

lemma pic_path_ok: "check_path pic_path = None"
proof -
  have "last_extension ''a.png'' = Some ''png''" by (simp add: last_extension_Some)
  then have key: "validate_segments ''a.png'' up" "cap_for_key ''a.png'' = Some IMAGE_CAP" for up
    by (simp_all add: validate_segments_def cap_for_key_def starts_with_def segment_ok_def ends_with_def ascii_defs
        to_ascii_lowercase_def type_cap_for_ext_def KEY_MAX_BYTES_def obsidian_allowlisted_def strip_prefix_def)
  then show ?thesis
    by (simp add: check_path_def pic_path_def validate_blob_key_def validate_display_path_def pic_hash_ok as_u64_def
        blob_consts MAX_PEER_ID_BYTES_def)
qed

lemma pic_not_svg: "last_extension ''a.png'' \<noteq> Some ''svg''"
proof -
  have "last_extension ''a.png'' = Some ''png''" by (simp add: last_extension_Some)
  then show ?thesis by simp
qed

lemma attach_run: "post_blob_path toy_filter toy_jwt toy_config 0 calm toy_headers pic_path (uploaded store0) =
    (Inr (accepted 1, Some (BlobPathEvent ''v'' ''a.png'' 1)), attached store0)"
  "tbl_get (blob_path_states (tables (db_conn (attached store0)))) (''v'', ''a.png'') = Some pic_row"
  "blob_path_states (tables (db_conn (attached store0))) = [((''v'', ''a.png''), pic_row)]"
  unfolding attached_def uploaded_run post_blob_path_def toy_auth authorized pic_path_ok option.case
  by (simp_all add: act_run pic_path_def pic_not_svg store0_def fresh_conn_def empty_db_def query_no_fault no_fault write_path_def
      check_content_def blob_recorded_def store_path_def transaction_def and_then_def next_seq_def pic_row_def tbl_put_def)

lemma download_run: "get_blob toy_jwt toy_config 0 calm pic_hash toy_headers (uploaded store0) =
    (Inr (BytesReply 200 [1] (blob_headers pic_hash 1)), uploaded store0)"
  unfolding uploaded_run get_blob_def toy_auth authorized
  by (simp add: act_run pic_hash_ok store0_def fresh_conn_def empty_db_def query_no_fault as_u64_def serve_blob_def serve_range_def
      read_range_def toy_headers_def sat_sub_def sat_add_def Let_def)

section \<open>Witnesses\<close>

theorem stored_blobs_are_authentic_witness:
  "\<exists>b. tbl_get (files (uploaded store0)) (blob_file_path ''v'' pic_hash) = Some b \<and> toy_blake3 b = pic_hash"
proof -
  have "tbl_get (blobs (tables (db_conn (uploaded store0)))) (''v'', pic_hash) = Some \<lparr>blob_size = 1, blob_created_at = 1000\<rparr>"
    by (simp add: uploaded_run)
  from stored_blobs_are_authentic [OF new_store0 uploaded_schedule this] show ?thesis by blast
qed

theorem paths_name_stored_blobs_witness:
  "tbl_get (blobs (tables (db_conn (attached store0)))) (''v'', pic_hash) \<noteq> None"
  using paths_name_stored_blobs [OF new_store0 attached_schedule attach_run(2), of pic_hash]
  by (simp add: pic_row_def path_row_of_def pic_path_def)

theorem downloads_are_authentic_witness:
  "\<exists>b. toy_blake3 b = pic_hash \<and> [1] = b"
  using downloads_are_authentic [OF new_store0 uploaded_schedule calm_schedule calm_schedule download_run] by auto

theorem recorded_blobs_never_change_witness:
  "tbl_get (files (snd (sweep_expired_uploads (uploaded store0)))) (blob_file_path ''v'' pic_hash) = Some [1]"
proof -
  have "tbl_get (blobs (tables (db_conn (uploaded store0)))) (''v'', pic_hash) = Some \<lparr>blob_size = 1, blob_created_at = 1000\<rparr>"
    by (simp add: uploaded_run)
  from recorded_blobs_never_change [OF new_store0 uploaded_schedule schedule.sweep this] show ?thesis
    by (simp add: uploaded_run)
qed

theorem fenced_walk_is_complete_witness:
  "(''a.png'', pic_row) \<in> set (walk ''v'' (effective_limit 10) 0 [tables (db_conn (attached store0))])"
proof -
  have seq: "seq pic_row = 1" by (simp add: pic_row_def path_row_of_def)
  have "finished ''v'' (effective_limit 10) 0 (map (\<lambda>x. tables (db_conn x)) (timeline [] (attached store0)))"
    by (simp add: page_def vault_paths_def attach_run(3) effective_limit_def)
  then have "(''a.png'', pic_row) \<in> set (walk ''v'' (effective_limit 10) 0 (map (\<lambda>x. tables (db_conn x)) (timeline [] (attached store0))))"
    by (rule fenced_walk_is_complete [OF new_store0 attached_schedule refl, rotated]) (simp_all add: attach_run(2) seq)
  then show ?thesis by simp
qed

theorem path_writes_are_lww_witness:
  "\<exists>n t. tbl_get (blob_path_states (tables (db_conn (attached store0)))) (''v'', ''a.png'') = Some (path_row_of pic_path n t)"
proof -
  have stable: "\<forall>i \<ge> 1. path_stable (''v'', body_path_key pic_path) (calm i)"
    by (simp add: path_stable_def calm_def)
  show ?thesis
    using path_writes_are_lww [OF toy_auth pic_path_ok stable refl attach_run(1) refl]
    by (auto simp: lww_outcome_def pic_path_def)
qed


end
