(* ===== verification/Blob_Quota.thy ===== *)
theory Blob_Quota
  imports Blob_Witnesses
begin

text \<open>The limits of \<open>create_upload\<close>: what a check guarantees, and what concurrent requests make of it.\<close>

section \<open>One request\<close>

text \<open>
  Fewer than four open uploads, and the bytes stored, in flight and announced fit the quota.  A quota of
  zero is no quota, and the sums saturate at \<open>u64::MAX\<close>, which as a quota is none either.
\<close>

definition within_limits :: "app_config \<Rightarrow> string \<Rightarrow> nat \<Rightarrow> timestamp \<Rightarrow> db \<Rightarrow> bool" where
  "within_limits st v n t d \<longleftrightarrow> length (open_uploads v t d) < 4 \<and>
     (let q = effective_quota (Option.bind (tbl_get (vaults d) v) quota_bytes) (default_quota_bytes st) in
      q = 0 \<or> u64_max \<le> q \<or> as_u64 (stored_bytes v d) + as_u64 (inflight_bytes v t d) + n \<le> q)"

lemma check_quota_within:
  assumes "check_quota st v n c = (Inr WithinQuota, c')"
  shows "within_limits st v n (now c) (tables c)"
proof -
  let ?q = "effective_quota (Option.bind (tbl_get (vaults (tables c)) v) quota_bytes) (default_quota_bytes st)"
  have count: "length (open_uploads v (now c) (tables c)) < 4"
    using assms by (auto simp: check_quota_def and_then_Inr MAX_OPEN_UPLOADS_def split: if_splits dest!: query_Inr)
  have "?q = 0 \<or> sat_add (sat_add (as_u64 (stored_bytes v (tables c))) (as_u64 (inflight_bytes v (now c) (tables c)))) n \<le> ?q"
    using assms by (auto simp: check_quota_def and_then_Inr Let_def not_less split: if_splits dest!: query_Inr)
  then have "?q = 0 \<or> u64_max \<le> ?q \<or> as_u64 (stored_bytes v (tables c)) + as_u64 (inflight_bytes v (now c) (tables c)) + n \<le> ?q"
    by (auto simp: sat_add_def min_def split: if_splits)
  with count show ?thesis by (simp add: within_limits_def Let_def)
qed

lemma triple_const: "triple (\<lambda>_. A) m (\<lambda>_ _. A) (\<lambda>_. True)"
  by (simp add: triple_def split: sum.splits)

lemma triple_result: "(A \<Longrightarrow> Q x) \<Longrightarrow> triple (\<lambda>_. A) (done_with x) (\<lambda>y _. Q y) E"
  by (rule triple_done)

lemma triple_check_within:
  "triple (\<lambda>w. w = w1) (on_db (check_quota st v n))
     (\<lambda>verdict _. verdict = WithinQuota \<longrightarrow> within_limits st v n (now (db_conn w1)) (tables (db_conn w1))) (\<lambda>_. True)"
proof -
  obtain r c where run: "check_quota st v n (db_conn w1) = (r, c)" by (metis prod.exhaust)
  then show ?thesis
    using check_quota_within [of st v n "db_conn w1" c] by (auto simp: triple_def on_db_def split: sum.splits)
qed

definition asked :: "(world \<Rightarrow> world) \<Rightarrow> world \<Rightarrow> app_config \<Rightarrow> string \<Rightarrow> nat \<Rightarrow> bool" where
  "asked f w st v n \<longleftrightarrow> (\<exists>w1. tables (db_conn w1) = tables (db_conn w) \<and> files w1 = files w \<and>
     within_limits st v n (now (db_conn (f w1))) (tables (db_conn (f w1))))"

lemma triple_create_limits:
  assumes auth: "vault_auth J st secs hdrs = Inr v"
  shows "triple (\<lambda>x. x = w) (create_upload J st secs g u hdrs rq)
     (\<lambda>resp _. status resp = 201 \<longrightarrow> asked (g 0) w st v (as_u64 (create_size rq)) \<and> is_hash (create_hash rq) \<and>
        0 < create_size rq \<and> as_u64 (create_size rq) \<le> ABSOLUTE_MAX \<and> blob_rec w (v, create_hash rq) = None) (\<lambda>_. True)"
proof -
  let ?same = "\<lambda>x. tables (db_conn x) = tables (db_conn w) \<and> files x = files w"
  let ?n = "as_u64 (create_size rq)"
  let ?ask = "asked (g 0) w st v ?n"
  have recorded: "triple (\<lambda>x. x = w) (on_db (query (\<lambda>_ d. tbl_get (blobs d) (v, create_hash rq) \<noteq> None)))
      (\<lambda>ex x. (ex \<longleftrightarrow> blob_rec w (v, create_hash rq) \<noteq> None) \<and> ?same x) (\<lambda>_. True)"
    by (rule triple_query) (auto simp: observes_def blob_rec_def)
  have wait: "triple ?same (gap (g 0)) (\<lambda>_ x. \<exists>w1. ?same w1 \<and> x = g 0 w1) (\<lambda>_. True)"
    by (rule triple_gap) blast
  have check: "triple (\<lambda>x. \<exists>w1. ?same w1 \<and> x = g 0 w1) (on_db (check_quota st v ?n)) (\<lambda>verdict _. verdict = WithinQuota \<longrightarrow> ?ask) (\<lambda>_. True)"
  proof (rule triple_assume)
    fix x assume "\<exists>w1. ?same w1 \<and> x = g 0 w1"
    then show "triple (\<lambda>y. y = x) (on_db (check_quota st v ?n)) (\<lambda>verdict _. verdict = WithinQuota \<longrightarrow> ?ask) (\<lambda>_. True)"
      by (intro triple_weaken [OF triple_check_within [of x]]) (auto simp: asked_def)
  qed
  have rest: "triple (\<lambda>_. A) m (\<lambda>resp _. status resp = 201 \<longrightarrow> A) (\<lambda>_. True)" for A and m :: "response act"
    by (simp add: triple_def split: sum.splits)
  have refused: "triple P (done_with r) (\<lambda>resp _. status resp = 201 \<longrightarrow> A) (\<lambda>_. True)" if "status r \<noteq> 201" for P r A
    using that by (simp add: triple_def done_with_def)
  show ?thesis
    unfolding create_upload_def auth authorized
    apply (rule triple_if, rule refused, simp add: json_error_def json_response_def)
    apply (rule triple_bind [OF recorded], rule triple_pure)
    apply (rule triple_if, rule refused, simp add: json_response_def)
    apply (rule triple_if, rule refused, simp add: json_response_def)
    apply (rule triple_bind [OF wait], rule triple_bind [OF check])
    subgoal for ex unit verdict
      by (cases verdict) (auto intro!: refused rest simp: json_error_def json_response_def)
    done
qed

text \<open>
  C22: an upload is only opened within the limits.  When \<open>create_upload\<close> answers 201, the vault had fewer
  than four open uploads and its stored, outstanding and announced bytes fit its quota when they were
  checked, the announced size is at most 25 MiB, the hash is well formed and not yet stored.
\<close>

theorem uploads_open_within_limits:
  assumes "vault_auth J st secs hdrs = Inr v" and "create_upload J st secs g u hdrs rq w = (Inr resp, w')"
    and "status resp = 201"
  shows "(\<exists>w1. tables (db_conn w1) = tables (db_conn w) \<and> files w1 = files w \<and>
      within_limits st v (as_u64 (create_size rq)) (now (db_conn (g 0 w1))) (tables (db_conn (g 0 w1)))) \<and>
    is_hash (create_hash rq) \<and> 0 < create_size rq \<and> as_u64 (create_size rq) \<le> 25 * 1024 * 1024 \<and>
    tbl_get (blobs (tables (db_conn w))) (v, create_hash rq) = None"
  using tripleD_Inr [OF triple_create_limits [OF assms(1), of w g u rq] refl assms(2)] assms(3)
  by (simp add: asked_def blob_rec_def blob_consts)

theorem uploads_open_within_limits_witness:
  "\<exists>w1 :: world. tables (db_conn w1) = empty_db \<and> within_limits toy_config ''v'' 1 (now (db_conn w1)) (tables (db_conn w1))"
proof -
  have "status (projr (fst (create_upload toy_jwt toy_config 0 calm ''u'' toy_headers pic store0))) = 201"
      "\<not> isl (fst (create_upload toy_jwt toy_config 0 calm ''u'' toy_headers pic store0))"
    unfolding create_upload_def authorized toy_auth
    by (simp_all add: act_run pic_def pic_hash_ok store0_def fresh_conn_def empty_db_def query_no_fault no_fault check_quota_def
      and_then_def open_uploads_def stored_bytes_def inflight_bytes_def effective_quota_def toy_config_def blob_consts
      as_u64_def sat_add_def insert_upload_def tbl_put_def json_response_def)
  then obtain resp where "create_upload toy_jwt toy_config 0 calm ''u'' toy_headers pic store0 = (Inr resp, created store0)"
      "status resp = 201"
    by (metis created_def prod.collapse sum.collapse(2))
  from uploads_open_within_limits [OF toy_auth this] obtain w1 where
      w1: "tables (db_conn w1) = tables (db_conn store0)"
        "within_limits toy_config ''v'' (as_u64 (create_size pic)) (now (db_conn (calm 0 w1))) (tables (db_conn (calm 0 w1)))"
    by blast
  moreover have "tables (db_conn store0) = empty_db" "calm 0 w1 = w1" "as_u64 (create_size pic) = 1"
    by (simp_all add: store0_def fresh_conn_def calm_def pic_def as_u64_def)
  ultimately show ?thesis by - (rule exI [of _ w1], simp)
qed

section \<open>Many requests\<close>

text \<open>
  The check and the insert are in different lock scopes, so a request may run entirely between the check
  and the insert of another.  \<open>crowd n\<close> nests \<open>n\<close> of them.
\<close>

fun crowd :: "nat \<Rightarrow> world \<Rightarrow> world" where
  "crowd 0 w = w"
| "crowd (Suc n) w = snd (create_upload toy_jwt toy_config 0 (\<lambda>i. if i = 1 then crowd n else (\<lambda>w. w))
     (replicate (Suc n) CHR ''u'') toy_headers pic w)"

lemma crowd_size:
  "\<exists>t fs'. crowd n \<lparr>db_conn = fresh_conn, files = fs, io_faults = []\<rparr> =
     \<lparr>db_conn = fresh_conn\<lparr>tables := empty_db\<lparr>blob_uploads := t\<rparr>\<rparr>, files = fs', io_faults = []\<rparr> \<and>
    length t = n \<and> (\<forall>(k, r) \<in> set t. length k \<le> n \<and> upload_vault_id r = ''v'' \<and> upload_created_at r = 1000)"
proof (induction n arbitrary: fs)
  case 0
  then show ?case by (simp add: fresh_conn_def empty_db_def)
next
  case (Suc n)
  let ?u = "replicate (Suc n) CHR ''u''"
  let ?r = "\<lparr>upload_vault_id = ''v'', hash_claimed = pic_hash, size_claimed = 1, received_bytes = 0, upload_created_at = 1000,
       upload_updated_at = 1000\<rparr>"
  obtain t fs' where t: "crowd n \<lparr>db_conn = fresh_conn, files = tbl_put (tmp_file_path ?u) [] fs, io_faults = []\<rparr> =
     \<lparr>db_conn = fresh_conn\<lparr>tables := empty_db\<lparr>blob_uploads := t\<rparr>\<rparr>, files = fs', io_faults = []\<rparr>"
      "length t = n" "\<forall>(k, r) \<in> set t. length k \<le> n \<and> upload_vault_id r = ''v'' \<and> upload_created_at r = 1000"
    using Suc.IH by blast
  have none: "tbl_get t ?u = None"
    using t(3) by (fastforce simp: tbl_get_def map_of_eq_None_iff)
  then have put: "tbl_put ?u ?r t = t @ [(?u, ?r)]"
    by (induction t) (auto simp: tbl_put_def)
  have "crowd (Suc n) \<lparr>db_conn = fresh_conn, files = fs, io_faults = []\<rparr> =
      \<lparr>db_conn = fresh_conn\<lparr>tables := empty_db\<lparr>blob_uploads := tbl_put ?u ?r t\<rparr>\<rparr>, files = fs', io_faults = []\<rparr>"
    unfolding crowd.simps create_upload_def authorized toy_auth
    using t(1) none
    by (simp add: act_run pic_def pic_hash_ok fresh_conn_def empty_db_def query_no_fault no_fault check_quota_def
      and_then_def open_uploads_def stored_bytes_def inflight_bytes_def effective_quota_def toy_config_def blob_consts
      as_u64_def sat_add_def insert_upload_def)
  moreover have "\<forall>(k, r) \<in> set (tbl_put ?u ?r t). length k \<le> Suc n \<and> upload_vault_id r = ''v'' \<and> upload_created_at r = 1000"
    unfolding put using t(3) by fastforce
  moreover have "length (tbl_put ?u ?r t) = Suc n"
    unfolding put using t(2) by simp
  ultimately show ?case by blast
qed

text \<open>
  The limit on open uploads does not bound concurrent requests: any number of them may pass the check
  before the first of them inserts its row, so a vault can have any number of open uploads at once.
\<close>

theorem concurrent_creates_pass_the_limit:
  "length (open_uploads ''v'' 1000 (tables (db_conn (crowd n store0)))) = n"
proof -
  obtain t fs' where t: "crowd n store0 = \<lparr>db_conn = fresh_conn\<lparr>tables := empty_db\<lparr>blob_uploads := t\<rparr>\<rparr>, files = fs', io_faults = []\<rparr>"
      "length t = n" "\<forall>(k, r) \<in> set t. length k \<le> n \<and> upload_vault_id r = ''v'' \<and> upload_created_at r = 1000"
    using crowd_size [of n "[]"] unfolding store0_def by blast
  have "filter (\<lambda>(_, r). upload_vault_id r = ''v'' \<and> upload_created_at r \<ge> 1000 - 86400) t = t"
    using t(3) by (intro filter_True) auto
  then show ?thesis by (simp add: t(1,2) open_uploads_def)
qed

end
