(* ===== verification/Cli.thy ===== *)
theory Cli
  imports Invites
begin

text \<open>
  \<open>src/cli.rs\<close>: the operator's command line.  A command leaves an exit code and what it wrote to the two
  streams; the result of a write is ignored, as the code does.  \<open>serde_json::to_string\<close> is the parameter
  \<open>render\<close>, the text of a stored time is \<open>show_time\<close>, a random secret is an argument.  Arguments are
  trimmed as ASCII.
\<close>

section \<open>Dispatch\<close>

definition newline :: string where "newline = [CHR 0x0A]"

definition USAGE :: string where
  "USAGE = concat (map (\<lambda>l. l @ newline) [
     ''usage: vaultcrdt-server                      run the server'',
     ''       vaultcrdt-server vault create NAME [--server-url URL] [--json]'',
     ''       vaultcrdt-server vault list [--json]'',
     ''       vaultcrdt-server vault quota NAME BYTES'',
     ''       vaultcrdt-server invite mint VAULT [--server-url URL] [--json]''])"

datatype invocation = Server | Cli_Command "string list" | Usage_Error

fun parse_invocation :: "string list \<Rightarrow> invocation" where
  "parse_invocation [] = Server"
| "parse_invocation (first # args) =
     (if first \<in> {''vault'', ''invite'', ''help'', ''--help'', ''-h''} then Cli_Command (first # args) else Usage_Error)"

section \<open>Setup links\<close>

definition hex_upper :: "nat \<Rightarrow> char" where
  "hex_upper d = ''0123456789ABCDEF'' ! d"

definition unreserved :: "char \<Rightarrow> bool" where
  "unreserved b \<longleftrightarrow> is_ascii_alphanumeric b \<or> b \<in> {CHR ''-'', CHR ''.'', CHR ''_'', CHR ''~''}"

definition percent_encode :: "string \<Rightarrow> string" where
  "percent_encode s = concat (map (\<lambda>b. if unreserved b then [b]
     else [CHR ''%'', hex_upper (code b div 16), hex_upper (code b mod 16)]) s)"

definition setup_uri :: "string \<Rightarrow> string \<Rightarrow> string option \<Rightarrow> string" where
  "setup_uri server_url vault_id invite =
     ''obsidian://vaultcrdt/setup?v=1&server='' @ percent_encode server_url @ ''&vaultId='' @ vault_id @
     (case invite of Some i \<Rightarrow> ''&invite='' @ i | None \<Rightarrow> [])"

section \<open>Arguments\<close>

record parsed =
  positionals :: "string list"
  server_url :: "string option"
  as_json :: bool

definition trim_ascii :: "string \<Rightarrow> string" where
  "trim_ascii s = (let blank = (\<lambda>c. c = CHR '' '' \<or> (9 \<le> code c \<and> code c \<le> 13))
     in rev (dropWhile blank (rev (dropWhile blank s))))"

definition normalize_url :: "string \<Rightarrow> string option" where
  "normalize_url value =
     (let url = rev (dropWhile (\<lambda>c. c = CHR ''/'') (rev (trim_ascii value)))
      in if starts_with url ''http://'' \<or> starts_with url ''https://'' then Some url else None)"

text \<open>The loop over the arguments; \<open>None\<close> is a usage error.\<close>

fun parse_args :: "string list \<Rightarrow> parsed \<Rightarrow> parsed option" where
  "parse_args [] p = Some p"
| "parse_args (arg # rest) p =
     (if arg = ''--json'' then parse_args rest (p\<lparr>as_json := True\<rparr>)
      else case strip_prefix ''--server-url='' arg of
        Some v \<Rightarrow> Option.bind (normalize_url v) (\<lambda>u. parse_args rest (p\<lparr>server_url := Some u\<rparr>))
      | None \<Rightarrow>
          if arg = ''--server-url'' then
            (case rest of
               [] \<Rightarrow> None
             | v # rest \<Rightarrow> Option.bind (normalize_url v) (\<lambda>u. parse_args rest (p\<lparr>server_url := Some u\<rparr>)))
          else if starts_with arg ''-'' then None
          else parse_args rest (p\<lparr>positionals := positionals p @ [arg]\<rparr>))"

definition parse :: "string list \<Rightarrow> parsed option" where
  "parse args = parse_args args \<lparr>positionals = [], server_url = None, as_json = False\<rparr>"

section \<open>Output\<close>

record outcome =
  exit_code :: nat
  out_text :: string
  err_text :: string

definition pad :: "nat \<Rightarrow> string \<Rightarrow> string" where
  "pad width s = s @ replicate (width - length s) CHR '' ''"

definition kv :: "nat \<Rightarrow> string \<Rightarrow> string \<Rightarrow> string" where
  "kv width key value = pad (width + 3) (key @ '':'') @ value @ newline"

definition usage :: outcome where
  "usage = \<lparr>exit_code = 2, out_text = [], err_text = USAGE\<rparr>"

definition runtime_error :: "server_error \<Rightarrow> outcome" where
  "runtime_error e = \<lparr>exit_code = 1, out_text = [], err_text = ''error: '' @ to_string e @ newline\<rparr>"

definition refused :: "string \<Rightarrow> outcome" where
  "refused msg = \<lparr>exit_code = 3, out_text = [], err_text = msg @ newline\<rparr>"

definition printed :: "string \<Rightarrow> outcome" where
  "printed s = \<lparr>exit_code = 0, out_text = s, err_text = []\<rparr>"

definition show_int :: "int \<Rightarrow> string" where
  "show_int i = (if i < 0 then CHR ''-'' # show_nat (nat (- i)) else show_nat (nat i))"

text \<open>\<open>match f().await { Err(e) => return runtime_error(err, e), Ok(x) => \<dots> }\<close>.\<close>

definition or_fail :: "'a io \<Rightarrow> ('a \<Rightarrow> conn \<Rightarrow> outcome \<times> conn) \<Rightarrow> conn \<Rightarrow> outcome \<times> conn" where
  "or_fail m k c = (case m c of (Inl e, c) \<Rightarrow> (runtime_error e, c) | (Inr x, c) \<Rightarrow> k x c)"

definition finish :: "outcome \<Rightarrow> conn \<Rightarrow> outcome \<times> conn" where
  "finish r c = (r, c)"

section \<open>Commands\<close>

definition vault_create :: "(json \<Rightarrow> string) \<Rightarrow> argon \<Rightarrow> string \<Rightarrow> string \<Rightarrow> string \<Rightarrow> string option \<Rightarrow> bool \<Rightarrow>
    conn \<Rightarrow> outcome \<times> conn" where
  "vault_create render A salt secret name url js =
     (if \<not> valid_vault_id name then finish usage
      else or_fail (vault_exists name) (\<lambda>exists.
        if exists then finish (refused (''vault exists: '' @ name))
        else or_fail (create_vault A salt name secret) (\<lambda>created.
          if \<not> created then finish (refused (''vault exists: '' @ name))
          else finish (printed (
            if js then render (JObj ([(''vault_id'', JStr name), (''secret'', JStr secret)] @
                (case url of None \<Rightarrow> [] | Some u \<Rightarrow> [(''server_url'', JStr u), (''setup_uri'', JStr (setup_uri u name None))]))) @ newline
            else kv 6 ''vault'' name @ kv 6 ''secret'' secret @
              (case url of None \<Rightarrow> [] | Some u \<Rightarrow> kv 6 ''server'' u @ kv 6 ''setup'' (setup_uri u name None)) @
              newline @ ''Store the secret. It is shown once and cannot be recovered.'' @ newline @
              (case url of None \<Rightarrow> []
               | Some u \<Rightarrow> ''Next: vaultcrdt-server invite mint '' @ name @ '' --server-url '' @ u @ newline))))))"

definition cli_effective_quota :: "int option \<Rightarrow> nat \<Rightarrow> nat" where
  "cli_effective_quota q fallback =
     (case q of Some n \<Rightarrow> if n = 0 then 0 else if n > 0 then nat n else fallback | None \<Rightarrow> fallback)"

definition quota_text :: "int option \<Rightarrow> string" where
  "quota_text q = (case q of None \<Rightarrow> ''default'' | Some n \<Rightarrow> show_int n)"

definition vault_list :: "(json \<Rightarrow> string) \<Rightarrow> (timestamp \<Rightarrow> string) \<Rightarrow> nat \<Rightarrow> bool \<Rightarrow> conn \<Rightarrow> outcome \<times> conn" where
  "vault_list render show_time fallback js =
     or_fail list_vaults (\<lambda>rows.
       finish (printed (
         if js then render (JArr (map (\<lambda>(v, t, q). JObj [(''vault_id'', JStr v), (''created_at'', JStr (show_time t)),
             (''quota_bytes'', opt_json JInt q), (''effective_quota_bytes'', JInt (int (cli_effective_quota q fallback)))]) rows)) @ newline
         else
           let width = fold max (map (\<lambda>(v, _). length v) rows) 0
           in concat (map (\<lambda>(v, t, q). pad width v @ ''  '' @ show_time t @ ''  quota='' @ quota_text q @ ''  effective='' @
             show_nat (cli_effective_quota q fallback) @ newline) rows))))"

text \<open>The argument of \<open>vault quota\<close>: \<open>default\<close> or a number that fits 63 bits.\<close>

definition parse_quota :: "string \<Rightarrow> int option option" where
  "parse_quota s =
     (if s = ''default'' then Some None
      else case parse_u64 s of
             Some n \<Rightarrow> if int n \<le> i64_max then Some (Some (int n)) else None
           | None \<Rightarrow> None)"

definition vault_quota :: "(json \<Rightarrow> string) \<Rightarrow> nat \<Rightarrow> string \<Rightarrow> string \<Rightarrow> bool \<Rightarrow> conn \<Rightarrow> outcome \<times> conn" where
  "vault_quota render fallback name bytes js =
     (if \<not> valid_vault_id name then finish usage
      else case parse_quota bytes of
        None \<Rightarrow> finish usage
      | Some q \<Rightarrow>
          or_fail (set_vault_quota name q) (\<lambda>found.
          if \<not> found then finish (refused (''vault not found: '' @ name))
          else or_fail (get_vault_quota name) (\<lambda>got.
            case got of
              None \<Rightarrow> finish (refused (''vault not found: '' @ name))
            | Some stored \<Rightarrow>
                let eff = cli_effective_quota stored fallback in
                finish (printed (
                  if js then render (JObj [(''vault_id'', JStr name), (''quota_bytes'', opt_json JInt stored),
                      (''effective_quota_bytes'', JInt (int eff))]) @ newline
                  else kv 9 ''vault'' name @ kv 9 ''quota'' (quota_text stored) @ kv 9 ''effective'' (show_nat eff))))))"

definition invite_mint :: "(json \<Rightarrow> string) \<Rightarrow> (timestamp \<Rightarrow> string) \<Rightarrow> (string \<Rightarrow> string) \<Rightarrow> string \<Rightarrow> string \<Rightarrow> string option \<Rightarrow> bool \<Rightarrow>
    conn \<Rightarrow> outcome \<times> conn" where
  "invite_mint render show_time sha invite vault url js =
     (if \<not> valid_vault_id vault then finish usage
      else or_fail (vault_exists vault) (\<lambda>exists.
        if \<not> exists then finish (refused (''vault not found: '' @ vault))
        else or_fail (mint_invite sha invite vault ''operator-cli'' None) (\<lambda>(invite, expiry).
          finish (printed (
            if js then render (JObj ([(''vault_id'', JStr vault), (''invite'', JStr invite), (''expires_at'', JStr (show_time expiry))] @
                (case url of None \<Rightarrow> [] | Some u \<Rightarrow> [(''server_url'', JStr u), (''setup_uri'', JStr (setup_uri u vault (Some invite)))]))) @ newline
            else kv 7 ''vault'' vault @ kv 7 ''invite'' invite @ kv 7 ''expires'' (show_time expiry) @
              (case url of None \<Rightarrow> [] | Some u \<Rightarrow> kv 7 ''server'' u @ kv 7 ''setup'' (setup_uri u vault (Some invite))) @
              newline @ ''Open the setup link on the new device, or render it as a QR code (any QR tool) and scan it with the phone.'' @
              newline)))))"

text \<open>What the commands take from outside: Argon2, SHA-256, the renderings, and fresh random values.\<close>

record cli_env =
  cli_argon :: argon
  cli_salt :: string
  cli_secret :: string
  cli_sha :: "string \<Rightarrow> string"
  cli_invite :: string
  cli_render :: "json \<Rightarrow> string"
  cli_time :: "timestamp \<Rightarrow> string"

definition run :: "cli_env \<Rightarrow> nat \<Rightarrow> string list \<Rightarrow> conn \<Rightarrow> outcome \<times> conn" where
  "run X fallback args =
     (case args of
        [] \<Rightarrow> finish usage
      | cmd # rest \<Rightarrow>
          if cmd \<in> {''help'', ''--help'', ''-h''} then finish (printed USAGE)
          else if cmd \<noteq> ''vault'' \<and> cmd \<noteq> ''invite'' then finish usage
          else case parse rest of
            None \<Rightarrow> finish usage
          | Some p \<Rightarrow>
              (case positionals p of
                 [verb, name] \<Rightarrow>
                   if cmd = ''vault'' \<and> verb = ''create''
                   then vault_create (cli_render X) (cli_argon X) (cli_salt X) (cli_secret X) name (server_url p) (as_json p)
                   else if cmd = ''invite'' \<and> verb = ''mint''
                   then invite_mint (cli_render X) (cli_time X) (cli_sha X) (cli_invite X) name (server_url p) (as_json p)
                   else finish usage
               | [verb] \<Rightarrow> if cmd = ''vault'' \<and> verb = ''list''
                   then vault_list (cli_render X) (cli_time X) fallback (as_json p) else finish usage
               | [verb, name, bytes] \<Rightarrow> if cmd = ''vault'' \<and> verb = ''quota''
                   then vault_quota (cli_render X) fallback name bytes (as_json p) else finish usage
               | _ \<Rightarrow> finish usage))"

end
