(* ===== verification/Server_Main.thy ===== *)
theory Server_Main
  imports Cli Blob_Runs
begin

text \<open>
  \<open>src/main.rs\<close>: how the process reads its settings from the environment, what it does before it
  listens, and what its hourly task does.  The environment maps a name to its value, \<open>None\<close> when it is
  unset or not Unicode.  The process as a whole is in \<open>Boot\<close>.
\<close>

section \<open>Settings\<close>

definition DEFAULT_TOMBSTONE_RETENTION_DAYS :: int where "DEFAULT_TOMBSTONE_RETENTION_DAYS = 365"
definition DEFAULT_PEER_RETENTION_DAYS :: int where "DEFAULT_PEER_RETENTION_DAYS = 365"
definition DEFAULT_VAULT_QUOTA_BYTES :: nat where "DEFAULT_VAULT_QUOTA_BYTES = 5 * 1024 * 1024 * 1024"

text \<open>\<open>str::parse::<i64>()\<close>: an optional sign, at least one digit, no overflow.\<close>

definition parse_i64 :: "string \<Rightarrow> int option" where
  "parse_i64 s =
     (let neg = (case s of CHR ''-'' # _ \<Rightarrow> True | _ \<Rightarrow> False);
          d = (case s of CHR ''+'' # r \<Rightarrow> r | CHR ''-'' # r \<Rightarrow> r | _ \<Rightarrow> s)
      in if d = [] \<or> \<not> list_all is_ascii_digit d then None
         else let n = int (digits_value d) in
           if neg then (if n \<le> i64_max + 1 then Some (- n) else None) else (if n \<le> i64_max then Some n else None))"

definition require_non_empty_value :: "string \<Rightarrow> string option \<Rightarrow> string + string" where
  "require_non_empty_value var v =
     (case v of
        Some s \<Rightarrow> if s \<noteq> [] then Inr s else Inl (var @ '' must not be empty'')
      | None \<Rightarrow> Inl (var @ '' must be set''))"

definition env_or :: "(string \<Rightarrow> 'a option) \<Rightarrow> 'a \<Rightarrow> string option \<Rightarrow> 'a" where
  "env_or p fallback v = (case Option.bind v p of Some x \<Rightarrow> x | None \<Rightarrow> fallback)"

definition trust_flag :: "string option \<Rightarrow> bool" where
  "trust_flag v = (case v of None \<Rightarrow> False | Some s \<Rightarrow> s \<noteq> [] \<and> s \<noteq> ''0'' \<and> s \<noteq> ''false'')"

record settings =
  tombstone_days :: int
  peer_days :: int
  server_state :: app_config

definition app_state :: "string \<Rightarrow> string \<Rightarrow> string \<Rightarrow> (string \<Rightarrow> string option) \<Rightarrow> app_config" where
  "app_state epoch secret token env =
     \<lparr>jwt_secret = secret, admin_token = token, trust_proxy = trust_flag (env ''VAULTCRDT_TRUST_PROXY''),
       default_quota_bytes = env_or parse_u64 DEFAULT_VAULT_QUOTA_BYTES (env ''VAULTCRDT_DEFAULT_VAULT_QUOTA''),
       server_epoch = epoch\<rparr>"

text \<open>The settings the server runs with, or the message it panics with.\<close>

definition server_settings :: "string \<Rightarrow> (string \<Rightarrow> string option) \<Rightarrow> string + settings" where
  "server_settings epoch env =
     bind_result (require_non_empty_value ''VAULTCRDT_JWT_SECRET'' (env ''VAULTCRDT_JWT_SECRET'')) (\<lambda>secret.
     bind_result (require_non_empty_value ''VAULTCRDT_ADMIN_TOKEN'' (env ''VAULTCRDT_ADMIN_TOKEN'')) (\<lambda>token.
     Inr \<lparr>tombstone_days = env_or parse_i64 DEFAULT_TOMBSTONE_RETENTION_DAYS (env ''VAULTCRDT_TOMBSTONE_DAYS''),
       peer_days = env_or parse_i64 DEFAULT_PEER_RETENTION_DAYS (env ''VAULTCRDT_PEER_RETENTION_DAYS''),
       server_state = app_state epoch secret token env\<rparr>))"

section \<open>Background work\<close>

text \<open>One tick of the hourly task: each of its three parts runs whatever became of the others.\<close>

definition hourly_tick :: "settings \<Rightarrow> (nat \<Rightarrow> world \<Rightarrow> world) \<Rightarrow> unit act" where
  "hourly_tick s g =
     bind_act (ignore (on_db (expire_tombstones (tombstone_days s)))) (\<lambda>_.
     bind_act (gap (g 0)) (\<lambda>_.
     bind_act (ignore (on_db (expire_stale_peers (peer_days s)))) (\<lambda>_.
     bind_act (gap (g 1)) (\<lambda>_.
     ignore sweep_expired_uploads))))"

text \<open>Before it listens the server makes its directories and sweeps once; only the former can stop it.\<close>

definition startup :: "unit act" where
  "startup = bind_act create_dir_all (\<lambda>_. bind_act create_dir_all (\<lambda>_. ignore sweep_expired_uploads))"

section \<open>The hourly task among the requests\<close>

lemma expire_blob_part:
  "blob_part (tables (snd (expire_tombstones n c))) = blob_part (tables c)"
  "blob_part (tables (snd (expire_stale_peers n c))) = blob_part (tables c)"
  by (auto simp: blob_part_def expire_tombstones_def expire_stale_peers_def stmt_def Let_def split: option.splits list.splits)

lemma on_db_schedule:
  assumes "\<And>c. blob_part (tables (snd (m c))) = blob_part (tables c)"
  shows "schedule owner blake3 filter_svg us (\<lambda>w. snd (ignore (on_db m) w))"
proof -
  have "(\<lambda>w. snd (ignore (on_db m) w)) = (\<lambda>w. w\<lparr>db_conn := snd (m (db_conn w)), io_faults := io_faults w\<rparr>)"
    by (simp add: fun_eq_iff ignore_def on_db_def split_beta)
  then show ?thesis
    using schedule.other [of "\<lambda>c. snd (m c)" owner blake3 filter_svg us io_faults] assms by simp
qed

text \<open>A tick of the hourly task is one more thing that may happen in a gap of any blob request.\<close>

lemma hourly_tick_schedule:
  assumes "schedule owner blake3 filter_svg us (g 0)" and "schedule owner blake3 filter_svg us (g 1)"
  shows "schedule owner blake3 filter_svg us (\<lambda>w. snd (hourly_tick s g w))"
proof -
  have "(\<lambda>w. snd (hourly_tick s g w)) = (\<lambda>w. snd (sweep_expired_uploads (g 1
      (snd (ignore (on_db (expire_stale_peers (peer_days s))) (g 0 (snd (ignore (on_db (expire_tombstones (tombstone_days s))) w))))))))"
    by (simp add: fun_eq_iff hourly_tick_def bind_act_def ignore_def gap_def)
  then show ?thesis
    using schedule.seq [OF schedule.seq [OF schedule.seq [OF schedule.seq [OF on_db_schedule [OF expire_blob_part(1)] assms(1)]
      on_db_schedule [OF expire_blob_part(2)]] assms(2)] schedule.sweep] by simp
qed

end
