(* ===== verification/Http_Facts.thy ===== *)
theory Http_Facts
  imports Server_Main Invite_Facts
begin

text \<open>
  What the login, the rate limit, the operator's command line and the settings promise together.
\<close>

section \<open>Laws of the libraries\<close>

text \<open>A hash is in the PHC format of Argon2 and verifies its password.\<close>

definition argon_laws :: "argon \<Rightarrow> bool" where
  "argon_laws A \<longleftrightarrow> (\<forall>salt p h. hash_password A salt p = Inr h \<longrightarrow>
     starts_with h ''$argon2'' \<and> phc_parses A h \<and> verify_password A p h)"

text \<open>A token decodes to its subject under its secret until it expires.\<close>

definition jwt_laws :: "jwt_lib \<Rightarrow> bool" where
  "jwt_laws J \<longleftrightarrow> (\<forall>cl secret tok t. encode J cl secret = Inr tok \<longrightarrow> t < exp cl \<longrightarrow> map_option sub (case decode J tok secret t of Inl _ \<Rightarrow> None | Inr d \<Rightarrow> Some d) = Some (sub cl))"

lemma hashed_verifies: "argon_laws A \<Longrightarrow> hash_secret A salt p = Inr h \<Longrightarrow> verify_secret A p h \<and> starts_with h ''$argon2''"
  by (auto simp: argon_laws_def hash_secret_def verify_secret_def)

lemma signed_verifies:
  "jwt_laws J \<Longrightarrow> jwt_sign J secs v secret = Inr tok \<Longrightarrow> later < secs + JWT_EXPIRY_SECS \<Longrightarrow> jwt_verify J later tok secret = Inr v"
  by (fastforce simp: jwt_laws_def jwt_sign_def jwt_verify_def bind_result_def map_err_def split: sum.splits)

section \<open>The rate limit\<close>

text \<open>Requests to the rate-limited routes, one after another: address, headers, time and handler.\<close>

fun limited_run :: "app_config \<Rightarrow> (string \<times> header_map \<times> nat \<times> (conn \<Rightarrow> response result \<times> conn)) list \<Rightarrow> windows \<Rightarrow> conn \<Rightarrow>
    response result list \<times> windows \<times> conn" where
  "limited_run st [] w c = ([], w, c)"
| "limited_run st ((ip, hdrs, secs, handler) # rs) w c =
     (let (r, w, c) = rate_limit st ip hdrs secs handler w c; (out, w, c) = limited_run st rs w c in (r # out, w, c))"

lemma auth_verify_limited: "auth_verify A salt J st secs g ip hdrs rq w c =
    rate_limit st ip hdrs secs (auth_verify_body A salt J st secs g rq) w c"
  by (simp add: auth_verify_def rate_limit_def)

definition key_of :: "app_config \<Rightarrow> string \<times> header_map \<times> nat \<times> 'h \<Rightarrow> string" where
  "key_of st rq = (case rq of (ip, hdrs, _, _) \<Rightarrow> rate_key (trust_proxy st) hdrs ip)"

definition time_of :: "string \<times> header_map \<times> nat \<times> 'h \<Rightarrow> nat" where
  "time_of rq = (case rq of (_, _, secs, _) \<Rightarrow> secs)"

definition served_for :: "app_config \<Rightarrow> string \<Rightarrow> (string \<times> header_map \<times> nat \<times> 'h) list \<Rightarrow> response result list \<Rightarrow> nat" where
  "served_for st key rs out = length (filter (\<lambda>(rq, r). key_of st rq = key \<and> r \<noteq> Inl TooManyRequests) (zip rs out))"

lemma limited_run_check:
  "fst (snd (limited_run st rs w c)) = snd (check_run w (map (\<lambda>rq. (key_of st rq, time_of rq)) rs)) \<and>
   served_for st key rs (fst (limited_run st rs w c)) \<le> accepts key (fst (check_run w (map (\<lambda>rq. (key_of st rq, time_of rq)) rs)))"
proof (induction rs arbitrary: w c)
  case Nil
  then show ?case by (simp add: served_for_def)
next
  case (Cons rq rs)
  obtain ip hdrs secs handler where rq: "rq = (ip, hdrs, secs, handler)" by (metis prod.exhaust)
  obtain ok w1 where check: "check w (rate_key (trust_proxy st) hdrs ip) secs = (ok, w1)" by (metis prod.exhaust)
  show ?case
    using Cons.IH [of w1 c] Cons.IH [of w1 "snd (handler c)"] rq check
    by (cases ok) (auto simp: rate_limit_def check_auth_rate_limit_def key_of_def time_of_def served_for_def accepts_def
        Let_def split_beta)
qed

text \<open>
  C29: password guesses are bounded.  Whatever requests came before to the rate-limited routes, from
  whatever clients, the requests of one client within any sixty seconds that are not turned away with
  429 are at most twenty.
\<close>

theorem password_guesses_are_bounded:
  assumes "limited_run st earlier [] c0 = (out0, w, c)"
    and "\<forall>rq \<in> set period. T \<le> time_of rq \<and> time_of rq < T + AUTH_WINDOW_SECS"
  shows "served_for st key period (fst (limited_run st period w c)) \<le> 20"
proof -
  let ?checks = "map (\<lambda>rq. (key_of st rq, time_of rq))"
  have "w = snd (check_run [] (?checks earlier))"
    using limited_run_check [of st earlier "[]" c0] assms(1) by simp
  then have wf: "limiter_wf w"
    using check_run_wf [OF limiter_wf_empty] by simp
  have "\<forall>(k, now) \<in> set (?checks period). T \<le> now \<and> now < T + AUTH_WINDOW_SECS"
    using assms(2) by auto
  then have "accepts key (fst (check_run w (?checks period))) \<le> 2 * AUTH_REQUEST_LIMIT"
    using check_run_budget [OF wf, of "?checks period" T key] budget_le [of T key w] by linarith
  then show ?thesis
    using limited_run_check [of st period w c] by (auto simp: auth_consts intro: order_trans)
qed

section \<open>Login and registration\<close>

definition secret_of :: "string \<Rightarrow> conn \<Rightarrow> string option" where
  "secret_of v c = map_option api_key (tbl_get (vaults (tables c)) v)"

text \<open>What others do in a gap may create the vault, but leaves the secret of an existing one.\<close>

definition keeps_secret :: "string \<Rightarrow> (conn \<Rightarrow> conn) \<Rightarrow> bool" where
  "keeps_secret v g \<longleftrightarrow> (\<forall>c s. secret_of v c = Some s \<longrightarrow> secret_of v (g c) = Some s)"

lemma verify_vault_Inr:
  assumes "verify_vault A salt g v key c = (Inr True, c')" and "keeps_secret v g"
  shows "\<exists>s s'. secret_of v c = Some s \<and> verify_secret A key s \<and> secret_of v c' = Some s' \<and>
    (s' = s \<or> hash_secret A salt key = Inr s')"
proof -
  obtain stored c1 where q: "query (\<lambda>_ d. map_option api_key (tbl_get (vaults d) v)) c = (Inr stored, c1)"
    using assms(1) by (auto simp: verify_vault_def and_then_Inr)
  have stored: "stored = secret_of v c" "tables c1 = tables c"
    using query_Inr [OF q] by (auto simp: secret_of_def)
  then obtain s where s: "secret_of v c = Some s"
    using assms(1) q by (cases "secret_of v c") (auto simp: verify_vault_def and_then_def unlocked_def)
  moreover have "secret_of v c1 = Some s" using s stored by (simp add: secret_of_def)
  ultimately have gap: "secret_of v (g c1) = Some s"
    using assms(2) by (auto simp: keeps_secret_def)
  show ?thesis
  proof (cases "starts_with s ''$argon2''")
    case True
    then have "verify_secret A key s \<and> c' = g c1"
      using assms(1) q stored s by (auto simp: verify_vault_def and_then_def unlocked_def split: if_splits)
    then show ?thesis using s gap by auto
  next
    case False
    then have ver: "verify_secret A key s"
      using assms(1) q stored s by (auto simp: verify_vault_def and_then_def unlocked_def split: if_splits)
    obtain r where r: "tbl_get (vaults (tables (g c1))) v = Some r"
      using gap by (auto simp: secret_of_def)
    obtain hashed where "hash_secret A salt key = Inr hashed" and "secret_of v c' = Some hashed"
      using assms(1) q stored s False ver r
      by (auto simp: verify_vault_def and_then_Inr unlocked_def secret_of_def sql.get_put dest!: exec_Inr)
    then show ?thesis using s ver by auto
  qed
qed

lemma create_vault_Inr:
  assumes "create_vault A salt v key c = (Inr created, c')"
  shows "\<exists>h. hash_secret A salt key = Inr h \<and>
    (case secret_of v c of
       Some s \<Rightarrow> \<not> created \<and> tables c' = tables c
     | None \<Rightarrow> created \<and> secret_of v c' = Some h)"
  using assms unfolding create_vault_def secret_of_def
  by (cases "tbl_get (vaults (tables c)) v") (auto simp: and_then_Inr stmt_Inr sql.get_put)

text \<open>The steps of a login that got through: the lookup, the check or the creation, the token.\<close>

lemma login_steps:
  assumes "auth_verify_body A salt J st secs g (Inr rq) c = (Inr resp, c')"
  shows "valid_vault_id (req_vault_id rq) \<and> (\<exists>c1 token.
    secret_of (req_vault_id rq) c1 = secret_of (req_vault_id rq) c \<and>
    resp = json_response 200 (JObj [(''token'', JStr token), (''vault_id'', JStr (req_vault_id rq))]) \<and>
    jwt_sign J secs (req_vault_id rq) (jwt_secret st) = Inr token \<and>
    (case secret_of (req_vault_id rq) c of
       Some s \<Rightarrow> verify_vault A salt (g 1) (req_vault_id rq) (req_api_key rq) (g 0 c1) = (Inr True, c')
     | None \<Rightarrow> constant_time_eq (case req_admin_token rq of None \<Rightarrow> [] | Some k \<Rightarrow> k) (admin_token st) \<and>
         (\<exists>created c3. create_vault A salt (req_vault_id rq) (req_api_key rq) (g 0 c1) = (Inr created, c3) \<and>
           (if created then c' = c3
            else verify_vault A salt (g 3) (req_vault_id rq) (req_api_key rq) (g 2 c3) = (Inr True, c')))))"
proof -
  let ?v = "req_vault_id rq" and ?key = "req_api_key rq"
  have valid: "valid_vault_id ?v"
    using assms by (auto simp: auth_verify_body_def split: if_splits)
  obtain exists c1 c2 u token where ex: "vault_exists ?v c = (Inr exists, c1)"
    and body: "(if exists then
        and_then (verify_vault A salt (g 1) ?v ?key) (\<lambda>verified. if \<not> verified then lift (Inl auth_failed) else ok ())
      else let key = (case req_admin_token rq of None \<Rightarrow> [] | Some k \<Rightarrow> k)
        in if \<not> constant_time_eq key (admin_token st) then lift (Inl auth_failed)
           else and_then (create_vault A salt ?v ?key) (\<lambda>created.
             if created then ok ()
             else and_then (unlocked (g 2)) (\<lambda>_.
               and_then (verify_vault A salt (g 3) ?v ?key) (\<lambda>verified.
               if \<not> verified then lift (Inl auth_failed) else ok ())))) (g 0 c1) = (Inr u, c2)"
    and reply: "c' = c2" "jwt_sign J secs ?v (jwt_secret st) = Inr token"
      "resp = json_response 200 (JObj [(''token'', JStr token), (''vault_id'', JStr ?v)])"
    using assms valid unfolding auth_verify_body_def
    by (simp only: sum.case if_False not_True_eq_False simp_thms and_then_Inr lift_run ok_run unlocked_def prod.inject sum.inject) blast
  have c1: "exists \<longleftrightarrow> secret_of ?v c \<noteq> None" "secret_of ?v c1 = secret_of ?v c"
    using query_Inr [OF ex [unfolded vault_exists_def]] by (auto simp: secret_of_def)
  have "case secret_of ?v c of
      Some s \<Rightarrow> verify_vault A salt (g 1) ?v ?key (g 0 c1) = (Inr True, c')
    | None \<Rightarrow> constant_time_eq (case req_admin_token rq of None \<Rightarrow> [] | Some k \<Rightarrow> k) (admin_token st) \<and>
         (\<exists>created c3. create_vault A salt ?v ?key (g 0 c1) = (Inr created, c3) \<and>
           (if created then c' = c3 else verify_vault A salt (g 3) ?v ?key (g 2 c3) = (Inr True, c')))"
  proof (cases "secret_of ?v c")
    case None
    then have token: "constant_time_eq (case req_admin_token rq of None \<Rightarrow> [] | Some k \<Rightarrow> k) (admin_token st)"
      using body c1 by (auto split: if_splits)
    obtain created c3 where create: "create_vault A salt ?v ?key (g 0 c1) = (Inr created, c3)"
      and "(if created then ok () else and_then (unlocked (g 2)) (\<lambda>_.
          and_then (verify_vault A salt (g 3) ?v ?key) (\<lambda>verified.
          if \<not> verified then lift (Inl auth_failed) else ok ()))) c3 = (Inr (), c2)"
      using body c1 None token by (auto simp: and_then_Inr Let_def)
    then have "if created then c' = c3 else verify_vault A salt (g 3) ?v ?key (g 2 c3) = (Inr True, c')"
      using reply(1) by (auto simp: and_then_Inr unlocked_def split: if_splits)
    then show ?thesis
      using None token create by auto
  next
    case (Some s)
    then show ?thesis
      using body c1 reply(1) by (auto simp: and_then_Inr split: if_splits)
  qed
  then show ?thesis
    using valid reply c1(2) by blast
qed

lemma login_proof:
  assumes "auth_verify_body A salt J st secs g (Inr rq) c = (Inr resp, c')"
    and keep: "\<And>i. keeps_secret (req_vault_id rq) (g i)"
  shows "case secret_of (req_vault_id rq) c of
       Some s \<Rightarrow> verify_secret A (req_api_key rq) s
     | None \<Rightarrow> constant_time_eq (case req_admin_token rq of None \<Rightarrow> [] | Some k \<Rightarrow> k) (admin_token st) \<and>
         (\<exists>s. secret_of (req_vault_id rq) c' = Some s \<and>
           (hash_secret A salt (req_api_key rq) = Inr s \<or> verify_secret A (req_api_key rq) s))"
proof -
  let ?v = "req_vault_id rq" and ?key = "req_api_key rq"
  obtain c1 where c1: "secret_of ?v c1 = secret_of ?v c"
    and run: "case secret_of ?v c of
       Some s \<Rightarrow> verify_vault A salt (g 1) ?v ?key (g 0 c1) = (Inr True, c')
     | None \<Rightarrow> constant_time_eq (case req_admin_token rq of None \<Rightarrow> [] | Some k \<Rightarrow> k) (admin_token st) \<and>
         (\<exists>created c3. create_vault A salt ?v ?key (g 0 c1) = (Inr created, c3) \<and>
           (if created then c' = c3 else verify_vault A salt (g 3) ?v ?key (g 2 c3) = (Inr True, c')))"
    using login_steps [OF assms(1)] by blast
  show ?thesis
  proof (cases "secret_of ?v c")
    case (Some s)
    then have "secret_of ?v (g 0 c1) = Some s"
      using keep [of 0] c1 by (simp add: keeps_secret_def)
    then show ?thesis
      using run Some verify_vault_Inr [of A salt "g 1" ?v ?key "g 0 c1" c', OF _ keep] by auto
  next
    case None
    then obtain created c3 where token: "constant_time_eq (case req_admin_token rq of None \<Rightarrow> [] | Some k \<Rightarrow> k) (admin_token st)"
      and create: "create_vault A salt ?v ?key (g 0 c1) = (Inr created, c3)"
      and rest: "if created then c' = c3 else verify_vault A salt (g 3) ?v ?key (g 2 c3) = (Inr True, c')"
      using run by auto
    have "\<exists>s. secret_of ?v c' = Some s \<and> (hash_secret A salt ?key = Inr s \<or> verify_secret A ?key s)"
    proof (cases created)
      case True
      then show ?thesis
        using rest create_vault_Inr [OF create] by (auto split: option.splits)
    next
      case False
      then have "verify_vault A salt (g 3) ?v ?key (g 2 c3) = (Inr True, c')"
        using rest by simp
      from verify_vault_Inr [OF this keep] show ?thesis by auto
    qed
    then show ?thesis
      using None token by simp
  qed
qed

text \<open>
  C26: a token is only given for a proof.  When \<open>/auth/verify\<close> answers with a token, whatever the other
  requests did in its gaps short of changing the secret, then the vault had a secret and the key verifies
  against it, or the vault did not exist, the request carried the configured admin token and the vault
  now stands with a secret that is the hash of the key or that the key verifies against.
\<close>

theorem login_needs_the_secret:
  assumes "auth_verify_body A salt J st secs g (Inr rq) c = (Inr resp, c')"
    and "\<forall>i. keeps_secret (req_vault_id rq) (g i)"
  shows "case secret_of (req_vault_id rq) c of
       Some s \<Rightarrow> verify_secret A (req_api_key rq) s
     | None \<Rightarrow> constant_time_eq (case req_admin_token rq of None \<Rightarrow> [] | Some k \<Rightarrow> k) (admin_token st) \<and>
         (\<exists>s. secret_of (req_vault_id rq) c' = Some s \<and>
           (hash_secret A salt (req_api_key rq) = Inr s \<or> verify_secret A (req_api_key rq) s))"
  using login_proof assms by blast

text \<open>
  C27: registration needs the configured token.  A server that started has a non-empty admin token from
  its environment, and a login that creates or finds created a vault that did not exist when it began
  carried exactly that token, whatever the other requests did meanwhile.  (The lengths are those a
  64-bit machine has.)
\<close>

theorem registration_needs_the_configured_token:
  assumes "server_settings epoch env = Inr s"
    and "auth_verify_body A salt J (server_state s) secs g (Inr rq) c = (Inr resp, c')"
    and "secret_of (req_vault_id rq) c = None"
    and "length (admin_token (server_state s)) < 2 ^ 64"
    and "\<forall>token. req_admin_token rq = Some token \<longrightarrow> length token < 2 ^ 64"
  shows "req_admin_token rq = env ''VAULTCRDT_ADMIN_TOKEN'' \<and> req_admin_token rq \<notin> {None, Some []}"
proof -
  let ?given = "case req_admin_token rq of None \<Rightarrow> [] | Some k \<Rightarrow> k"
  have configured: "env ''VAULTCRDT_ADMIN_TOKEN'' = Some (admin_token (server_state s))" "admin_token (server_state s) \<noteq> []"
    using assms(1) by (auto simp: server_settings_def app_state_def require_non_empty_value_def bind_result_Inr split: option.splits if_splits)
  have "constant_time_eq ?given (admin_token (server_state s))"
    using login_steps [OF assms(2)] assms(3) by auto
  moreover have "length ?given < 2 ^ 64"
    using assms(5) by (cases "req_admin_token rq") auto
  ultimately have "?given = admin_token (server_state s)"
    using constant_time_eq_iff assms(4) by blast
  then show ?thesis
    using configured by (cases "req_admin_token rq") auto
qed

section \<open>Devices the peer list does not name\<close>

text \<open>
  A device whose peer row is gone (it expired, or the device never opened a socket) cannot be retired:
  the request is answered 404 and the device's key stays active.
\<close>

lemma unlisted_device_keeps_its_key:
  assumes "admin_ok st hdrs" and "query_vault_id q = Some v" "v \<noteq> []" and "query_device_name q = Some n" "n \<noteq> []"
    and "tbl_get (peers (tables c)) (v, p) = None"
    and "retire_peer_handler st g p q hdrs c = (Inr resp, c')"
  shows "status resp = 404 \<and> tables c' = tables c"
proof -
  have "non_empty (query_vault_id q) = Some v" "non_empty (query_device_name q) = Some n"
    using assms(2-5) by (auto simp: non_empty_def split: list.splits)
  then obtain found c1 where run: "get_peer v p c = (Inr found, c1)"
    and rest: "found = None \<longrightarrow> resp = json_response 404 (error_body ''no such peer in this vault'') \<and> c' = c1"
    using assms(1,7) by (auto simp: retire_peer_handler_def and_then_Inr split: option.splits)
  have "found = None \<and> tables c1 = tables c"
    using query_Inr [OF run [unfolded get_peer_def]] assms(6) by simp
  with rest show ?thesis by (simp add: json_response_def)
qed

section \<open>Vaults made by the operator\<close>

lemma vault_create_done:
  assumes "vault_create render A salt secret name url js c = (r, c')" and "exit_code r = 0"
  shows "valid_vault_id name \<and> secret_of name c = None \<and>
    (\<exists>h. hash_secret A salt secret = Inr h \<and> secret_of name c' = Some h)"
proof -
  have valid: "valid_vault_id name"
    using assms by (auto simp: vault_create_def finish_def usage_def split: if_splits)
  obtain exists c1 where ex: "vault_exists name c = (Inr exists, c1)"
    using assms valid by (cases "vault_exists name c") (auto simp: vault_create_def or_fail_def runtime_error_def split: sum.splits)
  have c1: "exists \<longleftrightarrow> secret_of name c \<noteq> None" "secret_of name c1 = secret_of name c"
    using query_Inr [OF ex [unfolded vault_exists_def]] by (auto simp: secret_of_def)
  have new: "\<not> exists"
    using assms valid ex by (auto simp: vault_create_def or_fail_def finish_def refused_def)
  obtain created c2 where create: "create_vault A salt name secret c1 = (Inr created, c2)"
    using assms valid ex new
    by (cases "create_vault A salt name secret c1") (auto simp: vault_create_def or_fail_def runtime_error_def split: sum.splits)
  then have "created \<and> c' = c2"
    using assms valid ex new by (auto simp: vault_create_def or_fail_def finish_def refused_def split: if_splits)
  then show ?thesis
    using create_vault_Inr [OF create] c1 new valid by (auto split: option.splits)
qed

lemma query_Inl: "query f c = (Inl e, c') \<Longrightarrow> \<exists>m. e = Db m"
  by (auto simp: query_def stmt_def Let_def split: option.splits list.splits)

lemma verify_vault_argon:
  assumes "secret_of v c = Some s" and "verify_secret A key s" and "starts_with s ''$argon2''"
  shows "case fst (verify_vault A salt g v key c) of Inl e \<Rightarrow> \<exists>m. e = Db m | Inr verified \<Rightarrow> verified"
proof -
  obtain r c1 where q: "query (\<lambda>_ d. map_option api_key (tbl_get (vaults d) v)) c = (r, c1)"
    by (metis prod.exhaust)
  show ?thesis
  proof (cases r)
    case (Inl e)
    then show ?thesis using q query_Inl [of _ c e c1] by (auto simp: verify_vault_def and_then_def)
  next
    case (Inr stored)
    then have "stored = Some s"
      using query_Inr [OF q [unfolded Inr]] assms(1) by (auto simp: secret_of_def)
    then show ?thesis
      using q Inr assms(2,3) by (simp add: verify_vault_def and_then_def unlocked_def)
  qed
qed

lemma login_existing:
  assumes "secret_of (req_vault_id rq) c = Some s" and "verify_secret A (req_api_key rq) s"
    and "starts_with s ''$argon2''" and "valid_vault_id (req_vault_id rq)" and "keeps_secret (req_vault_id rq) (g 0)"
    and "fst (auth_verify_body A salt J st secs g (Inr rq) c) = Inl e"
  shows "\<exists>m. e = Db m \<or> e = Jwt m"
proof -
  let ?v = "req_vault_id rq"
  obtain r c1 where ex: "vault_exists ?v c = (r, c1)" by (metis prod.exhaust)
  show ?thesis
  proof (cases r)
    case (Inl e')
    then show ?thesis
      using query_Inl [OF ex [unfolded vault_exists_def Inl]] assms(4,6) ex
      by (auto simp: auth_verify_body_def and_then_def)
  next
    case (Inr exists)
    have c1: "exists" "secret_of ?v c1 = Some s"
      using query_Inr [OF ex [unfolded vault_exists_def Inr]] assms(1) by (auto simp: secret_of_def)
    then have "secret_of ?v (g 0 c1) = Some s"
      using assms(5) by (simp add: keeps_secret_def)
    note check = verify_vault_argon [OF this assms(2,3), of salt "g 1"]
    obtain w c2 where ver: "verify_vault A salt (g 1) ?v (req_api_key rq) (g 0 c1) = (w, c2)"
      by (metis prod.exhaust)
    show ?thesis
      using check ver ex Inr c1 assms(4,6)
      by (cases w; cases "jwt_sign J secs ?v (jwt_secret st)")
        (auto simp: auth_verify_body_def and_then_def unlocked_def jwt_sign_def map_err_def split: sum.splits)
  qed
qed


section \<open>Setup links\<close>

definition hex_value :: "char \<Rightarrow> nat" where
  "hex_value c = (if code c \<le> 57 then code c - 48 else code c - 55)"

fun percent_decode :: "string \<Rightarrow> string" where
  "percent_decode [] = []"
| "percent_decode (c # cs) =
     (if c = CHR ''%'' then
        (case cs of a # b # r \<Rightarrow> char_of (16 * hex_value a + hex_value b) # percent_decode r | _ \<Rightarrow> c # percent_decode cs)
      else c # percent_decode cs)"

lemma hex_digits: "list_all (\<lambda>d. hex_value (hex_upper d) = d \<and> unreserved (hex_upper d)) [0..<16]"
  by code_simp

lemma hex_digit: "d < 16 \<Longrightarrow> hex_value (hex_upper d) = d" "d < 16 \<Longrightarrow> unreserved (hex_upper d)"
  using hex_digits by (auto simp: list_all_iff)

lemma percent_not_unreserved: "\<not> unreserved CHR ''%''"
  by code_simp

lemma code_less: "code c < 256"
  by (simp add: code_def)

text \<open>
  The encoding in a setup link loses nothing and is safe in a query: it holds only unreserved
  characters and percent signs, and percent-decoding it gives the original bytes back.
\<close>

theorem percent_encoding_roundtrip:
  "percent_decode (percent_encode s) = s \<and> list_all (\<lambda>c. unreserved c \<or> c = CHR ''%'') (percent_encode s)"
proof (induction s)
  case Nil
  then show ?case by (simp add: percent_encode_def)
next
  case (Cons c s)
  have split: "percent_encode (c # s) = (if unreserved c then [c]
      else [CHR ''%'', hex_upper (code c div 16), hex_upper (code c mod 16)]) @ percent_encode s"
    by (simp add: percent_encode_def)
  have high: "code c div 16 < 16"
    using code_less [of c] by simp
  have "char_of (16 * (code c div 16) + code c mod 16) = c"
    by (simp add: code_def)
  then show ?case
    using Cons high percent_not_unreserved unfolding split by (cases "unreserved c") (auto simp: hex_digit)
qed

end
