(* ===== verification/Http_Witnesses.thy ===== *)
theory Http_Witnesses
  imports Http_Facts Invite_Witnesses
begin

text \<open>
  The operator makes a vault, a device logs in to it with the printed secret, and a client registers
  a vault with the admin token.
\<close>

definition made :: conn where
  "made = snd (vault_create (\<lambda>_. []) toy_argon [] ''k'' ''v'' None False fresh_conn)"

definition login_rq :: auth_request where
  "login_rq = \<lparr>req_vault_id = ''v'', req_api_key = ''k'', req_admin_token = None\<rparr>"

definition register_rq :: auth_request where
  "register_rq = \<lparr>req_vault_id = ''v'', req_api_key = ''k'', req_admin_token = Some ''root''\<rparr>"

definition toy_environment :: "string \<Rightarrow> string option" where
  "toy_environment name =
     (if name = ''VAULTCRDT_JWT_SECRET'' then Some ''s3cret''
      else if name = ''VAULTCRDT_ADMIN_TOKEN'' then Some ''root'' else None)"

lemma keeps_secret_self: "keeps_secret v (\<lambda>c. c)"
  by (simp add: keeps_secret_def)

lemma toy_argon_laws: "argon_laws toy_argon"
  by (auto simp: argon_laws_def toy_argon_def starts_with_iff)

lemma toy_jwt_laws: "jwt_laws toy_jwt"
proof -
  have prefix: "strip_prefix (secret @ '':'') (secret @ CHR '':'' # x) = Some x" for secret x
    unfolding strip_prefix_Some by simp
  show ?thesis
    by (simp add: jwt_laws_def toy_jwt_def prefix)
qed

lemma Inr_run: "\<not> isl (fst p) \<Longrightarrow> p = (Inr (projr (fst p)), snd p)"
  by (cases p) (auto simp: isl_def split: sum.splits)

definition guess :: "nat \<Rightarrow> string \<times> header_map \<times> nat \<times> (conn \<Rightarrow> response result \<times> conn)" where
  "guess t = (''ip'', \<lambda>_. None, t, auth_verify_body toy_argon [] toy_jwt toy_config t (\<lambda>_ c. c) (Inr login_rq))"

abbreviation login :: "response result \<times> conn" where
  "login \<equiv> auth_verify_body toy_argon [] toy_jwt toy_config 5 (\<lambda>_ c. c) (Inr login_rq) made"

abbreviation register :: "response result \<times> conn" where
  "register \<equiv> auth_verify_body toy_argon [] toy_jwt toy_config 5 (\<lambda>_ c. c) (Inr register_rq) fresh_conn"

lemma runs: "\<not> isl (fst login)" "\<not> isl (fst register)" "secret_of ''v'' made = Some ''$argon2id$k''"
    "secret_of ''v'' fresh_conn = None"
    "exit_code (fst (vault_create (\<lambda>_. []) toy_argon [] ''k'' ''v'' None False fresh_conn)) = 0"
  by code_simp+

section \<open>Witnesses\<close>

theorem password_guesses_are_bounded_witness:
  "served_for toy_config ''ip'' [guess 61] (fst (limited_run toy_config [guess 61]
     (fst (snd (limited_run toy_config [guess 5] [] made))) (snd (snd (limited_run toy_config [guess 5] [] made))))) \<le> 20"
proof (rule password_guesses_are_bounded)
  show "limited_run toy_config [guess 5] [] made = (fst (limited_run toy_config [guess 5] [] made),
      fst (snd (limited_run toy_config [guess 5] [] made)), snd (snd (limited_run toy_config [guess 5] [] made)))"
    by (simp only: prod.collapse)
  show "\<forall>rq \<in> set [guess 61]. 60 \<le> time_of rq \<and> time_of rq < 60 + AUTH_WINDOW_SECS"
    by (simp add: guess_def time_of_def auth_consts)
qed

theorem login_needs_the_secret_witness: "verify_secret toy_argon ''k'' ''$argon2id$k''"
  using login_needs_the_secret [OF Inr_run [OF runs(1)]] runs(3)
  by (simp add: keeps_secret_self login_rq_def)

theorem registration_needs_the_configured_token_witness:
  "req_admin_token register_rq = toy_environment ''VAULTCRDT_ADMIN_TOKEN''"
proof -
  let ?state = "toy_config\<lparr>default_quota_bytes := DEFAULT_VAULT_QUOTA_BYTES\<rparr>"
  let ?s = "\<lparr>tombstone_days = 365, peer_days = 365, server_state = ?state\<rparr>"
  have s: "server_settings ''e'' toy_environment = Inr ?s"
    by (simp add: server_settings_def app_state_def toy_environment_def require_non_empty_value_def toy_config_def env_or_def trust_flag_def
        DEFAULT_TOMBSTONE_RETENTION_DAYS_def DEFAULT_PEER_RETENTION_DAYS_def)
  have same: "admin_token (server_state ?s) = admin_token toy_config" "jwt_secret (server_state ?s) = jwt_secret toy_config"
    by simp_all
  have "auth_verify_body A salt J (server_state ?s) = auth_verify_body A salt J toy_config" for A salt J
    unfolding auth_verify_body_def same ..
  then have run: "auth_verify_body toy_argon [] toy_jwt (server_state ?s) 5 (\<lambda>_ c. c) (Inr register_rq) fresh_conn =
      (Inr (projr (fst register)), snd register)"
    using Inr_run [OF runs(2)] by simp
  have "secret_of (req_vault_id register_rq) fresh_conn = None"
    using runs(4) by (simp add: register_rq_def)
  from registration_needs_the_configured_token [OF s run this] show ?thesis
    by (simp add: register_rq_def toy_config_def)
qed


end
