(* ===== verification/Router.thy ===== *)
theory Router
  imports Server_Main
begin

text \<open>
  \<open>build_router\<close> of \<open>src/lib.rs\<close>: the routing table, the middleware of the onboarding routes, and one
  function that serves a request with the handlers of the other theories.  A request comes decoded: its
  path in segments, its headers as text, and its body or query as the extractors leave it, which is a
  value or a rejection.  As axum documents, a literal segment is preferred to a parameter, \<open>HEAD\<close> goes to
  the handler of \<open>GET\<close>, a path without the method is answered 405, and middleware added with
  \<open>route_layer\<close> runs only when a route matches.
\<close>

section \<open>Routes\<close>

datatype http_method = GET | HEAD | POST | PUT | DELETE | Other_Method

datatype endpoint =
    Invite_Create | Invite_Redeem | Auth_Device
  | Health | Auth_Verify | Ws_Upgrade
  | Debug_Connections | Vault_Stats | Vault_Peers | Retire_Peer string
  | Upload_Create | Upload_Put string | Upload_Get string | Blob_Get string
  | Path_Post | Path_List

datatype pattern = Lit string | Param

text \<open>The parameters of a path that matches; a parameter is a non-empty segment.\<close>

fun match_path :: "pattern list \<Rightarrow> string list \<Rightarrow> string list option" where
  "match_path [] [] = Some []"
| "match_path (Lit s # ps) (x # xs) = (if s = x then match_path ps xs else None)"
| "match_path (Param # ps) (x # xs) = (if x = [] then None else map_option (Cons x) (match_path ps xs))"
| "match_path _ _ = None"

type_synonym method_router = "(http_method \<times> (string list \<Rightarrow> endpoint)) list"

definition onboarding_routes :: "(pattern list \<times> method_router) list" where
  "onboarding_routes = [
     ([Lit ''invite''], [(POST, \<lambda>_. Invite_Create)]),
     ([Lit ''invite'', Lit ''redeem''], [(POST, \<lambda>_. Invite_Redeem)]),
     ([Lit ''auth'', Lit ''device''], [(POST, \<lambda>_. Auth_Device)])]"

definition routes :: "(pattern list \<times> method_router) list" where
  "routes = onboarding_routes @ [
     ([Lit ''health''], [(GET, \<lambda>_. Health)]),
     ([Lit ''auth'', Lit ''verify''], [(POST, \<lambda>_. Auth_Verify)]),
     ([Lit ''ws''], [(GET, \<lambda>_. Ws_Upgrade)]),
     ([Lit ''debug'', Lit ''connections''], [(GET, \<lambda>_. Debug_Connections)]),
     ([Lit ''debug'', Lit ''vault-stats''], [(GET, \<lambda>_. Vault_Stats)]),
     ([Lit ''vault'', Lit ''peers''], [(GET, \<lambda>_. Vault_Peers)]),
     ([Lit ''vault'', Lit ''peers'', Param], [(DELETE, \<lambda>ps. Retire_Peer (hd ps))]),
     ([Lit ''vault'', Lit ''blobs'', Lit ''uploads''], [(POST, \<lambda>_. Upload_Create)]),
     ([Lit ''vault'', Lit ''blobs'', Lit ''uploads'', Param],
        [(PUT, \<lambda>ps. Upload_Put (hd ps)), (GET, \<lambda>ps. Upload_Get (hd ps))]),
     ([Lit ''vault'', Lit ''blobs'', Param], [(GET, \<lambda>ps. Blob_Get (hd ps))]),
     ([Lit ''vault'', Lit ''blob-paths''], [(POST, \<lambda>_. Path_Post), (GET, \<lambda>_. Path_List)])]"

datatype routed = Routed endpoint | Method_Not_Allowed | Not_Found

definition pick_method :: "http_method \<Rightarrow> method_router \<Rightarrow> (string list \<Rightarrow> endpoint) option" where
  "pick_method m ms = map_of ms (if m = HEAD then GET else m)"

text \<open>The literal routes stand before those with a parameter in the same place.\<close>

fun find_route :: "(pattern list \<times> method_router) list \<Rightarrow> http_method \<Rightarrow> string list \<Rightarrow> routed" where
  "find_route [] m segs = Not_Found"
| "find_route ((p, ms) # rest) m segs =
     (case match_path p segs of
        None \<Rightarrow> find_route rest m segs
      | Some params \<Rightarrow> (case pick_method m ms of
            None \<Rightarrow> Method_Not_Allowed
          | Some e \<Rightarrow> Routed (e params)))"

definition route :: "http_method \<Rightarrow> string list \<Rightarrow> routed" where
  "route m segs = find_route routes m segs"

section \<open>Requests and answers\<close>

text \<open>What the body or query extractor of a handler makes of the request.\<close>

datatype payload =
    No_Payload
  | Rejected_Payload nat string
  | Auth_Payload auth_request
  | Invite_Payload invite_request
  | Redeem_Payload redeem_request
  | Device_Payload device_request
  | Retire_Payload retire_query
  | Create_Payload create_request
  | Chunks_Payload "(string + bytes) list"
  | Path_Payload path_body
  | List_Payload path_query

record http_request =
  http_method :: http_method
  http_path :: "string list"
  http_headers :: header_map
  http_query :: "string \<Rightarrow> string option"
  http_ip :: string
  http_payload :: payload

text \<open>The libraries the handlers call, and the random values drawn for one request.\<close>

record server_env =
  env_argon :: argon
  env_jwt :: jwt_lib
  env_sha :: "string \<Rightarrow> string"
  env_blake3 :: "bytes \<Rightarrow> string"
  env_svg :: "bytes \<Rightarrow> string + bytes"
  env_config :: app_config
  env_version :: string

record draws =
  draw_salt :: string
  draw_invite :: string
  draw_device_key :: string
  draw_upload_id :: string

datatype served =
    Reply reply
  | Switching (switch_device: string) (switch_peer: string)

definition rejection :: "payload \<Rightarrow> response" where
  "rejection p = (case p of Rejected_Payload s msg \<Rightarrow> json_response s (JStr msg) | _ \<Rightarrow> json_response 400 (JStr []))"

text \<open>\<open>Result<Response, ServerError>\<close> as a response.\<close>

definition answer :: "response result \<Rightarrow> response" where
  "answer r = (case r of Inl e \<Rightarrow> into_response e | Inr x \<Rightarrow> x)"

definition json_answer :: "response result \<Rightarrow> served \<times> broadcast_event option" where
  "json_answer r = (Reply (JsonReply (answer r)), None)"

definition plain :: "response io \<Rightarrow> (served \<times> broadcast_event option) act" where
  "plain m = bind_act (attempt (on_db m)) (\<lambda>r. done_with (json_answer r))"

definition stored :: "response act \<Rightarrow> (served \<times> broadcast_event option) act" where
  "stored m = bind_act (attempt m) (\<lambda>r. done_with (json_answer r))"

definition stats_json :: "vault_stats_row \<Rightarrow> json" where
  "stats_json s = JObj [(''doc_count'', JInt (int (doc_count s))), (''total_snapshot_bytes'', JInt (int (total_snapshot_bytes s))),
     (''total_vv_bytes'', JInt (int (total_vv_bytes s))),
     (''largest_docs'', JArr (map (\<lambda>d. JObj [(''doc_uuid'', JStr (size_doc_uuid d)), (''snapshot_bytes'', JInt (int (snapshot_bytes d)))])
        (largest_docs s)))]"

definition peers_json :: "peer_info list \<Rightarrow> json" where
  "peers_json ps = JObj [(''peers'', JArr (map (\<lambda>p. JObj [(''peer_id'', JStr (info_peer_id p)),
     (''device_name'', JStr (info_device_name p)), (''last_seen_at'', JInt (info_last_seen_at p))]) ps))]"

text \<open>An extractor that runs after the bearer token's: its rejection is seen only with a valid token.\<close>

definition rejected_after_auth :: "server_env \<Rightarrow> nat \<Rightarrow> http_request \<Rightarrow> response io" where
  "rejected_after_auth E secs rq =
     and_then (lift (vault_auth (env_jwt E) (env_config E) secs (http_headers rq))) (\<lambda>_. ok (rejection (http_payload rq)))"

section \<open>Serving a request\<close>

text \<open>The handlers behind the rate-limiting middleware.\<close>

definition onboarding :: "server_env \<Rightarrow> nat \<Rightarrow> (nat \<Rightarrow> conn \<Rightarrow> conn) \<Rightarrow> draws \<Rightarrow> http_request \<Rightarrow> endpoint \<Rightarrow> response io option" where
  "onboarding E secs gc D rq e =
     (case e of
        Invite_Create \<Rightarrow> Some (case http_payload rq of
            Invite_Payload b \<Rightarrow> create (env_sha E) (draw_invite D) (env_jwt E) (env_config E) secs (http_headers rq) b
          | _ \<Rightarrow> rejected_after_auth E secs rq)
      | Invite_Redeem \<Rightarrow> Some (case http_payload rq of
            Redeem_Payload b \<Rightarrow> redeem (env_sha E) (draw_device_key D) (env_argon E) (draw_salt D) (env_jwt E) (env_config E) secs (gc 0) b
          | p \<Rightarrow> ok (rejection p))
      | Auth_Device \<Rightarrow> Some (case http_payload rq of
            Device_Payload b \<Rightarrow> device_auth (env_argon E) (env_jwt E) (env_config E) secs (gc 0) b
          | p \<Rightarrow> ok (rejection p))
      | _ \<Rightarrow> None)"

text \<open>The other handlers; \<open>gc\<close> and \<open>gw\<close> are the gaps of those that use the database only and of those with files.\<close>

definition handle :: "server_env \<Rightarrow> nat \<Rightarrow> (nat \<Rightarrow> conn \<Rightarrow> conn) \<Rightarrow> (nat \<Rightarrow> world \<Rightarrow> world) \<Rightarrow> draws \<Rightarrow> http_request \<Rightarrow>
    registry \<Rightarrow> endpoint \<Rightarrow> (served \<times> broadcast_event option) act" where
  "handle E secs gc gw D rq reg e =
     (let J = env_jwt E; st = env_config E; hdrs = http_headers rq in
      case e of
        Health \<Rightarrow> done_with (json_answer (Inr (health st (env_version E) PROTOCOL_VERSION)))
      | Ws_Upgrade \<Rightarrow> done_with (case ws_handler (http_query rq) of
            UpgradeRejected r \<Rightarrow> json_answer (Inr r)
          | Upgraded d p \<Rightarrow> (Switching d p, None))
      | Debug_Connections \<Rightarrow> done_with (json_answer (debug_connections st hdrs reg))
      | Vault_Stats \<Rightarrow> plain (and_then (vault_stats_handler J st secs hdrs) (\<lambda>s. ok (json_response 200 (stats_json s))))
      | Vault_Peers \<Rightarrow> plain (and_then (vault_peers_handler J st secs hdrs) (\<lambda>ps. ok (json_response 200 (peers_json ps))))
      | Retire_Peer peer \<Rightarrow> plain (case http_payload rq of
            Retire_Payload q \<Rightarrow> retire_peer_handler st gc peer q hdrs
          | p \<Rightarrow> ok (rejection p))
      | Upload_Create \<Rightarrow> (case http_payload rq of
            Create_Payload b \<Rightarrow> stored (create_upload J st secs gw (draw_upload_id D) hdrs b)
          | _ \<Rightarrow> plain (rejected_after_auth E secs rq))
      | Upload_Put u \<Rightarrow> (case http_payload rq of
            Chunks_Payload chunks \<Rightarrow> stored (put_upload (env_blake3 E) (env_svg E) J st secs gw u hdrs chunks)
          | _ \<Rightarrow> plain (rejected_after_auth E secs rq))
      | Upload_Get u \<Rightarrow> stored (get_upload J st secs u hdrs)
      | Blob_Get h \<Rightarrow> bind_act (attempt (get_blob J st secs gw h hdrs)) (\<lambda>r. done_with (case r of
            Inl err \<Rightarrow> json_answer (Inl err)
          | Inr x \<Rightarrow> (Reply x, None)))
      | Path_Post \<Rightarrow> (case http_payload rq of
            Path_Payload b \<Rightarrow> bind_act (attempt (post_blob_path (env_svg E) J st secs gw hdrs b)) (\<lambda>r. done_with (case r of
                Inl err \<Rightarrow> json_answer (Inl err)
              | Inr (x, event) \<Rightarrow> (Reply (JsonReply x), event)))
          | _ \<Rightarrow> plain (rejected_after_auth E secs rq))
      | Path_List \<Rightarrow> (case http_payload rq of
            List_Payload q \<Rightarrow> plain (list_blob_paths J st secs hdrs q)
          | _ \<Rightarrow> plain (rejected_after_auth E secs rq))
      | _ \<Rightarrow> done_with (json_answer (Inr (json_response 404 JNull))))"

text \<open>One request: its reply and event, the limiter's windows, and the world.\<close>

definition serve :: "server_env \<Rightarrow> nat \<Rightarrow> (nat \<Rightarrow> conn \<Rightarrow> conn) \<Rightarrow> (nat \<Rightarrow> world \<Rightarrow> world) \<Rightarrow> draws \<Rightarrow> http_request \<Rightarrow>
    registry \<Rightarrow> windows \<Rightarrow> world \<Rightarrow> (served \<times> broadcast_event option) \<times> windows \<times> world" where
  "serve E secs gc gw D rq reg win w =
     (case route (http_method rq) (http_path rq) of
        Not_Found \<Rightarrow> (json_answer (Inr (json_response 404 JNull)), win, w)
      | Method_Not_Allowed \<Rightarrow> (json_answer (Inr (json_response 405 JNull)), win, w)
      | Routed e \<Rightarrow>
          if e = Auth_Verify then
            let body = (case http_payload rq of Auth_Payload b \<Rightarrow> Inr b | p \<Rightarrow> Inl (status (rejection p)));
                (r, win, c) = auth_verify (env_argon E) (draw_salt D) (env_jwt E) (env_config E) secs gc
                  (http_ip rq) (http_headers rq) body win (db_conn w)
            in (json_answer r, win, w\<lparr>db_conn := c\<rparr>)
          else (case onboarding E secs gc D rq e of
              Some handler \<Rightarrow>
                let (r, win, c) = rate_limit (env_config E) (http_ip rq) (http_headers rq) secs handler win (db_conn w)
                in (json_answer r, win, w\<lparr>db_conn := c\<rparr>)
            | None \<Rightarrow>
                let (r, w) = handle E secs gc gw D rq reg e w
                in (case r of Inl err \<Rightarrow> json_answer (Inl err) | Inr out \<Rightarrow> out, win, w)))"

end
