(* ===== verification/Blob_Frame.thy ===== *)
theory Blob_Frame
  imports Blob_Logic
begin

text \<open>
  What a request of one vault to the blob routes leaves alone.  \<open>area P F w\<close> holds of the tables and of
  the files; the locale \<open>blob_frame\<close> states what each statement and each file operation keeps of it,
  and derives that every handler does, whatever happens in its gaps short of breaking it.
\<close>

definition area :: "(db \<Rightarrow> bool) \<Rightarrow> ((string list, bytes) table \<Rightarrow> bool) \<Rightarrow> world \<Rightarrow> bool" where
  "area P F w \<longleftrightarrow> P (tables (db_conn w)) \<and> F (files w)"

definition holds :: "(world \<Rightarrow> bool) \<Rightarrow> 'a act \<Rightarrow> bool" where
  "holds I m \<longleftrightarrow> triple I m (\<lambda>_. I) I"

named_theorems holds_intros \<open>rules for computations that keep an assertion\<close>

lemma holdsD: "holds I m \<Longrightarrow> I w \<Longrightarrow> I (snd (m w))"
  unfolding holds_def by (rule triple_keep)

lemma observes_area [simp]: "observes (area P F)"
  by (simp add: observes_def area_def)

lemma area_same: "area P F w \<Longrightarrow> tables (db_conn w') = tables (db_conn w) \<Longrightarrow> files w' = files w \<Longrightarrow> area P F w'"
  by (simp add: area_def)

lemma holds_done [holds_intros]: "holds I (done_with x)"
  and holds_fail [holds_intros]: "holds I (fail_with e)"
  by (auto simp: holds_def intro: triple_done triple_fail)

lemma holds_bind [holds_intros]: "holds I m \<Longrightarrow> (\<And>x. holds I (f x)) \<Longrightarrow> holds I (bind_act m f)"
  unfolding holds_def by (rule triple_bind)

lemma holds_if [holds_intros]: "(b \<Longrightarrow> holds I m) \<Longrightarrow> (\<not> b \<Longrightarrow> holds I m') \<Longrightarrow> holds I (if b then m else m')"
  and holds_option [holds_intros]: "(x = None \<Longrightarrow> holds I m) \<Longrightarrow> (\<And>y. x = Some y \<Longrightarrow> holds I (f y)) \<Longrightarrow>
    holds I (case x of None \<Rightarrow> m | Some y \<Rightarrow> f y)"
  and holds_sum [holds_intros]: "(\<And>e. s = Inl e \<Longrightarrow> holds I (h e)) \<Longrightarrow> (\<And>y. s = Inr y \<Longrightarrow> holds I (k y)) \<Longrightarrow>
    holds I (case s of Inl e \<Rightarrow> h e | Inr y \<Rightarrow> k y)"
  by (auto split: option.splits sum.splits)

lemma holds_prod [holds_intros]: "(\<And>a b. holds I (f a b)) \<Longrightarrow> holds I (case z of (a, b) \<Rightarrow> f a b)"
  by (cases z) auto

lemma holds_ignore [holds_intros]: "holds I m \<Longrightarrow> holds I (ignore m)"
  and holds_attempt [holds_intros]: "holds I m \<Longrightarrow> holds I (attempt m)"
  unfolding holds_def by (auto intro: triple_ignore triple_attempt elim: triple_weaken)

lemma holds_gap: "(\<And>w. I w \<Longrightarrow> I (g w)) \<Longrightarrow> holds I (gap g)"
  unfolding holds_def by (rule triple_gap)

lemma holds_db: "keeps P m \<Longrightarrow> holds (area P F) (on_db m)"
  by (auto simp: holds_def triple_def keeps_def area_def on_db_def split_beta split: sum.splits)

lemma holds_lift [holds_intros]: "holds (area P F) (on_db (lift r))"
  and holds_query [holds_intros]: "holds (area P F) (on_db (query f))"
  by (intro holds_db keeps_lift keeps_query)+

text \<open>A handler that takes its vault from the token.\<close>

lemma holds_auth: "(\<And>x. r = Inr x \<Longrightarrow> holds (area P F) (f x)) \<Longrightarrow> holds (area P F) (bind_act (on_db (lift r)) f)"
  by (cases r) (auto simp: holds_def triple_def bind_act_def on_db_def area_def split_beta split: sum.splits)

lemma holds_file:
  "(\<And>n fs. F fs \<Longrightarrow> F (partial n fs)) \<Longrightarrow> (\<And>x fs fs'. F fs \<Longrightarrow> f fs = Inr (x, fs') \<Longrightarrow> F fs') \<Longrightarrow>
   holds (area P F) (file_op partial f)"
  unfolding holds_def by (rule triple_file_op) (auto simp: area_def)

lemma holds_dirs [holds_intros]: "holds (area P F) create_dir_all"
  and holds_read [holds_intros]: "holds (area P F) (read_file p)"
  and holds_read_if [holds_intros]: "holds (area P F) (read_if_present p)"
  and holds_exists [holds_intros]: "holds (area P F) (try_exists p)"
  and holds_sync [holds_intros]: "holds (area P F) (sync_existing p)"
  and holds_read_range [holds_intros]: "holds (area P F) (read_range p start len)"
  unfolding create_dir_all_def read_file_def read_if_present_def try_exists_def sync_existing_def read_range_def
  by (auto intro!: holds_file split: option.splits if_splits)

lemma holds_create: "(\<And>fs b. F fs \<Longrightarrow> F (tbl_put p b fs)) \<Longrightarrow> holds (area P F) (create_file p)"
  and holds_write: "(\<And>fs b. F fs \<Longrightarrow> F (tbl_put p b fs)) \<Longrightarrow> holds (area P F) (write_at p off buf)"
  and holds_remove: "(\<And>fs. F fs \<Longrightarrow> F (tbl_del p fs)) \<Longrightarrow> holds (area P F) (remove_file p)"
  unfolding create_file_def write_at_def remove_file_def by (auto intro!: holds_file split: if_splits)

lemma holds_rename:
  "(\<And>fs b. F fs \<Longrightarrow> F (tbl_put q b fs)) \<Longrightarrow> (\<And>fs. F fs \<Longrightarrow> F (tbl_del p fs)) \<Longrightarrow> holds (area P F) (rename_file p q)"
  unfolding rename_file_def by (auto intro!: holds_file split: option.splits)

section \<open>The contract\<close>

text \<open>
  \<open>mine u\<close> says that the upload id \<open>u\<close> belongs to the vault \<open>v\<close>; a row that the requests of \<open>v\<close> can see
  has such an id.
\<close>

locale blob_frame =
  fixes v :: string and mine :: "string \<Rightarrow> bool"
    and P :: "db \<Rightarrow> bool" and F :: "(string list, bytes) table \<Rightarrow> bool"
  assumes row_mine: "P d \<Longrightarrow> tbl_get (blob_uploads d) u = Some r \<Longrightarrow> upload_vault_id r = v \<Longrightarrow> mine u"
    and keep_insert: "mine u \<Longrightarrow> keeps P (insert_upload v u hash n)"
    and keep_delete: "mine u \<Longrightarrow> keeps P (delete_upload_row v u)"
    and keep_progress: "keeps P (record_progress v u m)"
    and keep_blob: "keeps P (insert_blob v hash n)"
    and keep_path: "check_path b = None \<Longrightarrow> keeps P (store_path v b)"
    and tmp_put: "mine u \<Longrightarrow> F fs \<Longrightarrow> F (tbl_put (tmp_file_path u) bs fs)"
    and tmp_del: "mine u \<Longrightarrow> F fs \<Longrightarrow> F (tbl_del (tmp_file_path u) fs)"
    and blob_put: "F fs \<Longrightarrow> F (tbl_put (blob_file_path v hash) bs fs)"
    and blob_del: "F fs \<Longrightarrow> F (tbl_del (blob_file_path v hash) fs)"
begin

abbreviation inside :: "'a act \<Rightarrow> bool" where "inside m \<equiv> holds (area P F) m"

lemma inside_discard: "mine u \<Longrightarrow> inside (discard_upload v u)"
  unfolding discard_upload_def by (intro holds_intros holds_db keep_delete holds_remove tmp_del)

lemma inside_with_upload:
  assumes "\<And>row. mine u \<Longrightarrow> inside (k row)"
  shows "inside (with_upload v u k)"
proof -
  have read: "triple (area P F) (on_db (read_upload v u)) (\<lambda>found w. area P F w \<and> (found \<noteq> None \<longrightarrow> mine u)) (area P F)"
    unfolding read_upload_def
    by (rule triple_query) (auto simp: observes_def area_def dest: row_mine split: option.splits if_splits)
  have rest: "triple (\<lambda>w. area P F w \<and> (found \<noteq> None \<longrightarrow> mine u)) (case found of None \<Rightarrow> done_with upload_not_found
      | Some row \<Rightarrow> if view_expired row then bind_act (discard_upload v u) (\<lambda>_. done_with upload_not_found) else k row)
      (\<lambda>_. area P F) (area P F)" for found
  proof (cases "found \<noteq> None \<longrightarrow> mine u")
    case True
    have "inside (case found of None \<Rightarrow> done_with upload_not_found
        | Some row \<Rightarrow> if view_expired row then bind_act (discard_upload v u) (\<lambda>_. done_with upload_not_found) else k row)"
      using True by (auto intro!: holds_intros inside_discard assms)
    then show ?thesis
      unfolding holds_def by (rule triple_pre) simp
  qed (simp add: triple_def)
  show ?thesis
    unfolding holds_def with_upload_def by (rule triple_bind [OF read rest])
qed

lemma inside_create_upload:
  assumes gap: "\<And>i w. area P F w \<Longrightarrow> area P F (g i w)" and "mine u"
    and auth: "\<And>v'. vault_auth J st secs hdrs = Inr v' \<Longrightarrow> v' = v"
  shows "inside (create_upload J st secs g u hdrs rq)"
proof -
  have quota: "keeps P (check_quota st v n)" for n
    unfolding check_quota_def Let_def by (intro keeps_intros)
  have verdicts: "inside (case q of TooMany \<Rightarrow> a | OverQuota m \<Rightarrow> b m | WithinQuota \<Rightarrow> c)"
    if "inside a" "\<And>m. inside (b m)" "inside c" for q and a :: "response act" and b c
    using that by (cases q) auto
  show ?thesis
    unfolding create_upload_def
    by (rule holds_auth, drule auth, hypsubst)
      (intro holds_intros verdicts holds_gap gap holds_db [OF quota] holds_db [OF keep_insert] holds_create holds_remove
        tmp_put tmp_del assms(2))
qed

lemma inside_get_upload:
  assumes "\<And>v'. vault_auth J st secs hdrs = Inr v' \<Longrightarrow> v' = v"
  shows "inside (get_upload J st secs u hdrs)"
proof -
  have "get_upload J st secs u hdrs = bind_act (on_db (lift (vault_auth J st secs hdrs))) (\<lambda>v.
      with_upload v u (\<lambda>row. done_with (json_response 200 (JObj [(''next_offset'', JInt (view_received row)),
        (''hash'', JStr (view_hash row)), (''size'', JInt (view_size row)), (''segment_bytes'', JInt (int SEGMENT_BYTES))]))))"
    by (simp add: get_upload_def with_upload_def)
  then show ?thesis
    using assms by (auto intro!: holds_auth inside_with_upload holds_intros)
qed

lemma inside_place_blob:
  assumes gap: "\<And>i w. area P F w \<Longrightarrow> area P F (g i w)" and "mine u"
  shows "inside (place_blob g v u row)"
  unfolding place_blob_def Let_def blob_recorded_def
  by (intro holds_intros holds_gap gap holds_remove holds_rename holds_db [OF keep_blob] holds_db [OF keep_delete]
      inside_discard tmp_del blob_put blob_del assms(2))

lemma inside_put_upload:
  assumes gap: "\<And>i w. area P F w \<Longrightarrow> area P F (g i w)"
    and auth: "\<And>v'. vault_auth J st secs hdrs = Inr v' \<Longrightarrow> v' = v"
  shows "inside (put_upload blake3 filter_svg J st secs g u hdrs chunks)"
proof -
  have "inside (finalize_upload blake3 filter_svg g v u row n)" if "mine u" for row n
    unfolding finalize_upload_def
    by (intro holds_intros holds_gap gap inside_discard inside_place_blob that)
  then have put: "inside (put_locked blake3 filter_svg g v u seg row)" if "mine u" for seg row
    unfolding put_locked_def Let_def using that
    by (intro holds_intros holds_gap gap holds_write tmp_put holds_db [OF keep_progress]) auto
  show ?thesis
    unfolding put_upload_def
    by (rule holds_auth, drule auth, hypsubst) (intro holds_intros holds_gap gap inside_with_upload put; assumption)
qed

lemma inside_get_blob:
  assumes "\<And>i w. area P F w \<Longrightarrow> area P F (g i w)"
  shows "inside (get_blob J st secs g hash hdrs)"
  unfolding get_blob_def serve_blob_def serve_range_def Let_def
  by (intro holds_intros holds_gap assms)

lemma inside_post_blob_path:
  assumes gap: "\<And>i w. area P F w \<Longrightarrow> area P F (g i w)"
    and auth: "\<And>v'. vault_auth J st secs hdrs = Inr v' \<Longrightarrow> v' = v"
  shows "inside (post_blob_path filter_svg J st secs g hdrs b)"
proof -
  have winner: "inside (write_path filter_svg g v b)" if "check_path b = None"
    unfolding write_path_def check_content_def blob_recorded_def
    by (intro holds_intros holds_gap gap holds_db [OF keep_path [OF that]])
  show ?thesis
    unfolding post_blob_path_def
    by (rule holds_auth, drule auth, hypsubst) (intro holds_intros holds_gap gap winner; assumption)
qed

end

end
