(* ===== verification/Serving.thy ===== *)
theory Serving
  imports Router Blob_Frame
begin

text \<open>
  What serving one request keeps: from the contract of the blob routes to every route that starts with a
  token, and from the handlers to the request as a whole.
\<close>

lemma holds_plain: "keeps P m \<Longrightarrow> holds (area P F) (plain m)"
  and holds_stored: "holds (area P F) a \<Longrightarrow> holds (area P F) (stored a)"
  unfolding plain_def stored_def by (intro holds_intros holds_db; assumption)+

lemma keeps_reads:
  "keeps P (vault_stats_handler J st secs hdrs)" "keeps P (vault_peers_handler J st secs hdrs)"
  "keeps P (list_blob_paths J st secs hdrs q)" "keeps P (rejected_after_auth E secs rq)"
  unfolding vault_stats_handler_def vault_peers_handler_def list_blob_paths_def rejected_after_auth_def vault_stats_def list_peers_def
  by (intro keeps_intros)+

context blob_frame
begin

lemma inside_handle:
  assumes gap: "\<And>i w. area P F w \<Longrightarrow> area P F (gw i w)"
    and auth: "\<And>v'. vault_auth (env_jwt E) (env_config E) secs (http_headers rq) = Inr v' \<Longrightarrow> v' = v"
    and upload: "mine (draw_upload_id D)"
    and retire: "\<And>p q. keeps P (retire_peer_handler (env_config E) gc p q (http_headers rq))"
  shows "inside (handle E secs gc gw D rq reg e)"
  by (cases e; cases "http_payload rq"; simp only: handle_def Let_def endpoint.case payload.case)
    (intro holds_intros holds_plain holds_stored keeps_and_then keeps_ok keeps_reads retire inside_create_upload [OF gap upload auth]
      inside_put_upload [OF gap auth] inside_get_upload [OF auth] inside_get_blob [OF gap] inside_post_blob_path [OF gap auth]; assumption)+

end

lemma serve_area:
  assumes login: "\<And>req. route (http_method rq) (http_path rq) = Routed Auth_Verify \<Longrightarrow>
      keeps P (auth_verify_body (env_argon E) (draw_salt D) (env_jwt E) (env_config E) secs gc req)"
    and onboarding: "\<And>e handler. route (http_method rq) (http_path rq) = Routed e \<Longrightarrow> onboarding E secs gc D rq e = Some handler \<Longrightarrow> keeps P handler"
    and handle: "\<And>e. holds (area P F) (handle E secs gc gw D rq reg e)"
    and ok: "area P F w"
  shows "area P F (snd (snd (serve E secs gc gw D rq reg win w)))"
proof (cases "route (http_method rq) (http_path rq)")
  case (Routed e)
  have limited: "P (tables (snd (snd (rate_limit st ip hdrs secs handler win (db_conn w)))))"
    if "keeps P handler" for st ip hdrs handler
    using that ok by (auto simp: rate_limit_def check_auth_rate_limit_def keeps_def area_def split_beta split: sum.splits prod.splits bool.splits)
  consider (login) "e = Auth_Verify" | (onboarding) h where "e \<noteq> Auth_Verify" "onboarding E secs gc D rq e = Some h"
    | (other) "e \<noteq> Auth_Verify" "onboarding E secs gc D rq e = None" by blast
  then show ?thesis
  proof cases
    case login
    have "auth_verify A salt J st secs g ip hdrs b win c = rate_limit st ip hdrs secs (auth_verify_body A salt J st secs g b) win c"
      for A salt J st secs g ip hdrs b win c
      by (simp add: auth_verify_def rate_limit_def)
    then show ?thesis
      using limited [OF assms(1)] Routed ok login by (simp add: serve_def split_beta Let_def area_def)
  next
    case onboarding
    then show ?thesis
      using limited [OF assms(2) [OF Routed]] Routed ok by (simp add: serve_def split_beta Let_def area_def)
  next
    case other
    then show ?thesis
      using holdsD [OF handle ok] Routed by (simp add: serve_def split_beta Let_def)
  qed
qed (use ok in \<open>simp_all add: serve_def\<close>)

end
