(* ===== verification/Schema.thy ===== *)
theory Schema
  imports Serving Invite_Facts
begin

text \<open>
  The types of the database.  \<open>server_ok\<close> collects what the schema of \<open>migrations/*.sql\<close> declares
  (primary keys and \<open>CHECK\<close>s) and what the components rely on beyond it; every operation of the server
  keeps it.
\<close>

section \<open>Well-formed databases\<close>

text \<open>The \<open>CHECK\<close>s on the onboarding tables and the path states.\<close>

definition checks_ok :: "db \<Rightarrow> bool" where
  "checks_ok d \<longleftrightarrow>
     (\<forall>i r. tbl_get (invites d) i = Some r \<longrightarrow> invite_vault_id r \<noteq> [] \<and> token_hash r \<noteq> [] \<and> inviter_peer_id r \<noteq> []) \<and>
     (\<forall>v p r. tbl_get (device_keys d) (v, p) = Some r \<longrightarrow> v \<noteq> [] \<and> p \<noteq> [] \<and> key_hash r \<noteq> []) \<and>
     (\<forall>k r. tbl_get (blob_path_states d) k = Some r \<longrightarrow> path_state r = ''live'' \<or> path_state r = ''deleted'')"

definition server_ok :: "db \<Rightarrow> bool" where
  "server_ok d \<longleftrightarrow> db_wf d \<and> checks_ok d \<and> doc_ok d \<and> auth_ok d \<and> seqs_ok d"

lemma server_ok_empty: "server_ok empty_db"
  unfolding server_ok_def using empty_db_wf doc_ok_empty auth_ok_empty
  by (simp add: checks_ok_def seqs_ok_def) (simp add: empty_db_def tbl_wf_def)

text \<open>Tables without cross-references.\<close>

lemma doc_ok_same:
  assumes "doc_tables d' = doc_tables d"
  shows "doc_ok d' \<longleftrightarrow> doc_ok d"
proof -
  have "abs_vault v d' = abs_vault v d" for v
    using assms by (rule abs_vault_doc_tables)
  then show ?thesis
    using assms by (simp add: doc_ok_def doc_tables_def next_token_def)
qed

lemma doc_ok_updates [simp]:
  "doc_ok (d\<lparr>vaults := vs\<rparr>) = doc_ok d" "doc_ok (d\<lparr>peers := ps\<rparr>) = doc_ok d" "doc_ok (d\<lparr>invites := is\<rparr>) = doc_ok d"
  "doc_ok (d\<lparr>invites_seq := n\<rparr>) = doc_ok d" "doc_ok (d\<lparr>device_keys := ks\<rparr>) = doc_ok d" "doc_ok (d\<lparr>blobs := bs\<rparr>) = doc_ok d"
  "doc_ok (d\<lparr>blob_path_states := xs\<rparr>) = doc_ok d" "doc_ok (d\<lparr>blob_uploads := us\<rparr>) = doc_ok d" "doc_ok (d\<lparr>blob_seq := n\<rparr>) = doc_ok d"
  by (rule doc_ok_same, simp add: doc_tables_def)+

lemma db_wf_updates:
  "db_wf d \<Longrightarrow> tbl_wf vs \<Longrightarrow> db_wf (d\<lparr>vaults := vs\<rparr>)" "db_wf d \<Longrightarrow> tbl_wf ps \<Longrightarrow> db_wf (d\<lparr>peers := ps\<rparr>)"
  "db_wf d \<Longrightarrow> tbl_wf is \<Longrightarrow> db_wf (d\<lparr>invites := is\<rparr>)" "db_wf d \<Longrightarrow> db_wf (d\<lparr>invites_seq := n\<rparr>)"
  "db_wf d \<Longrightarrow> tbl_wf ks \<Longrightarrow> db_wf (d\<lparr>device_keys := ks\<rparr>)" "db_wf d \<Longrightarrow> tbl_wf bs \<Longrightarrow> db_wf (d\<lparr>blobs := bs\<rparr>)"
  "db_wf d \<Longrightarrow> tbl_wf xs \<Longrightarrow> db_wf (d\<lparr>blob_path_states := xs\<rparr>)" "db_wf d \<Longrightarrow> tbl_wf us \<Longrightarrow> db_wf (d\<lparr>blob_uploads := us\<rparr>)"
  "db_wf d \<Longrightarrow> db_wf (d\<lparr>blob_seq := n\<rparr>)"
  by (simp_all add: db_wf_def)

lemma checks_ok_updates [simp]:
  "checks_ok (d\<lparr>vaults := vs\<rparr>) = checks_ok d" "checks_ok (d\<lparr>peers := ps\<rparr>) = checks_ok d" "checks_ok (d\<lparr>blobs := bs\<rparr>) = checks_ok d"
  "checks_ok (d\<lparr>blob_uploads := us\<rparr>) = checks_ok d" "checks_ok (d\<lparr>invites_seq := n\<rparr>) = checks_ok d" "checks_ok (d\<lparr>blob_seq := n\<rparr>) = checks_ok d"
  by (simp_all add: checks_ok_def)

lemma auth_ok_updates [simp]:
  "auth_ok (d\<lparr>vaults := vs\<rparr>) = auth_ok d" "auth_ok (d\<lparr>peers := ps\<rparr>) = auth_ok d" "auth_ok (d\<lparr>blobs := bs\<rparr>) = auth_ok d"
  "auth_ok (d\<lparr>blob_uploads := us\<rparr>) = auth_ok d" "auth_ok (d\<lparr>blob_path_states := xs\<rparr>) = auth_ok d" "auth_ok (d\<lparr>blob_seq := n\<rparr>) = auth_ok d"
  by (simp_all add: auth_ok_def)

lemma seqs_ok_updates [simp]:
  "seqs_ok (d\<lparr>vaults := vs\<rparr>) = seqs_ok d" "seqs_ok (d\<lparr>peers := ps\<rparr>) = seqs_ok d" "seqs_ok (d\<lparr>blobs := bs\<rparr>) = seqs_ok d"
  "seqs_ok (d\<lparr>blob_uploads := us\<rparr>) = seqs_ok d" "seqs_ok (d\<lparr>invites := is\<rparr>) = seqs_ok d" "seqs_ok (d\<lparr>invites_seq := n\<rparr>) = seqs_ok d"
  "seqs_ok (d\<lparr>device_keys := ks\<rparr>) = seqs_ok d"
  by (simp_all add: seqs_ok_def)

lemma server_ok_tables:
  "server_ok d \<Longrightarrow> tbl_wf ts \<Longrightarrow> server_ok (d\<lparr>vaults := ts\<rparr>)"
  "server_ok d \<Longrightarrow> tbl_wf ps \<Longrightarrow> server_ok (d\<lparr>peers := ps\<rparr>)"
  "server_ok d \<Longrightarrow> tbl_wf bs \<Longrightarrow> server_ok (d\<lparr>blobs := bs\<rparr>)"
  "server_ok d \<Longrightarrow> tbl_wf us \<Longrightarrow> server_ok (d\<lparr>blob_uploads := us\<rparr>)"
  by (simp_all add: server_ok_def db_wf_updates)

lemma server_ok_wf:
  "server_ok d \<Longrightarrow> tbl_wf (vaults d)" "server_ok d \<Longrightarrow> tbl_wf (peers d)" "server_ok d \<Longrightarrow> tbl_wf (blobs d)"
  "server_ok d \<Longrightarrow> tbl_wf (blob_uploads d)"
  by (simp_all add: server_ok_def db_wf_def)

lemmas server_ok_intros = server_ok_tables server_ok_wf sql.wf_put sql.wf_del tbl_wf_keep

section \<open>The blob routes\<close>

lemma server_ok_put_path:
  assumes "server_ok d" and "check_path b = None"
  shows "server_ok (put_path v b t d)"
proof -
  have "body_state b = ''live'' \<or> body_state b = ''deleted''"
    using assms(2) by (auto simp: check_path_def split: if_splits)
  then have "checks_ok (put_path v b t d)"
    using assms(1) by (auto simp: server_ok_def checks_ok_def put_path_def path_row_of_def sql.get_put)
  moreover have "db_wf (put_path v b t d)"
    using assms(1) unfolding put_path_def by (intro db_wf_updates sql.wf_put) (simp_all add: server_ok_def db_wf_def)
  moreover have "seqs_ok (put_path v b t d)"
    using assms(1) by (intro put_path_seqs) (simp add: server_ok_def)
  ultimately show ?thesis
    using assms(1) by (simp add: server_ok_def put_path_def)
qed

lemma keeps_store_path: "(\<And>(d :: db) t. P d \<Longrightarrow> P (put_path v b t d)) \<Longrightarrow> keeps P (store_path v b)"
  unfolding keeps_def
proof (intro allI impI)
  fix c :: conn assume P: "\<And>d t. P d \<Longrightarrow> P (put_path v b t d)" "P (tables c)"
  obtain r c' where run: "store_path v b c = (r, c')" by (metis prod.exhaust)
  show "P (tables (snd (store_path v b c)))"
  proof (cases r)
    case (Inl e)
    then show ?thesis using P(2) run store_path_Inl [of v b c e c'] by simp
  next
    case (Inr n)
    then have "tables c' = put_path v b (now c) (tables c)"
      using run store_path_Inr [of v b c n c'] by simp
    then show ?thesis using P(1) [OF P(2), of "now c"] run by simp
  qed
qed

interpretation schema: blob_frame v "\<lambda>_. True" server_ok "\<lambda>_. True" for v
proof
  show "keeps server_ok (insert_upload v u hash n)" for u hash n
    unfolding insert_upload_def by (rule keeps_stmt) (auto simp: server_ok_wf sql.wf_put intro!: server_ok_tables split: if_splits)
  show "keeps server_ok (delete_upload_row v u)" for u
    unfolding delete_upload_row_def by (rule keeps_exec) (intro server_ok_intros)
  show "keeps server_ok (record_progress v u m)" for u m
    unfolding record_progress_def by (rule keeps_exec) (auto simp: server_ok_wf sql.wf_put intro!: server_ok_tables split: option.splits)
  show "keeps server_ok (insert_blob v hash n)" for hash n
    unfolding insert_blob_def by (rule keeps_stmt) (auto simp: server_ok_wf sql.wf_put intro!: server_ok_tables split: option.splits)
  show "check_path b = None \<Longrightarrow> keeps server_ok (store_path v b)" for b
    by (intro keeps_store_path server_ok_put_path)
qed simp_all

section \<open>The other routes\<close>

lemma server_ok_auth:
  "server_ok d \<Longrightarrow> auth_ok (d\<lparr>invites := is\<rparr>) \<Longrightarrow> checks_ok (d\<lparr>invites := is\<rparr>) \<Longrightarrow> server_ok (d\<lparr>invites := is\<rparr>)"
  "server_ok d \<Longrightarrow> auth_ok (d\<lparr>invites_seq := n, invites := is\<rparr>) \<Longrightarrow> checks_ok (d\<lparr>invites_seq := n, invites := is\<rparr>) \<Longrightarrow>
    server_ok (d\<lparr>invites_seq := n, invites := is\<rparr>)"
  "server_ok d \<Longrightarrow> tbl_wf ks \<Longrightarrow> checks_ok (d\<lparr>device_keys := ks\<rparr>) \<Longrightarrow> server_ok (d\<lparr>device_keys := ks\<rparr>)"
  by (auto simp: server_ok_def auth_ok_def intro!: db_wf_updates)

lemma server_okD: "server_ok d \<Longrightarrow> auth_ok d \<and> checks_ok d \<and> tbl_wf (invites d) \<and> tbl_wf (device_keys d)"
  by (simp add: server_ok_def auth_ok_def)

lemma server_ok_mint: "keeps server_ok (mint_invite sha invite v p n)"
proof (rule mint_keeps)
  fix t d assume ok: "server_ok d"
  show "server_ok (d\<lparr>invites := tbl_keep (\<lambda>_ r. \<not> (invite_created_at r < t - 86400)) (invites d)\<rparr>)"
    using server_okD [OF ok]
    by (intro server_ok_auth(1) ok) (auto simp: auth_ok_def checks_ok_def tbl_wf_keep keep_None tbl_get_keep split: option.splits if_splits)
next
  fix t d e d' assume ok: "server_ok d" and ins: "insert_invite v (sha invite) p n t d = Inr (e, d')"
  show "server_ok d'"
    using server_okD [OF ok] ins
    by (auto simp: insert_invite_def auth_ok_def checks_ok_def sql.wf_put sql.get_put intro!: server_ok_auth(2) ok split: if_splits)
qed

lemma server_ok_redeem: "keeps server_ok (redeem_commit i v p hash n)"
proof (rule redeem_keeps)
  fix t d assume ok: "server_ok d"
  show "server_ok (snd (mark_used i t d))"
    using server_okD [OF ok] ok
    by (auto simp: mark_used_def auth_ok_def checks_ok_def sql.wf_put sql.get_put intro!: server_ok_auth(1) split: option.splits)
next
  fix t d d' assume ok: "server_ok d" and ins: "insert_device_key v p hash n t d = Inr ((), d')"
  show "server_ok d'"
    using server_okD [OF ok] ins
    by (auto simp: insert_device_key_def checks_ok_def sql.wf_put sql.get_put intro!: server_ok_auth(3) ok split: if_splits)
qed

lemma server_ok_retire: "keeps server_ok (retire_commit v p)"
proof (rule retire_keeps)
  fix t d assume ok: "server_ok d"
  show "server_ok (d\<lparr>device_keys := (case tbl_get (device_keys d) (v, p) of
       None \<Rightarrow> device_keys d | Some r \<Rightarrow> tbl_put (v, p) (r\<lparr>revoked_at := Some t\<rparr>) (device_keys d))\<rparr>)"
    using server_okD [OF ok] ok
    by (auto simp: checks_ok_def sql.wf_put sql.get_put intro!: server_ok_auth(3) split: option.splits)
next
  fix d assume "server_ok d"
  then show "server_ok (d\<lparr>peers := tbl_del (v, p) (peers d)\<rparr>)"
    by (intro server_ok_intros)
qed

end
