(* ===== verification/Access.thy ===== *)
theory Access
  imports Router Http_Facts
begin

text \<open>
  Who may do what over HTTP: without a credential a request changes nothing and learns nothing, and a
  request with the token of one vault leaves the other vaults alone.
\<close>

section \<open>Requests without a credential\<close>

lemma vault_auth_error: "vault_auth J st secs hdrs = Inl err \<Longrightarrow> status (into_response err) = 401"
  by (auto simp: vault_auth_def jwt_verify_def bind_result_def map_err_def json_response_def
      split: option.splits sum.splits)

lemma on_db_lift [simp]: "on_db (lift r) w = (r, w)"
  by (simp add: on_db_def)

text \<open>The handlers that start with the bearer token of a vault.\<close>

lemmas token_handlers = rejected_after_auth_def vault_stats_handler_def vault_peers_handler_def create_upload_def
  put_upload_def get_upload_def get_blob_def post_blob_path_def list_blob_paths_def create_def

lemmas act_defs = plain_def stored_def bind_act_def attempt_def done_with_def json_answer_def answer_def

definition refused_reply :: "served \<times> broadcast_event option \<Rightarrow> bool" where
  "refused_reply out \<longleftrightarrow> (case out of (Reply (JsonReply r), None) \<Rightarrow> 400 \<le> status r \<and> status r < 500 | _ \<Rightarrow> False)"

lemma refused_json: "refused_reply (json_answer (Inr r)) \<longleftrightarrow> 400 \<le> status r \<and> status r < 500"
  by (simp add: refused_reply_def json_answer_def answer_def)

lemma refused_silent: "refused_reply out \<Longrightarrow> snd out = None"
  by (auto simp: refused_reply_def split: prod.splits served.splits reply.splits option.splits)

text \<open>The endpoints that hand out or redeem credentials check a secret of their own.\<close>

definition login_endpoint :: "endpoint \<Rightarrow> bool" where
  "login_endpoint e \<longleftrightarrow> e \<in> {Auth_Verify, Auth_Device, Invite_Redeem}"

definition public_endpoint :: "endpoint \<Rightarrow> bool" where
  "public_endpoint e \<longleftrightarrow> e \<in> {Health, Ws_Upgrade}"

text \<open>An extractor rejects a request as the client's error.\<close>

definition client_error :: "payload \<Rightarrow> bool" where
  "client_error p \<longleftrightarrow> (case p of Rejected_Payload s _ \<Rightarrow> 400 \<le> s \<and> s < 500 | _ \<Rightarrow> True)"

lemma handle_refuses:
  assumes "vault_auth (env_jwt E) (env_config E) secs (http_headers rq) = Inl err"
    and "\<not> admin_ok (env_config E) (http_headers rq)" and "\<not> login_endpoint e"
    and "client_error (http_payload rq)"
  shows "\<exists>out. handle E secs gc gw D rq reg e w = (Inr out, w) \<and> (public_endpoint e \<or> refused_reply out)"
proof -
  have err: "status (into_response err) = 401"
    using assms(1) by (rule vault_auth_error)
  show ?thesis
    using assms err
    by (cases e)
      (auto simp: handle_def Let_def login_endpoint_def public_endpoint_def act_defs token_handlers refused_reply_def
        and_then_def on_db_def debug_connections_def retire_peer_handler_def rejection_def json_response_def client_error_def
        split: payload.splits upgrade.splits)
qed

lemma onboarding_refuses:
  assumes "vault_auth (env_jwt E) (env_config E) secs (http_headers rq) = Inl err" and "\<not> login_endpoint e"
    and "onboarding E secs gc D rq e = Some handler"
  shows "\<exists>r. rate_limit (env_config E) ip hdrs secs handler win c = (r, snd (check_auth_rate_limit (env_config E) ip hdrs secs win), c) \<and>
    refused_reply (json_answer r)"
proof -
  have err: "status (into_response err) = 401"
    using assms(1) by (rule vault_auth_error)
  have handler: "handler c = (Inl err, c)" for c
    using assms by (cases e) (auto simp: onboarding_def login_endpoint_def rejected_after_auth_def create_def and_then_def
        split: payload.splits)
  obtain ok win' where check: "check win (rate_key (trust_proxy (env_config E)) hdrs ip) secs = (ok, win')"
    by (metis prod.exhaust)
  then show ?thesis
    using handler err
    by (cases ok) (auto simp: rate_limit_def check_auth_rate_limit_def refused_reply_def json_answer_def answer_def json_response_def)
qed

text \<open>
  C12: nothing happens without a credential.  A request without a valid token of a vault or the admin
  token, to any path and method but the three that log a device in, leaves the database, the files and
  the channel of events alone, and is answered with a client error; only the health report and the
  upgrade to a WebSocket, which asks for the token in its first frame, answer otherwise.
\<close>

theorem nothing_without_a_credential:
  assumes "vault_auth (env_jwt E) (env_config E) secs (http_headers rq) = Inl err"
    and "\<not> admin_ok (env_config E) (http_headers rq)"
    and "client_error (http_payload rq)"
  shows "case serve E secs gc gw D rq reg win w of (out, win', w') \<Rightarrow>
    case route (http_method rq) (http_path rq) of
      Routed e \<Rightarrow> if login_endpoint e then True
        else w' = w \<and> snd out = None \<and> (if public_endpoint e then True else refused_reply out)
    | _ \<Rightarrow> w' = w \<and> win' = win \<and> refused_reply out"
proof (cases "route (http_method rq) (http_path rq)")
  case (Routed e)
  show ?thesis
  proof (cases "login_endpoint e \<or> onboarding E secs gc D rq e \<noteq> None")
    case True
    then show ?thesis
      using Routed onboarding_refuses [OF assms(1), of e gc D _ "http_ip rq" "http_headers rq" win "db_conn w"]
      by (auto simp: serve_def login_endpoint_def json_answer_def split_beta Let_def)
  next
    case False
    then obtain out where "handle E secs gc gw D rq reg e w = (Inr out, w)" "public_endpoint e \<or> refused_reply out"
      using handle_refuses [OF assms(1,2) _ assms(3)] by blast
    moreover have "snd out = None" if "public_endpoint e"
      using that \<open>handle E secs gc gw D rq reg e w = (Inr out, w)\<close>
      by (auto simp: public_endpoint_def handle_def Let_def done_with_def json_answer_def split: upgrade.splits)
    ultimately show ?thesis
      using Routed False by (auto simp: serve_def login_endpoint_def dest: refused_silent split: option.splits)
  qed
qed (auto simp: serve_def refused_json json_response_def)

end
