(* ===== verification/Server.thy ===== *)
theory Server
  imports Schema Access
begin

text \<open>
  The whole server: requests, frames of WebSocket sessions, the hourly task and the command line, in any
  order, each request interrupted in its gaps by further such runs.
\<close>

section \<open>Every computation keeps the database well-formed\<close>

lemma keeps_unlocked: "(\<And>c. P (tables c) \<Longrightarrow> P (tables (g c))) \<Longrightarrow> keeps P (unlocked g)"
  by (simp add: keeps_def unlocked_def)

lemma server_ok_login:
  assumes "\<And>i c. server_ok (tables c) \<Longrightarrow> server_ok (tables (g i c))"
  shows "keeps server_ok (auth_verify_body A salt J st secs g req)"
proof -
  have create: "keeps server_ok (create_vault A salt v key)" for v key
    unfolding create_vault_def
    by (intro keeps_and_then keeps_lift keeps_stmt) (auto simp: server_ok_wf sql.wf_put intro!: server_ok_tables split: option.splits)
  have upgrade: "keeps server_ok (exec (\<lambda>_ d. d\<lparr>vaults := (case tbl_get (vaults d) v of None \<Rightarrow> vaults d
      | Some r \<Rightarrow> tbl_put v (r\<lparr>api_key := h\<rparr>) (vaults d))\<rparr>))" for v h
    by (rule keeps_exec) (auto simp: server_ok_wf sql.wf_put intro!: server_ok_tables split: option.splits)
  have verify: "keeps server_ok (verify_vault A salt (g i) v key)" for i v key
    unfolding verify_vault_def by (intro keeps_intros keeps_unlocked upgrade assms)
  have exists: "keeps server_ok (vault_exists v)" for v
    unfolding vault_exists_def by (rule keeps_query)
  show ?thesis
    unfolding auth_verify_body_def Let_def
    by (cases req; simp only: sum.case) (intro keeps_intros keeps_unlocked create verify exists assms)+
qed

lemma server_ok_onboarding:
  assumes "\<And>c. server_ok (tables c) \<Longrightarrow> server_ok (tables (g 0 c))"
    and "onboarding E secs g D rq e = Some handler"
  shows "keeps server_ok handler"
proof -
  have create: "keeps server_ok (create sha inv J st secs hdrs b)" for sha inv J st secs hdrs b
    unfolding create_def by (intro keeps_intros server_ok_mint)
  have redeem: "keeps server_ok (redeem sha k A salt J st secs (g 0) b)" for sha k A salt J st secs b
    unfolding redeem_def find_invite_def by (intro keeps_intros keeps_unlocked server_ok_redeem assms(1))
  have device: "keeps server_ok (device_auth A J st secs (g 0) b)" for A J st secs b
    unfolding device_auth_def ensure_not_revoked_def by (intro keeps_intros keeps_unlocked assms(1))
  show ?thesis
    using assms(2)
    by (cases e) (auto simp: onboarding_def rejected_after_auth_def intro!: create redeem device keeps_intros split: payload.splits)
qed

lemma server_ok_retire_handler:
  assumes "\<And>i c. server_ok (tables c) \<Longrightarrow> server_ok (tables (g i c))"
  shows "keeps server_ok (retire_peer_handler st g p q hdrs)"
  unfolding retire_peer_handler_def get_peer_def count_peer_blocked_tombstones_def
  by (intro keeps_intros keeps_unlocked server_ok_retire assms)

text \<open>The world's part of the invariant.\<close>

abbreviation world_ok :: "world \<Rightarrow> bool" where
  "world_ok \<equiv> area server_ok (\<lambda>_. True)"

lemma holds_handle:
  assumes gc: "\<And>i c. server_ok (tables c) \<Longrightarrow> server_ok (tables (gc i c))"
    and gw: "\<And>i w. world_ok w \<Longrightarrow> world_ok (gw i w)"
  shows "holds world_ok (handle E secs gc gw D rq reg e)"
proof -
  have "holds world_ok (handle E secs gc gw D rq reg e)"
    if "\<And>v'. vault_auth (env_jwt E) (env_config E) secs (http_headers rq) = Inr v' \<Longrightarrow> v' = v" for v
    by (rule schema.inside_handle [OF gw that TrueI server_ok_retire_handler [OF gc]])
  then show ?thesis
    by (cases "vault_auth (env_jwt E) (env_config E) secs (http_headers rq)") auto
qed

text \<open>Frames leave the tables of the other components alone.\<close>

definition other_tables :: "db \<Rightarrow> db" where
  "other_tables d = d\<lparr>documents := [], tombstones := [], vault_incarnation := []\<rparr>"

definition counters_ok :: "db \<Rightarrow> bool" where
  "counters_ok d \<longleftrightarrow> (\<forall>v n. tbl_get (vault_incarnation d) v = Some n \<longrightarrow> 2 \<le> n)"

lemma keeps_lane:
  assumes docs: "\<And>d ts. P d \<Longrightarrow> P (d\<lparr>documents := ts\<rparr>)" and tombs: "\<And>d ts. P d \<Longrightarrow> P (d\<lparr>tombstones := ts\<rparr>)"
    and bump: "\<And>v d n d'. P d \<Longrightarrow> bump_incarnation v d = Inr (n, d') \<Longrightarrow> P d'"
  shows "keeps P (dispatch L v k m)"
proof -
  have alloc: "keeps P (allocate_incarnation v)" for v
    unfolding allocate_incarnation_def using bump by (intro keeps_and_then keeps_stmt keeps_ok) blast
  have stores: "keeps P (store_snapshot_with_vv v u s vv)" "keeps P (store_snapshot_replacing_tombstone v u s vv)" for v u s vv
    unfolding store_snapshot_with_vv_def store_snapshot_replacing_tombstone_def
    by (intro keeps_transaction keeps_intros keeps_exec docs tombs alloc; assumption)+
  have delete: "keeps P (delete_doc_guarded L v u p x)" for v u p x
  proof -
    have "keeps P (stmt (\<lambda>_ d. case tbl_get (tombstones d) k of None \<Rightarrow> Inl e | Some r \<Rightarrow> Inr (content_hash r, d)))" for k e
      by (rule keeps_stmt) (auto split: option.splits)
    then show ?thesis
      unfolding delete_doc_guarded_def Let_def
      by (intro keeps_transaction keeps_intros keeps_exec docs tombs; assumption?)
  qed
  have outcome: "keeps P (case x of Rejected _ \<Rightarrow> ok a | Deleted h i \<Rightarrow> ok (b h) | IdempotentNoLive h \<Rightarrow> ok (b h))" for x a b
    by (cases x) (auto intro: keeps_ok)
  have handlers: "keeps P (handle_sync_push L v u delta p k)" "keeps P (handle_doc_create L v u snap p k replace)"
      "keeps P (handle_doc_delete L v k u p x i rid)" "keeps P (handle_sync_start L v u cvv)" "keeps P (handle_doc_list L v)"
    for u delta p snap replace x i rid cvv
    unfolding handle_sync_push_def handle_doc_create_def handle_doc_delete_def handle_sync_start_def handle_doc_list_def
      get_snapshot_with_vv_def get_snapshot_with_incarnation_def is_tombstoned_def list_docs_with_vv_def list_tombstones_def list_tombstones_with_hash_def Let_def
    by (intro keeps_intros stores delete outcome)+
  show ?thesis
    by (cases m) (simp_all add: handlers keeps_ok keeps_lift)
qed

lemma frame_keeps:
  "counters_ok (tables c) \<Longrightarrow> counters_ok (tables (snd (process_message L from_slice data v k c))) \<and>
    other_tables (tables (snd (process_message L from_slice data v k c))) = other_tables (tables c)"
proof -
  assume ok: "counters_ok (tables c)"
  let ?P = "\<lambda>d. counters_ok d \<and> other_tables d = other_tables (tables c)"
  have "keeps ?P (dispatch L v k m)" for m
  proof (rule keeps_lane)
    fix w d n d' assume "counters_ok d \<and> other_tables d = other_tables (tables c)" "bump_incarnation w d = Inr (n, d')"
    then show "counters_ok d' \<and> other_tables d' = other_tables (tables c)"
      by (auto simp: counters_ok_def other_tables_def bump_incarnation_def sql.get_put split: option.splits if_splits) fastforce
  qed (simp_all add: counters_ok_def other_tables_def)
  then have "keeps ?P (process_inner L v k m)" for m
    unfolding process_inner_def by (intro keeps_intros)
  then show ?thesis
    using ok by (auto simp: process_message_run Let_def keeps_def split: sum.splits)
qed

lemma server_ok_doc_tables:
  assumes "server_ok d" and "other_tables d' = other_tables d" and "doc_ok d'" and "counters_ok d'"
  shows "server_ok d'"
  using assms by (cases d; cases d')
    (simp add: server_ok_def other_tables_def db_wf_def checks_ok_def auth_ok_def seqs_ok_def counters_ok_def doc_ok_def)

lemma server_ok_frame:
  assumes "server_ok (tables c)"
  shows "server_ok (tables (snd (process_message L from_slice data v k c)))"
proof -
  have "server_step L from_slice c (Frame v (from_slice data)) (snd (process_message L from_slice data v k c))"
    by (rule server_step.frame [OF prod.collapse [symmetric]])
  then have "doc_ok (tables (snd (process_message L from_slice data v k c)))"
    using assms by (auto simp: server_ok_def intro: server_doc_ok)
  moreover have "counters_ok (tables c)"
    using assms by (simp add: server_ok_def db_wf_def counters_ok_def)
  ultimately show ?thesis
    using assms frame_keeps server_ok_doc_tables by blast
qed

section \<open>Runs\<close>

lemma server_ok_peers:
  "keeps server_ok (upsert_peer v p name)" "keeps server_ok (expire_stale_peers days)" "keeps server_ok (delete_peer v p)"
  unfolding upsert_peer_def expire_stale_peers_def delete_peer_def Let_def
  by (rule keeps_exec keeps_stmt; auto intro!: server_ok_tables sql.wf_put sql.wf_del tbl_wf_keep simp: server_ok_wf)+

lemma server_ok_expire: "keeps server_ok (expire_tombstones days)"
  unfolding keeps_def
proof (intro allI impI)
  fix c :: conn assume ok: "server_ok (tables c)"
  have "server_step toy_libs (\<lambda>_. Inl []) c Retention (snd (expire_tombstones days c))"
    by (rule server_step.retention [OF prod.collapse [symmetric]])
  then have "doc_ok (tables (snd (expire_tombstones days c)))"
    using ok by (auto simp: server_ok_def intro: server_doc_ok)
  moreover have "keeps (\<lambda>d. counters_ok d \<and> other_tables d = other_tables (tables c)) (expire_tombstones days)"
    unfolding expire_tombstones_def Let_def by (rule keeps_stmt) (auto simp: counters_ok_def other_tables_def)
  then have "counters_ok (tables (snd (expire_tombstones days c))) \<and> other_tables (tables (snd (expire_tombstones days c))) = other_tables (tables c)"
    using ok by (auto simp: keeps_def server_ok_def db_wf_def counters_ok_def)
  ultimately show "server_ok (tables (snd (expire_tombstones days c)))"
    using ok server_ok_doc_tables by blast
qed

lemma holds_sweep: "holds world_ok sweep_expired_uploads"
proof -
  have "holds world_ok (sweep_loop rows n)" for rows n
    by (induction rows n rule: sweep_loop.induct) (auto intro!: holds_intros schema.inside_discard)
  then show ?thesis
    unfolding sweep_expired_uploads_def by (intro holds_intros)
qed

text \<open>A command of the operator.\<close>

definition command_ok :: "(conn \<Rightarrow> outcome \<times> conn) \<Rightarrow> bool" where
  "command_ok f \<longleftrightarrow> (\<forall>c. server_ok (tables c) \<longrightarrow> server_ok (tables (snd (f c))))"

lemma command_rules:
  "command_ok (finish r)"
  "keeps server_ok m \<Longrightarrow> (\<And>x. command_ok (k x)) \<Longrightarrow> command_ok (or_fail m k)"
  "command_ok f \<Longrightarrow> command_ok f' \<Longrightarrow> command_ok (if b then f else f')"
  "command_ok f \<Longrightarrow> (\<And>y. command_ok (h y)) \<Longrightarrow> command_ok (case opt of None \<Rightarrow> f | Some y \<Rightarrow> h y)"
  "command_ok f \<Longrightarrow> (\<And>y ys. command_ok (h' y ys)) \<Longrightarrow> command_ok (case l of [] \<Rightarrow> f | y # ys \<Rightarrow> h' y ys)"
  "(\<And>a b. command_ok (h'' a b)) \<Longrightarrow> command_ok (case z of (a, b) \<Rightarrow> h'' a b)"
  by (auto simp: command_ok_def finish_def or_fail_def keeps_def split: prod.splits sum.splits option.splits list.splits)

lemma server_ok_cli: "command_ok (run X fallback args)"
proof -
  have statements: "keeps server_ok (vault_exists v)" "keeps server_ok (create_vault A salt v key)" "keeps server_ok list_vaults"
      "keeps server_ok (set_vault_quota v q)" "keeps server_ok (get_vault_quota v)" for v A salt key q
    unfolding vault_exists_def create_vault_def list_vaults_def set_vault_quota_def get_vault_quota_def
    by (intro keeps_query keeps_and_then keeps_lift keeps_stmt;
        auto simp: server_ok_wf sql.wf_put intro!: server_ok_tables split: option.splits)+
  show ?thesis
    unfolding run_def vault_create_def vault_list_def vault_quota_def invite_mint_def Let_def
    by (intro command_rules statements server_ok_mint)
qed

text \<open>
  What may happen to the world.  In the gaps of a request, and of the hourly task, anything of this may
  happen again; the handlers that use the database only see the connection part of it.
\<close>

inductive server_run :: "'doc libs \<Rightarrow> (bytes \<Rightarrow> string + client_msg) \<Rightarrow> world \<Rightarrow> world \<Rightarrow> bool"
  for L :: "'doc libs" and from_slice where
  idle: "server_run L from_slice w w"
| seq: "server_run L from_slice w w' \<Longrightarrow> server_run L from_slice w' w'' \<Longrightarrow> server_run L from_slice w w''"
| request: "(\<And>i w. server_run L from_slice w (gw i w)) \<Longrightarrow>
    (\<And>i c. \<exists>w w'. server_run L from_slice w w' \<and> db_conn w = c \<and> db_conn w' = gc i c) \<Longrightarrow>
    server_run L from_slice w (snd (snd (serve E secs gc gw D rq reg win w)))"
| frame: "server_run L from_slice w (w\<lparr>db_conn := snd (process_message L from_slice data v k (db_conn w))\<rparr>)"
| joined: "server_run L from_slice w (w\<lparr>db_conn := remember_peer v p name (db_conn w)\<rparr>)"
| tick: "(\<And>i w. server_run L from_slice w (g i w)) \<Longrightarrow> server_run L from_slice w (snd (hourly_tick s g w))"
| started: "server_run L from_slice w (snd (startup w))"
| command: "server_run L from_slice w (w\<lparr>db_conn := snd (run X fallback args (db_conn w))\<rparr>)"
| outside: "tables (db_conn w') = tables (db_conn w) \<Longrightarrow> files w' = files w \<Longrightarrow> server_run L from_slice w w'"

lemma serve_ok:
  assumes gc: "\<And>i c. server_ok (tables c) \<Longrightarrow> server_ok (tables (gc i c))"
    and gw: "\<And>i w. world_ok w \<Longrightarrow> world_ok (gw i w)" and ok: "world_ok w"
  shows "world_ok (snd (snd (serve E secs gc gw D rq reg win w)))"
proof (rule serve_area [OF _ _ holds_handle [OF gc gw] ok])
  show "keeps server_ok (auth_verify_body A salt J st secs gc req)" for A salt J st secs req
    by (rule server_ok_login [OF gc])
  show "keeps server_ok handler" if "onboarding E secs gc D rq e = Some handler" for e handler
    by (rule server_ok_onboarding [OF gc that])
qed

lemma server_run_ok: "server_run L from_slice w w' \<Longrightarrow> world_ok w \<Longrightarrow> world_ok w'"
proof (induction rule: server_run.induct)
  case (request gw gc w)
  have "server_ok (tables (gc i c))" if "server_ok (tables c)" for i c
    using request.IH(2) [where i = i and c = c] that by (auto simp: area_def)
  then show ?case
    using request.IH(1) request.prems by (intro serve_ok) blast+
next
  case (frame w data v k)
  then show ?case by (simp add: area_def server_ok_frame)
next
  case (joined w v p name)
  then show ?case
    using server_ok_peers(1) [of v p name] by (simp add: area_def remember_peer_def keeps_def)
next
  case (tick g w s)
  have "holds world_ok (hourly_tick s g)"
    unfolding hourly_tick_def using tick.IH by (intro holds_intros holds_db holds_gap server_ok_expire server_ok_peers holds_sweep) blast+
  then show ?case using tick.prems by (rule holdsD)
next
  case (started w)
  have "holds world_ok startup"
    unfolding startup_def by (intro holds_intros holds_sweep)
  then show ?case using started by (rule holdsD)
next
  case (command w X fallback args)
  then show ?case
    using server_ok_cli [of X fallback args] by (simp add: area_def command_ok_def)
qed (auto simp: area_def)

interpretation whole: transition_invariant "\<lambda>w. tables (db_conn w) = empty_db" "server_run L from_slice" world_ok
  for L :: "'doc libs" and from_slice
  by unfold_locales (simp add: area_def server_ok_empty, rule server_run_ok)

section \<open>The types of the database\<close>

text \<open>
  C3: the database stays what its schema says.  Whatever a server started on an empty database goes
  through, requests to every route with anything in their gaps, frames, sessions, the hourly task, the
  command line and failures of every kind, its primary keys stay unique and its \<open>CHECK\<close>s hold, no path is
  both live and deleted, every incarnation token is below the counter of its vault, invite ids are
  below their counter, and the sequence numbers of paths are unique and below theirs.
\<close>

theorem database_stays_well_typed:
  assumes "tables (db_conn w) = empty_db" and "server_run L from_slice w w'"
  shows "server_ok (tables (db_conn w'))"
proof -
  have "world_ok w"
    using assms(1) by (simp add: area_def server_ok_empty)
  then show ?thesis
    using server_run_ok [OF assms(2)] by (simp add: area_def)
qed

end
