(* ===== verification/Vault_Walls.thy ===== *)
theory Vault_Walls
  imports Serving Access
begin

text \<open>
  A request with the token of one vault leaves the other vaults alone: what the server holds of them in
  every table, and their files.
\<close>

text \<open>What the tables hold of a vault.  Old invites are cleared for all vaults at once, so they are not in it.\<close>

definition vault_view where
  "vault_view u d = (tbl_get (vaults d) u, slice_of u d, \<lambda>p. tbl_get (peers d) (u, p), \<lambda>p. tbl_get (device_keys d) (u, p),
     \<lambda>h. tbl_get (blobs d) (u, h), \<lambda>p. tbl_get (blob_path_states d) (u, p),
     \<lambda>k. case tbl_get (blob_uploads d) k of Some r \<Rightarrow> if upload_vault_id r = u then Some r else None | None \<Rightarrow> None)"

text \<open>The files of a vault: its blobs, and the temporary files of its uploads.\<close>

definition vault_file :: "(string \<Rightarrow> string) \<Rightarrow> string \<Rightarrow> string list \<Rightarrow> bool" where
  "vault_file owner u p \<longleftrightarrow> (\<exists>h. p = blob_file_path u h) \<or> (\<exists>k. owner k = u \<and> p = tmp_file_path k)"

text \<open>\<open>owner\<close> is the vault an upload id was issued for.\<close>

definition walled where
  "walled owner u X d \<longleftrightarrow> vault_view u d = X \<and> tbl_wf (blob_uploads d) \<and>
     (\<forall>k r. tbl_get (blob_uploads d) k = Some r \<longrightarrow> owner k = upload_vault_id r)"

definition shelved :: "(string \<Rightarrow> string) \<Rightarrow> string \<Rightarrow> (string list \<Rightarrow> bytes option) \<Rightarrow> (string list, bytes) table \<Rightarrow> bool" where
  "shelved owner u Y fs \<longleftrightarrow> (\<forall>p. vault_file owner u p \<longrightarrow> tbl_get fs p = Y p)"

lemma walled_updates:
  "walled owner u X (d\<lparr>invites := is\<rparr>) = walled owner u X d" "walled owner u X (d\<lparr>invites_seq := n\<rparr>) = walled owner u X d"
  "walled owner u X (d\<lparr>blob_seq := n\<rparr>) = walled owner u X d"
  by (simp_all add: walled_def vault_view_def slice_of_def)

lemma walled_upload:
  assumes "walled owner u X d" and "upload_vault_id r = owner k" and "owner k \<noteq> u"
  shows "walled owner u X (d\<lparr>blob_uploads := tbl_put k r (blob_uploads d)\<rparr>)"
  using assms by (auto simp: walled_def vault_view_def slice_of_def sql.get_put sql.wf_put fun_eq_iff split: option.splits)

lemma walled_owner: "walled owner u X d \<Longrightarrow> tbl_get (blob_uploads d) k = Some r \<Longrightarrow> upload_vault_id r = owner k"
  by (simp add: walled_def)

lemma walled_frame:
  assumes "u \<noteq> v"
  shows "blob_frame v (\<lambda>k. owner k = v) (walled owner u X) (shelved owner u Y)"
proof
  show "walled owner u X d \<Longrightarrow> tbl_get (blob_uploads d) k = Some r \<Longrightarrow> upload_vault_id r = v \<Longrightarrow> owner k = v" for d k r
    by (simp add: walled_def)
  show "keeps (walled owner u X) (insert_upload v k hash n)" if "owner k = v" for k hash n
    unfolding insert_upload_def using that assms by (intro keeps_stmt) (auto intro!: walled_upload split: if_splits)
  show "keeps (walled owner u X) (delete_upload_row v k)" if "owner k = v" for k
    unfolding delete_upload_row_def using assms
    by (intro keeps_exec) (auto simp: walled_def vault_view_def slice_of_def tbl_wf_keep tbl_get_keep fun_eq_iff split: option.splits if_splits)
  show "keeps (walled owner u X) (record_progress v k m)" for k m
    unfolding record_progress_def using assms
    by (intro keeps_exec) (auto intro!: walled_upload dest: walled_owner split: option.splits)
  show "keeps (walled owner u X) (insert_blob v hash n)" for hash n
    unfolding insert_blob_def using assms
    by (intro keeps_stmt) (auto simp: walled_def vault_view_def slice_of_def sql.get_put split: option.splits)
  show "keeps (walled owner u X) (store_path v b)" for b
    unfolding store_path_def next_seq_def using assms
    by (intro keeps_transaction keeps_and_then keeps_stmt keeps_exec keeps_ok)
      (auto simp: walled_def vault_view_def slice_of_def sql.get_put split: if_splits)
  have "tmp_file_path k \<noteq> p" if "owner k = v" "vault_file owner u p" for k p
    using that assms by (auto simp: vault_file_def tmp_file_path_def blob_file_path_def)
  then show "owner k = v \<Longrightarrow> shelved owner u Y fs \<Longrightarrow> shelved owner u Y (tbl_put (tmp_file_path k) bs fs)"
    and "owner k = v \<Longrightarrow> shelved owner u Y fs \<Longrightarrow> shelved owner u Y (tbl_del (tmp_file_path k) fs)" for k bs fs
    by (auto simp: shelved_def sql.get_put sql.get_del)
  have "blob_file_path v h \<noteq> p" if "vault_file owner u p" for h p
    using that assms by (auto simp: vault_file_def tmp_file_path_def blob_file_path_def)
  then show "shelved owner u Y fs \<Longrightarrow> shelved owner u Y (tbl_put (blob_file_path v h) bs fs)"
    and "shelved owner u Y fs \<Longrightarrow> shelved owner u Y (tbl_del (blob_file_path v h) fs)" for h bs fs
    by (auto simp: shelved_def sql.get_put sql.get_del)
qed

lemma walled_invite: "keeps (walled owner u X) (create sha tok J st secs hdrs b)"
proof -
  have "keeps (walled owner u X) (mint_invite sha tok v p n)" for v p n
    by (rule mint_keeps) (auto simp: walled_updates insert_invite_def split: if_splits)
  then show ?thesis
    unfolding create_def by (intro keeps_intros)
qed


end
