(* ===== verification/Server_Witnesses.thy ===== *)
theory Server_Witnesses
  imports Server Vault_Walls Http_Witnesses Doc_Witnesses
begin

text \<open>Requests to a server with the stand-ins of \<open>Invite_Witnesses\<close>: without a token, and with one.\<close>

definition toy_env :: server_env where
  "toy_env = \<lparr>env_argon = toy_argon, env_jwt = toy_jwt, env_sha = (\<lambda>x. x), env_blake3 = (\<lambda>_. []), env_svg = Inr,
     env_config = toy_config, env_version = ''1''\<rparr>"

definition toy_draws :: draws where
  "toy_draws = \<lparr>draw_salt = [], draw_invite = ''t'', draw_device_key = ''k'', draw_upload_id = ''u1''\<rparr>"

definition get_request :: "string list \<Rightarrow> string option \<Rightarrow> http_request" where
  "get_request p token = \<lparr>http_method = GET, http_path = p,
     http_headers = (\<lambda>h. if h = ''authorization'' then map_option (\<lambda>t. ''Bearer '' @ t) token else None),
     http_query = (\<lambda>_. None), http_ip = ''ip'', http_payload = No_Payload\<rparr>"

definition fresh_world :: world where
  "fresh_world = \<lparr>db_conn = fresh_conn, files = [], io_faults = []\<rparr>"

definition peers_request :: http_request where
  "peers_request = get_request [''vault'', ''peers''] None"

definition peers_request_of_v :: http_request where
  "peers_request_of_v = get_request [''vault'', ''peers''] (Some ''s3cret:v'')"

abbreviation no_gaps :: "nat \<Rightarrow> 'z \<Rightarrow> 'z" where "no_gaps \<equiv> \<lambda>_ x. x"

lemma routed_peers: "route GET [''vault'', ''peers''] = Routed Vault_Peers"
  by code_simp

lemma auth_of_requests:
  "vault_auth toy_jwt toy_config 5 (http_headers peers_request) = Inl (Auth ''Missing or invalid Authorization header'')"
  "\<not> admin_ok toy_config (http_headers peers_request)"
  "vault_auth toy_jwt toy_config 5 (http_headers peers_request_of_v) = Inr ''v''"
  "\<not> admin_ok toy_config (http_headers peers_request_of_v)"
  by code_simp+

section \<open>Witnesses\<close>

theorem nothing_without_a_credential_witness:
  "refused_reply (fst (serve toy_env 5 no_gaps no_gaps toy_draws peers_request \<lparr>conn_counter = 0, connections = []\<rparr> [] fresh_world))"
proof -
  have "vault_auth (env_jwt toy_env) (env_config toy_env) 5 (http_headers peers_request) = Inl (Auth ''Missing or invalid Authorization header'')"
    "\<not> admin_ok (env_config toy_env) (http_headers peers_request)" "client_error (http_payload peers_request)"
    using auth_of_requests by (simp_all add: toy_env_def client_error_def peers_request_def get_request_def)
  from nothing_without_a_credential [OF this, where gc = no_gaps and gw = no_gaps and D = toy_draws and reg = "\<lparr>conn_counter = 0, connections = []\<rparr>" and win = "[]" and w = fresh_world] show ?thesis
    by (simp add: peers_request_def get_request_def routed_peers login_endpoint_def public_endpoint_def split_beta)
qed


theorem database_stays_well_typed_witness:
  "server_ok (tables (snd (process_message toy_libs script [0] ''v'' 7 conn0)))"
proof -
  let ?w = "\<lparr>db_conn = conn0, files = [], io_faults = []\<rparr>"
  have "tables (db_conn ?w) = empty_db"
    by (simp add: conn0_def)
  from database_stays_well_typed [OF this server_run.frame [of toy_libs script ?w "[0]" "''v''" 7]] show ?thesis
    by simp
qed

end
