(* ===== verification/Lock_Progress.thy ===== *)
theory Lock_Progress
  imports Doc_Locks
begin

text \<open>
  Handlers do not wait for each other forever.  A handler goes from waiting to holding to leaving, or
  gives up while it waits; with no new handler coming in these steps come to an end, and they end only
  when every handler is gone.
\<close>

section \<open>Steps of the handlers in flight\<close>

inductive working_step :: "doc_locks \<Rightarrow> doc_locks \<Rightarrow> bool" where
  "tbl_get (stages s) t = Some (Waiting key l) \<Longrightarrow> \<not> held s l \<Longrightarrow>
    working_step s (s\<lparr>stages := tbl_put t (Holding key l) (stages s)\<rparr>)"
| "tbl_get (stages s) t = Some (Holding key l) \<Longrightarrow>
    working_step s (s\<lparr>stages := tbl_put t (Leaving key l) (stages s)\<rparr>)"
| "tbl_get (stages s) t = Some (Leaving key l) \<Longrightarrow> working_step s (s\<lparr>stages := tbl_del t (stages s)\<rparr>)"

text \<open>The connection of a waiting handler closes.\<close>

inductive gives_up :: "doc_locks \<Rightarrow> doc_locks \<Rightarrow> bool" where
  "tbl_get (stages s) t = Some (Waiting key l) \<Longrightarrow> gives_up s (s\<lparr>stages := tbl_del t (stages s)\<rparr>)"

definition handler_step :: "doc_locks \<Rightarrow> doc_locks \<Rightarrow> bool" where
  "handler_step s s' \<longleftrightarrow> working_step s s' \<or> gives_up s s'"

text \<open>A step of the locks is the start of a handler or a step of one in flight.\<close>

lemma lock_step_iff:
  "lock_step s s' \<longleftrightarrow> handler_step s s' \<or> (\<exists>t key. tbl_get (stages s) t = None \<and> s' = lock_get t key s)"
proof
  show "handler_step s s' \<or> (\<exists>t key. tbl_get (stages s) t = None \<and> s' = lock_get t key s)" if "lock_step s s'"
    using that
  proof cases
    case (leave t st)
    then show ?thesis
      by (cases st) (auto simp: handler_step_def intro: working_step.intros gives_up.intros)
  qed (auto simp: handler_step_def intro: working_step.intros)
qed (auto simp: handler_step_def elim!: working_step.cases gives_up.cases intro: lock_step.intros)

section \<open>They end\<close>

text \<open>The steps a handler has left at most.\<close>

fun stage_rank :: "stage \<Rightarrow> nat" where
  "stage_rank (Waiting _ _) = 3"
| "stage_rank (Holding _ _) = 2"
| "stage_rank (Leaving _ _) = 1"

definition steps_left :: "doc_locks \<Rightarrow> nat" where
  "steps_left s = sum_list (map (\<lambda>(_, st). stage_rank st) (stages s))"

lemma rank_put: "tbl_get m t = Some st \<Longrightarrow> stage_rank st' < stage_rank st \<Longrightarrow>
    sum_list (map (\<lambda>(_, st). stage_rank st) (tbl_put t st' m)) < sum_list (map (\<lambda>(_, st). stage_rank st) m)"
  by (induction m) (auto simp: tbl_put_def tbl_get_def split: if_splits)

lemma rank_keep: "sum_list (map (\<lambda>(_, st). stage_rank st) (filter P m)) \<le> sum_list (map (\<lambda>(_, st). stage_rank st) m)"
  by (induction m) auto

lemma rank_del: "tbl_get m t = Some st \<Longrightarrow>
    sum_list (map (\<lambda>(_, st). stage_rank st) (tbl_del t m)) < sum_list (map (\<lambda>(_, st). stage_rank st) m)"
proof (induction m)
  case (Cons x m)
  obtain k r where x: "x = (k, r)" by force
  have "0 < stage_rank r"
    by (cases r) simp_all
  then show ?case
    using Cons x rank_keep [of "\<lambda>(k', _). t \<noteq> k'" m]
    by (auto simp: tbl_del_def tbl_get_def AList.delete_eq le_imp_less_Suc trans_less_add2 split: if_splits)
qed simp

lemma step_ranks: "handler_step s s' \<Longrightarrow> steps_left s' < steps_left s"
  by (auto simp: handler_step_def steps_left_def elim!: working_step.cases gives_up.cases
    intro: rank_del rank_put [of _ _ "Waiting k l" "Holding k l" for k l, simplified] rank_put [of _ _ "Holding k l" "Leaving k l" for k l, simplified])

lemma run_ranks: "(handler_step ^^ n) s s' \<Longrightarrow> n + steps_left s' \<le> steps_left s"
proof (induction n arbitrary: s')
  case (Suc n)
  then obtain m where "(handler_step ^^ n) s m" "handler_step m s'"
    by auto
  then show ?case
    using Suc.IH step_ranks [of m s'] by fastforce
qed simp

lemma steps_left_bound: "steps_left s \<le> 3 * length (stages s)"
proof -
  have "sum_list (map (\<lambda>(_, st). stage_rank st) m) \<le> 3 * length m" for m :: "(nat, stage) table"
  proof (induction m)
    case (Cons x m)
    have "stage_rank (snd x) \<le> 3"
      by (cases "snd x") simp_all
    then show ?case
      using Cons by (simp add: split_beta)
  qed simp
  then show ?thesis by (simp add: steps_left_def)
qed

section \<open>They end with every handler gone\<close>

lemma handler_can_work:
  assumes "locks_ok s" and "stages s \<noteq> []"
  shows "\<exists>s'. working_step s s'"
proof -
  have wf: "tbl_wf (stages s)"
    using assms(1) by (simp add: locks_ok_def)
  obtain t st where st: "tbl_get (stages s) t = Some st"
    using assms(2) by (metis list.set_intros(1) neq_Nil_conv surj_pair tbl_get_mem [OF wf])
  show ?thesis
  proof (cases "\<exists>t' key l. tbl_get (stages s) t' = Some (Holding key l)")
    case True
    then show ?thesis
      by (blast intro: working_step.intros)
  next
    case False
    then have "\<not> held s l" for l
      by (simp add: held_iff [OF wf])
    then show ?thesis
      using st False by (cases st) (blast intro: working_step.intros)+
  qed
qed

lemma run_ok: "locks_ok s \<Longrightarrow> (handler_step ^^ n) s s' \<Longrightarrow> locks_ok s'"
  by (induction n arbitrary: s') (auto simp: lock_step_iff intro: locks_ok_step)



end
