(* ===== verification/Sql_File.thy ===== *)
theory Sql_File
  imports Sql
begin

text \<open>
  The database file as SQLite sees it while it is opened, before its schema is known to be the one the
  server is compiled for: tables with columns and rows of values, the indexes, and \<open>user_version\<close>.  Only
  the statements the migrations use are modelled, with the errors SQLite gives for them.
\<close>

section \<open>Values, tables, files\<close>

text \<open>A text written by \<open>datetime('now')\<close> is kept as the time it denotes, as in the rest of the model.\<close>

datatype sql_value = SQL_Null | SQL_Int int | SQL_Text string | SQL_Blob bytes | SQL_Time timestamp

datatype column_type = TEXT | INTEGER | BLOB

datatype column_default = No_Default | Default sql_value | Default_Now

datatype column_check = No_Check | Not_Empty | At_Least int | One_Of "string list"

record column =
  column_name :: string
  column_type :: column_type
  not_null :: bool
  column_default :: column_default
  column_check :: column_check

record sql_table =
  columns :: "column list"
  primary_key :: "string list"
  autoincrement :: int
  table_rows :: "sql_value list list"

record sql_file =
  user_version :: int
  sql_tables :: "(string, sql_table) table"
  sql_indexes :: "string list"

text \<open>A \<open>CHECK\<close> fails only when it is false; on \<open>NULL\<close> it is neither true nor false.\<close>

definition check_holds :: "column_check \<Rightarrow> sql_value \<Rightarrow> bool" where
  "check_holds k v =
     (case k of
        No_Check \<Rightarrow> True
      | Not_Empty \<Rightarrow> (case v of SQL_Text s \<Rightarrow> s \<noteq> [] | SQL_Blob b \<Rightarrow> b \<noteq> [] | _ \<Rightarrow> True)
      | At_Least n \<Rightarrow> (case v of SQL_Int i \<Rightarrow> n \<le> i | _ \<Rightarrow> True)
      | One_Of ss \<Rightarrow> (case v of SQL_Null \<Rightarrow> True | SQL_Text s \<Rightarrow> list_ex (\<lambda>x. x = s) ss | _ \<Rightarrow> False))"

text \<open>The values of the primary key in a row.\<close>

definition key_of :: "sql_table \<Rightarrow> sql_value list \<Rightarrow> sql_value list" where
  "key_of t r = map snd (filter (\<lambda>(c, _). list_ex (\<lambda>k. k = column_name c) (primary_key t)) (zip (columns t) r))"

definition row_fits :: "sql_table \<Rightarrow> sql_value list \<Rightarrow> bool" where
  "row_fits t r \<longleftrightarrow> length r = length (columns t) \<and>
     list_all (\<lambda>(c, v). (not_null c \<longrightarrow> v \<noteq> SQL_Null) \<and> check_holds (column_check c) v) (zip (columns t) r)"

section \<open>Statements\<close>

text \<open>\<open>Insert_Into\<close> gives a value for every column; the rows may come from a query.\<close>

datatype sql_stmt =
    Create_Table (if_not_exists: bool) string "column list" "string list"
  | Add_Column string column
  | Create_Index string string
  | Insert_Into string "sql_file \<Rightarrow> sql_value list list"

fun insert_rows :: "sql_value list list \<Rightarrow> sql_table \<Rightarrow> string + sql_table" where
  "insert_rows [] t = Inr t"
| "insert_rows (r # rs) t =
     (if \<not> row_fits t r then Inl ''constraint failed''
      else if primary_key t \<noteq> [] \<and> list_ex (\<lambda>r'. key_of t r' = key_of t r) (table_rows t) then Inl ''UNIQUE constraint failed''
      else insert_rows rs (t\<lparr>table_rows := table_rows t @ [r]\<rparr>))"

definition add_column :: "column \<Rightarrow> sql_table \<Rightarrow> string + sql_table" where
  "add_column c t =
     (if list_ex (\<lambda>c'. column_name c' = column_name c) (columns t) then Inl ''duplicate column name''
      else case column_default c of
        Default v \<Rightarrow> Inr (t\<lparr>columns := columns t @ [c], table_rows := map (\<lambda>r. r @ [v]) (table_rows t)\<rparr>)
      | No_Default \<Rightarrow>
          if not_null c then Inl ''Cannot add a NOT NULL column with default value NULL''
          else Inr (t\<lparr>columns := columns t @ [c], table_rows := map (\<lambda>r. r @ [SQL_Null]) (table_rows t)\<rparr>)
      | Default_Now \<Rightarrow> Inl ''Cannot add a column with non-constant default'')"

definition in_table :: "string \<Rightarrow> (sql_table \<Rightarrow> string + sql_table) \<Rightarrow> sql_file \<Rightarrow> string + sql_file" where
  "in_table name op f =
     (case tbl_get (sql_tables f) name of
        None \<Rightarrow> Inl ''no such table''
      | Some t \<Rightarrow> bind_result (op t) (\<lambda>t. Inr (f\<lparr>sql_tables := tbl_put name t (sql_tables f)\<rparr>)))"

definition exec_stmt :: "sql_stmt \<Rightarrow> sql_file \<Rightarrow> string + sql_file" where
  "exec_stmt s f =
     (case s of
        Create_Table opt name cols key \<Rightarrow>
          if tbl_get (sql_tables f) name \<noteq> None then (if opt then Inr f else Inl ''table already exists'')
          else Inr (f\<lparr>sql_tables := tbl_put name
            \<lparr>columns = cols, primary_key = key, autoincrement = 0, table_rows = []\<rparr> (sql_tables f)\<rparr>)
      | Add_Column name c \<Rightarrow> in_table name (add_column c) f
      | Create_Index index name \<Rightarrow>
          if list_ex (\<lambda>i. i = index) (sql_indexes f) then Inl ''index already exists''
          else in_table name Inr (f\<lparr>sql_indexes := sql_indexes f @ [index]\<rparr>)
      | Insert_Into name rows \<Rightarrow> in_table name (insert_rows (rows f)) f)"

fun run_batch :: "sql_stmt list \<Rightarrow> sql_file \<Rightarrow> string + sql_file" where
  "run_batch [] f = Inr f"
| "run_batch (s # ss) f = bind_result (exec_stmt s f) (run_batch ss)"

text \<open>The values of one column of a table.\<close>

definition column_values :: "string \<Rightarrow> string \<Rightarrow> sql_file \<Rightarrow> sql_value list" where
  "column_values name c f =
     (case tbl_get (sql_tables f) name of
        None \<Rightarrow> []
      | Some t \<Rightarrow> List.map_filter (\<lambda>r. map_of (map (\<lambda>(c, v). (column_name c, v)) (zip (columns t) r)) c) (table_rows t))"

lemma column_values_at:
  assumes "tbl_get (sql_tables f) name = Some t" and "table_rows t = map g xs"
    and "\<And>x. map_of (map (\<lambda>(c, v). (column_name c, v)) (zip (columns t) (g x))) c = Some (h x)"
  shows "column_values name c f = map h xs"
proof -
  have "List.map_filter (\<lambda>r. map_of (map (\<lambda>(c, v). (column_name c, v)) (zip (columns t) r)) c) (map g xs) = map h xs"
    by (induction xs) (simp_all add: map_filter_simps assms(3))
  then show ?thesis
    by (simp add: column_values_def assms(1,2))
qed

text \<open>Rows with new keys go into a table.\<close>

lemma insert_rows_fresh:
  assumes "list_all (row_fits t) rs" and "distinct (map (key_of t) (table_rows t @ rs))"
  shows "insert_rows rs t = Inr (t\<lparr>table_rows := table_rows t @ rs\<rparr>)"
  using assms
proof (induction rs arbitrary: t)
  case (Cons r rs)
  let ?t = "t\<lparr>table_rows := table_rows t @ [r]\<rparr>"
  have same: "row_fits ?t = row_fits t" "key_of ?t = key_of t"
    by (simp_all add: fun_eq_iff row_fits_def key_of_def)
  have "\<not> list_ex (\<lambda>r'. key_of t r' = key_of t r) (table_rows t)"
    using Cons.prems(2) by (auto simp: list_ex_iff image_iff)
  moreover have "insert_rows rs ?t = Inr (?t\<lparr>table_rows := table_rows ?t @ rs\<rparr>)"
    using Cons.prems by (intro Cons.IH) (simp_all add: same)
  ultimately show ?case
    using Cons.prems(1) by simp
qed simp

end
