(* ===== verification/Migrations.thy ===== *)
theory Migrations
  imports Sql_File
begin

text \<open>
  \<open>migrations/*.sql\<close> and the part of \<open>src/db.rs\<close> that opens the file: \<open>migrations\<close>,
  \<open>adopt_sqlx_migration_state\<close>, \<open>open_db\<close>.  The migration runner (\<open>Migrations::to_latest\<close> of
  \<open>rusqlite_migration\<close>) is a parameter; \<open>migration_runner\<close> states what its documentation says of it.
\<close>

section \<open>The migrations\<close>

abbreviation text_column :: "string \<Rightarrow> column" where
  "text_column n \<equiv> \<lparr>column_name = n, column_type = TEXT, not_null = True, column_default = No_Default, column_check = No_Check\<rparr>"

abbreviation filled_column :: "string \<Rightarrow> column" where
  "filled_column n \<equiv> \<lparr>column_name = n, column_type = TEXT, not_null = True, column_default = No_Default, column_check = Not_Empty\<rparr>"

abbreviation optional_text :: "string \<Rightarrow> column" where
  "optional_text n \<equiv> \<lparr>column_name = n, column_type = TEXT, not_null = False, column_default = No_Default, column_check = No_Check\<rparr>"

abbreviation time_column :: "string \<Rightarrow> column" where
  "time_column n \<equiv> \<lparr>column_name = n, column_type = TEXT, not_null = True, column_default = Default_Now, column_check = No_Check\<rparr>"

abbreviation blob_column :: "string \<Rightarrow> column" where
  "blob_column n \<equiv> \<lparr>column_name = n, column_type = BLOB, not_null = True, column_default = No_Default, column_check = No_Check\<rparr>"

abbreviation integer_column :: "string \<Rightarrow> column_default \<Rightarrow> column" where
  "integer_column n d \<equiv> \<lparr>column_name = n, column_type = INTEGER, not_null = True, column_default = d, column_check = No_Check\<rparr>"

abbreviation optional_integer :: "string \<Rightarrow> column" where
  "optional_integer n \<equiv> \<lparr>column_name = n, column_type = INTEGER, not_null = False, column_default = No_Default, column_check = No_Check\<rparr>"

definition init_sql :: "sql_stmt list" where
  "init_sql = [
     Create_Table True ''vaults'' [optional_text ''vault_id'', text_column ''api_key'', time_column ''created_at''] [''vault_id''],
     Create_Table True ''documents'' [text_column ''vault_id'', text_column ''doc_uuid'', blob_column ''snapshot_blob'',
       blob_column ''vv_blob'', time_column ''updated_at''] [''vault_id'', ''doc_uuid''],
     Create_Table True ''tombstones'' [text_column ''vault_id'', text_column ''doc_uuid'', text_column ''deleted_by'',
       time_column ''deleted_at''] [''vault_id'', ''doc_uuid'']]"

definition peers_sql :: "sql_stmt list" where
  "peers_sql = [
     Create_Table True ''peers'' [text_column ''vault_id'', text_column ''peer_id'',
       (text_column ''device_name'')\<lparr>column_default := Default (SQL_Text [])\<rparr>, time_column ''last_seen_at''] [''vault_id'', ''peer_id'']]"

definition invites_device_keys_sql :: "sql_stmt list" where
  "invites_device_keys_sql = [
     Create_Table True ''invites'' [optional_integer ''id'', filled_column ''vault_id'', filled_column ''token_hash'',
       filled_column ''inviter_peer_id'', optional_text ''device_name'', time_column ''created_at'', filled_column ''expires_at'',
       optional_text ''used_at''] [''id''],
     Create_Table True ''device_keys'' [filled_column ''vault_id'', filled_column ''peer_id'', filled_column ''key_hash'',
       optional_text ''device_name'', time_column ''created_at'', optional_text ''revoked_at''] [''vault_id'', ''peer_id'']]"

definition blob_lane_sql :: "sql_stmt list" where
  "blob_lane_sql = [
     Add_Column ''vaults'' (optional_integer ''quota_bytes''),
     Create_Table False ''blobs'' [text_column ''vault_id'', text_column ''hash'', integer_column ''size'' No_Default,
       time_column ''created_at''] [''vault_id'', ''hash''],
     Create_Table False ''blob_path_states'' [text_column ''vault_id'', text_column ''path_key'', text_column ''display_path'',
       integer_column ''key_version'' (Default (SQL_Int 1)), integer_column ''generation'' No_Default,
       (text_column ''state'')\<lparr>column_check := One_Of [''live'', ''deleted'']\<rparr>, optional_text ''content_hash'',
       optional_integer ''size'', text_column ''peer_id'', time_column ''updated_at'', integer_column ''seq'' No_Default,
       optional_text ''env_json''] [''vault_id'', ''path_key''],
     Create_Index ''idx_blob_path_seq'' ''blob_path_states'',
     Create_Table False ''blob_uploads'' [text_column ''vault_id'', text_column ''upload_id'', text_column ''hash_claimed'',
       integer_column ''size_claimed'' No_Default, integer_column ''received_bytes'' (Default (SQL_Int 0)),
       time_column ''created_at'', time_column ''updated_at''] [''upload_id''],
     Create_Index ''idx_blob_uploads_vault'' ''blob_uploads'',
     Create_Table False ''counters'' [optional_text ''name'', integer_column ''value'' No_Default] [''name''],
     Insert_Into ''counters'' (\<lambda>_. [[SQL_Text ''blob_seq'', SQL_Int 0]])]"

definition tombstone_content_hash_sql :: "sql_stmt list" where
  "tombstone_content_hash_sql = [Add_Column ''tombstones'' (optional_text ''content_hash'')]"

text \<open>The vaults that have a document or a tombstone; \<open>UNION\<close> removes duplicates.\<close>

definition vaults_with_history :: "sql_file \<Rightarrow> sql_value list" where
  "vaults_with_history f = remdups (column_values ''documents'' ''vault_id'' f @ column_values ''tombstones'' ''vault_id'' f)"

definition incarnation_sql :: "sql_stmt list" where
  "incarnation_sql = [
     Add_Column ''documents'' (integer_column ''incarnation'' (Default (SQL_Int 1))),
     Add_Column ''tombstones'' (integer_column ''incarnation'' (Default (SQL_Int 1))),
     Create_Table False ''vault_incarnation'' [optional_text ''vault_id'',
       (integer_column ''next_incarnation'' No_Default)\<lparr>column_check := At_Least 2\<rparr>] [''vault_id''],
     Insert_Into ''vault_incarnation'' (\<lambda>f. map (\<lambda>v. [v, SQL_Int 2]) (vaults_with_history f))]"

definition migrations :: "sql_stmt list list" where
  "migrations = [init_sql, peers_sql, invites_device_keys_sql, blob_lane_sql, tombstone_content_hash_sql, incarnation_sql]"

fun run_migrations :: "sql_stmt list list \<Rightarrow> sql_file \<Rightarrow> string + sql_file" where
  "run_migrations [] f = Inr f"
| "run_migrations (m # ms) f =
     bind_result (run_batch m f) (\<lambda>f. run_migrations ms (f\<lparr>user_version := user_version f + 1\<rparr>))"

section \<open>The connection while it is opened\<close>

text \<open>As in \<open>Sql\<close>, each statement may fail as the schedule says, and then changes nothing.\<close>

record session =
  sql_file :: sql_file
  pragmas :: "(string, string) table"
  session_faults :: "string option list"

type_synonym 'a open_step = "session \<Rightarrow> (server_error + 'a) \<times> session"

definition then_do :: "'a open_step \<Rightarrow> ('a \<Rightarrow> 'b open_step) \<Rightarrow> 'b open_step" where
  "then_do m k s = (case m s of (Inl e, s) \<Rightarrow> (Inl e, s) | (Inr x, s) \<Rightarrow> k x s)"

definition give :: "'a \<Rightarrow> 'a open_step" where
  "give x s = (Inr x, s)"

definition statement :: "(session \<Rightarrow> 'a \<times> session) \<Rightarrow> 'a open_step" where
  "statement f s =
     (let rest = s\<lparr>session_faults := tl (session_faults s)\<rparr>
      in case session_faults s of
           Some e # _ \<Rightarrow> (Inl (Db e), rest)
         | _ \<Rightarrow> (let (x, s) = f rest in (Inr x, s)))"

definition pragma_update :: "string \<Rightarrow> string \<Rightarrow> unit open_step" where
  "pragma_update name v = statement (\<lambda>s. ((), s\<lparr>pragmas := tbl_put name v (pragmas s)\<rparr>))"

text \<open>The statements of the adoption.  Of the rows of the previous runner's table only the number matters.\<close>

definition has_table :: "string \<Rightarrow> bool open_step" where
  "has_table name = statement (\<lambda>s. (tbl_get (sql_tables (sql_file s)) name \<noteq> None, s))"

definition get_user_version :: "int open_step" where
  "get_user_version = statement (\<lambda>s. (user_version (sql_file s), s))"

definition set_user_version :: "int \<Rightarrow> unit open_step" where
  "set_user_version v = statement (\<lambda>s. ((), s\<lparr>sql_file := (sql_file s)\<lparr>user_version := v\<rparr>\<rparr>))"

definition count_rows :: "string \<Rightarrow> int open_step" where
  "count_rows name = statement (\<lambda>s. (case tbl_get (sql_tables (sql_file s)) name of
     None \<Rightarrow> 0 | Some t \<Rightarrow> int (length (table_rows t)), s))"

definition drop_table :: "string \<Rightarrow> unit open_step" where
  "drop_table name = statement (\<lambda>s. ((), s\<lparr>sql_file := (sql_file s)\<lparr>sql_tables := tbl_del name (sql_tables (sql_file s))\<rparr>\<rparr>))"

definition adopt_sqlx_migration_state :: "unit open_step" where
  "adopt_sqlx_migration_state =
     then_do (has_table ''_sqlx_migrations'') (\<lambda>has_sqlx.
     if \<not> has_sqlx then give ()
     else then_do get_user_version (\<lambda>v.
       then_do (if v = 0 then then_do (count_rows ''_sqlx_migrations'') set_user_version else give ()) (\<lambda>_.
       drop_table ''_sqlx_migrations'')))"

type_synonym runner = "sql_stmt list list \<Rightarrow> session \<Rightarrow> (string + unit) \<times> session"

definition open_db :: "runner \<Rightarrow> unit open_step" where
  "open_db to_latest =
     then_do (pragma_update ''foreign_keys'' ''ON'') (\<lambda>_.
     then_do (pragma_update ''journal_mode'' ''WAL'') (\<lambda>_.
     then_do (pragma_update ''synchronous'' ''FULL'') (\<lambda>_.
     then_do (pragma_update ''busy_timeout'' ''5000'') (\<lambda>_.
     then_do (pragma_update ''mmap_size'' ''134217728'') (\<lambda>_.
     then_do (pragma_update ''cache_size'' ''-8000'') (\<lambda>_.
     then_do (pragma_update ''temp_store'' ''MEMORY'') (\<lambda>_.
     then_do adopt_sqlx_migration_state (\<lambda>_ s.
     let (r, s) = to_latest migrations s in (map_err Migration r, s)))))))))"

text \<open>
  The documented behaviour of \<open>to_latest\<close>: it runs the migrations from \<open>user_version\<close> on, in order, each
  with its new \<open>user_version\<close> in one transaction; a file from the future is refused.  An error leaves the
  file at a version on the way, and with no failure of SQLite there is none.
\<close>

definition no_faults :: "session \<Rightarrow> bool" where
  "no_faults s \<longleftrightarrow> list_all (\<lambda>x. x = None) (session_faults s)"

definition migration_runner :: "runner \<Rightarrow> bool" where
  "migration_runner R \<longleftrightarrow> (\<forall>ms s r s'. R ms s = (r, s') \<longrightarrow>
     (let v = user_version (sql_file s)
      in if v < 0 \<or> int (length ms) < v then (\<exists>e. r = Inl e) \<and> sql_file s' = sql_file s
         else (case r of
             Inl _ \<Rightarrow> \<exists>k. run_migrations (take k (drop (nat v) ms)) (sql_file s) = Inr (sql_file s')
           | Inr _ \<Rightarrow> run_migrations (drop (nat v) ms) (sql_file s) = Inr (sql_file s')) \<and>
           (no_faults s \<longrightarrow> (\<exists>f. run_migrations (drop (nat v) ms) (sql_file s) = Inr f) \<longrightarrow> r = Inr () \<and> no_faults s')))"

end
