(* ===== verification/Upgrade.thy ===== *)
theory Upgrade
  imports Migrations
begin

text \<open>
  What the migrations do to the contents of a database.  \<open>store n d\<close> is the file that a server of schema
  version \<open>n\<close> leaves with the contents \<open>d\<close>; \<open>load\<close> reads a file of the current schema back into the
  typed tables the rest of the model works on.
\<close>

section \<open>Typed tables as rows of values\<close>

definition null_or :: "('a \<Rightarrow> sql_value) \<Rightarrow> 'a option \<Rightarrow> sql_value" where
  "null_or f x = (case x of None \<Rightarrow> SQL_Null | Some y \<Rightarrow> f y)"

definition vault_values :: "string \<times> vault_row \<Rightarrow> sql_value list" where
  "vault_values x = (case x of (v, r) \<Rightarrow>
     [SQL_Text v, SQL_Text (api_key r), SQL_Time (vault_created_at r), null_or SQL_Int (quota_bytes r)])"

definition document_values :: "(string \<times> string) \<times> doc_row \<Rightarrow> sql_value list" where
  "document_values x = (case x of ((v, u), r) \<Rightarrow>
     [SQL_Text v, SQL_Text u, SQL_Blob (snapshot_blob r), SQL_Blob (vv_blob r), SQL_Time (updated_at r), SQL_Int (incarnation r)])"

definition tombstone_values :: "(string \<times> string) \<times> tombstone_row \<Rightarrow> sql_value list" where
  "tombstone_values x = (case x of ((v, u), r) \<Rightarrow>
     [SQL_Text v, SQL_Text u, SQL_Text (deleted_by r), SQL_Time (deleted_at r), null_or SQL_Text (content_hash r),
      SQL_Int (tombstone_incarnation r)])"

definition peer_values :: "(string \<times> string) \<times> peer_row \<Rightarrow> sql_value list" where
  "peer_values x = (case x of ((v, p), r) \<Rightarrow>
     [SQL_Text v, SQL_Text p, SQL_Text (device_name r), SQL_Time (last_seen_at r)])"

definition invite_values :: "int \<times> invite_row \<Rightarrow> sql_value list" where
  "invite_values x = (case x of (i, r) \<Rightarrow>
     [SQL_Int i, SQL_Text (invite_vault_id r), SQL_Text (token_hash r), SQL_Text (inviter_peer_id r),
      null_or SQL_Text (invite_device_name r), SQL_Time (invite_created_at r), SQL_Time (expires_at r), null_or SQL_Time (used_at r)])"

definition device_key_values :: "(string \<times> string) \<times> device_key_row \<Rightarrow> sql_value list" where
  "device_key_values x = (case x of ((v, p), r) \<Rightarrow>
     [SQL_Text v, SQL_Text p, SQL_Text (key_hash r), null_or SQL_Text (key_device_name r), SQL_Time (key_created_at r),
      null_or SQL_Time (revoked_at r)])"

definition blob_values :: "(string \<times> string) \<times> blob_row \<Rightarrow> sql_value list" where
  "blob_values x = (case x of ((v, h), r) \<Rightarrow>
     [SQL_Text v, SQL_Text h, SQL_Int (blob_size r), SQL_Time (blob_created_at r)])"

definition path_values :: "(string \<times> string) \<times> path_row \<Rightarrow> sql_value list" where
  "path_values x = (case x of ((v, k), r) \<Rightarrow>
     [SQL_Text v, SQL_Text k, SQL_Text (display_path r), SQL_Int (key_version r), SQL_Int (generation r),
      SQL_Text (path_state r), null_or SQL_Text (path_hash r), null_or SQL_Int (path_size r), SQL_Text (path_peer_id r),
      SQL_Time (path_updated_at r), SQL_Int (seq r), null_or SQL_Text (env_json r)])"

definition upload_values :: "string \<times> upload_row \<Rightarrow> sql_value list" where
  "upload_values x = (case x of (u, r) \<Rightarrow>
     [SQL_Text (upload_vault_id r), SQL_Text u, SQL_Text (hash_claimed r), SQL_Int (size_claimed r),
      SQL_Int (received_bytes r), SQL_Time (upload_created_at r), SQL_Time (upload_updated_at r)])"

definition counter_values :: "string \<times> int \<Rightarrow> sql_value list" where
  "counter_values x = (case x of (v, n) \<Rightarrow> [SQL_Text v, SQL_Int n])"

text \<open>The rows of each table of the current schema; an older row is a prefix of the current one.\<close>

definition contents :: "db \<Rightarrow> string \<Rightarrow> sql_value list list" where
  "contents d name =
     (if name = ''vaults'' then map vault_values (vaults d)
      else if name = ''documents'' then map document_values (documents d)
      else if name = ''tombstones'' then map tombstone_values (tombstones d)
      else if name = ''peers'' then map peer_values (peers d)
      else if name = ''invites'' then map invite_values (invites d)
      else if name = ''device_keys'' then map device_key_values (device_keys d)
      else if name = ''blobs'' then map blob_values (blobs d)
      else if name = ''blob_path_states'' then map path_values (blob_path_states d)
      else if name = ''blob_uploads'' then map upload_values (blob_uploads d)
      else if name = ''counters'' then [counter_values (''blob_seq'', blob_seq d)]
      else if name = ''vault_incarnation'' then map counter_values (vault_incarnation d)
      else [])"

lemmas value_defs = vault_values_def document_values_def tombstone_values_def peer_values_def invite_values_def
  device_key_values_def blob_values_def path_values_def upload_values_def counter_values_def

definition blank_file :: sql_file where
  "blank_file = \<lparr>user_version = 0, sql_tables = [], sql_indexes = []\<rparr>"

definition schema_version :: "nat \<Rightarrow> sql_file" where
  "schema_version n = (case run_migrations (take n migrations) blank_file of Inl _ \<Rightarrow> blank_file | Inr f \<Rightarrow> f)"

definition filled :: "db \<Rightarrow> string \<Rightarrow> sql_table \<Rightarrow> sql_table" where
  "filled d name t = t\<lparr>autoincrement := (if name = ''invites'' then invites_seq d else 0),
     table_rows := map (take (length (columns t))) (contents d name)\<rparr>"

definition store :: "nat \<Rightarrow> db \<Rightarrow> sql_file" where
  "store n d = (schema_version n)\<lparr>sql_tables := map (\<lambda>(name, t). (name, filled d name t)) (sql_tables (schema_version n))\<rparr>"

section \<open>The effect of a migration on the contents\<close>

definition upgrade_step :: "nat \<Rightarrow> db \<Rightarrow> db" where
  "upgrade_step n d =
     (if n = 0 then d\<lparr>vaults := [], documents := [], tombstones := []\<rparr>
      else if n = 1 then d\<lparr>peers := []\<rparr>
      else if n = 2 then d\<lparr>invites := [], invites_seq := 0, device_keys := []\<rparr>
      else if n = 3 then d\<lparr>vaults := map (\<lambda>(v, r). (v, r\<lparr>quota_bytes := None\<rparr>)) (vaults d),
        blobs := [], blob_path_states := [], blob_uploads := [], blob_seq := 0\<rparr>
      else if n = 4 then d\<lparr>tombstones := map (\<lambda>(k, r). (k, r\<lparr>content_hash := None\<rparr>)) (tombstones d)\<rparr>
      else d\<lparr>documents := map (\<lambda>(k, r). (k, r\<lparr>incarnation := 1\<rparr>)) (documents d),
        tombstones := map (\<lambda>(k, r). (k, r\<lparr>tombstone_incarnation := 1\<rparr>)) (tombstones d),
        vault_incarnation := map (\<lambda>v. (v, 2)) (remdups (map (fst \<circ> fst) (documents d) @ map (fst \<circ> fst) (tombstones d)))\<rparr>)"

definition upgraded :: "nat \<Rightarrow> db \<Rightarrow> db" where
  "upgraded n d = fold upgrade_step [n..<6] d"

lemmas migration_defs = init_sql_def peers_sql_def invites_device_keys_sql_def blob_lane_sql_def
  tombstone_content_hash_sql_def incarnation_sql_def

lemma schema_0: "schema_version 0 = blank_file"
  by (simp add: schema_version_def)


lemma run_migrations_append: "run_migrations (ms @ ms') f = bind_result (run_migrations ms f) (run_migrations ms')"
  by (induction ms f rule: run_migrations.induct) (auto simp: bind_result_def split: sum.splits)

text \<open>One migration takes the file of a version to the file of the next.\<close>

lemmas schema_simps = schema_version_def migrations_def blank_file_def exec_stmt_def in_table_def add_column_def
  row_fits_def key_of_def check_holds_def tbl_put_def tbl_get_def

lemma store_0: "store 0 d = blank_file"
  by (simp add: store_def schema_version_def blank_file_def)

lemma migrate_0: "run_batch init_sql (store 0 d) = Inr ((store 1 (upgrade_step 0 d))\<lparr>user_version := 0\<rparr>)"
  by (simp add: schema_simps store_def init_sql_def upgrade_step_def filled_def contents_def value_defs)

lemma migrate_1: "run_batch peers_sql (store 1 d) = Inr ((store 2 (upgrade_step 1 d))\<lparr>user_version := 1\<rparr>)"
  by (simp add: schema_simps store_def init_sql_def peers_sql_def upgrade_step_def filled_def contents_def value_defs numeral_2_eq_2)

lemma migrate_2: "run_batch invites_device_keys_sql (store 2 d) = Inr ((store 3 (upgrade_step 2 d))\<lparr>user_version := 2\<rparr>)"
  by (simp add: schema_simps store_def migration_defs upgrade_step_def filled_def contents_def value_defs eval_nat_numeral)

lemma migrate_3: "run_batch blob_lane_sql (store 3 d) = Inr ((store 4 (upgrade_step 3 d))\<lparr>user_version := 3\<rparr>)"
  by (simp add: schema_simps store_def migration_defs upgrade_step_def filled_def contents_def value_defs eval_nat_numeral split_beta null_or_def)

lemma migrate_4: "run_batch tombstone_content_hash_sql (store 4 d) = Inr ((store 5 (upgrade_step 4 d))\<lparr>user_version := 4\<rparr>)"
  by (simp add: schema_simps store_def migration_defs upgrade_step_def filled_def contents_def value_defs eval_nat_numeral split_beta null_or_def)

lemma seed_rows:
  fixes t
  defines "t \<equiv> \<lparr>columns = [optional_text ''vault_id'', \<lparr>column_name = ''next_incarnation'', column_type = INTEGER, not_null = True,
      column_default = No_Default, column_check = At_Least 2\<rparr>], primary_key = [''vault_id''], autoincrement = 0, table_rows = []\<rparr>"
  assumes "distinct vs"
  shows "insert_rows (map (\<lambda>v. [SQL_Text v, SQL_Int 2]) vs) t = Inr (t\<lparr>table_rows := map (\<lambda>v. [SQL_Text v, SQL_Int 2]) vs\<rparr>)"
  unfolding t_def by (subst insert_rows_fresh)
    (use assms(2) in \<open>auto simp: row_fits_def key_of_def check_holds_def list_all_iff distinct_map inj_on_def comp_def\<close>)

lemma filter_map_Some: "List.map_filter f (map g xs) = List.map_filter (\<lambda>x. f (g x)) xs"
  "List.map_filter (\<lambda>x. Some (h x)) xs = map h xs"
  by (induction xs) (simp_all add: map_filter_simps split: option.split)

lemma vaults_of_store:
  "remdups (map (\<lambda>x. SQL_Text (fst (fst x))) xs @ map (\<lambda>x. SQL_Text (fst (fst x))) ys) =
   map SQL_Text (remdups (map (\<lambda>x. fst (fst x)) xs @ map (\<lambda>x. fst (fst x)) ys))"
proof -
  have "remdups (map SQL_Text zs) = map SQL_Text (remdups zs)" for zs
    by (induction zs) auto
  from this [of "map (\<lambda>x. fst (fst x)) xs @ map (\<lambda>x. fst (fst x)) ys"] show ?thesis
    by (simp add: comp_def)
qed

abbreviation made :: "column list \<Rightarrow> string list \<Rightarrow> sql_table" where
  "made cols key \<equiv> \<lparr>columns = cols, primary_key = key, autoincrement = 0, table_rows = []\<rparr>"

text \<open>The schema before the last migration, and the current one.\<close>

lemma schema_5: "run_migrations (take 5 migrations) blank_file = Inr \<lparr>user_version = 5, sql_tables = [
    (''vaults'', made [optional_text ''vault_id'', text_column ''api_key'', time_column ''created_at'', optional_integer ''quota_bytes''] [''vault_id'']),
    (''documents'', made [text_column ''vault_id'', text_column ''doc_uuid'', blob_column ''snapshot_blob'', blob_column ''vv_blob'',
      time_column ''updated_at''] [''vault_id'', ''doc_uuid'']),
    (''tombstones'', made [text_column ''vault_id'', text_column ''doc_uuid'', text_column ''deleted_by'', time_column ''deleted_at'',
      optional_text ''content_hash''] [''vault_id'', ''doc_uuid'']),
    (''peers'', made [text_column ''vault_id'', text_column ''peer_id'', (text_column ''device_name'')\<lparr>column_default := Default (SQL_Text [])\<rparr>,
      time_column ''last_seen_at''] [''vault_id'', ''peer_id'']),
    (''invites'', made [optional_integer ''id'', filled_column ''vault_id'', filled_column ''token_hash'', filled_column ''inviter_peer_id'',
      optional_text ''device_name'', time_column ''created_at'', filled_column ''expires_at'', optional_text ''used_at''] [''id'']),
    (''device_keys'', made [filled_column ''vault_id'', filled_column ''peer_id'', filled_column ''key_hash'', optional_text ''device_name'',
      time_column ''created_at'', optional_text ''revoked_at''] [''vault_id'', ''peer_id'']),
    (''blobs'', made [text_column ''vault_id'', text_column ''hash'', integer_column ''size'' No_Default, time_column ''created_at''] [''vault_id'', ''hash'']),
    (''blob_path_states'', made [text_column ''vault_id'', text_column ''path_key'', text_column ''display_path'',
      integer_column ''key_version'' (Default (SQL_Int 1)), integer_column ''generation'' No_Default,
      (text_column ''state'')\<lparr>column_check := One_Of [''live'', ''deleted'']\<rparr>, optional_text ''content_hash'', optional_integer ''size'',
      text_column ''peer_id'', time_column ''updated_at'', integer_column ''seq'' No_Default, optional_text ''env_json''] [''vault_id'', ''path_key'']),
    (''blob_uploads'', made [text_column ''vault_id'', text_column ''upload_id'', text_column ''hash_claimed'', integer_column ''size_claimed'' No_Default,
      integer_column ''received_bytes'' (Default (SQL_Int 0)), time_column ''created_at'', time_column ''updated_at''] [''upload_id'']),
    (''counters'', (made [optional_text ''name'', integer_column ''value'' No_Default] [''name''])\<lparr>table_rows := [[SQL_Text ''blob_seq'', SQL_Int 0]]\<rparr>)],
    sql_indexes = [''idx_blob_path_seq'', ''idx_blob_uploads_vault'']\<rparr>"
  by (simp add: schema_simps migration_defs eval_nat_numeral)

lemma schema_6: "run_migrations migrations blank_file = Inr \<lparr>user_version = 6, sql_tables = [
    (''vaults'', made [optional_text ''vault_id'', text_column ''api_key'', time_column ''created_at'', optional_integer ''quota_bytes''] [''vault_id'']),
    (''documents'', made [text_column ''vault_id'', text_column ''doc_uuid'', blob_column ''snapshot_blob'', blob_column ''vv_blob'',
      time_column ''updated_at'', integer_column ''incarnation'' (Default (SQL_Int 1))] [''vault_id'', ''doc_uuid'']),
    (''tombstones'', made [text_column ''vault_id'', text_column ''doc_uuid'', text_column ''deleted_by'', time_column ''deleted_at'',
      optional_text ''content_hash'', integer_column ''incarnation'' (Default (SQL_Int 1))] [''vault_id'', ''doc_uuid'']),
    (''peers'', made [text_column ''vault_id'', text_column ''peer_id'', (text_column ''device_name'')\<lparr>column_default := Default (SQL_Text [])\<rparr>,
      time_column ''last_seen_at''] [''vault_id'', ''peer_id'']),
    (''invites'', made [optional_integer ''id'', filled_column ''vault_id'', filled_column ''token_hash'', filled_column ''inviter_peer_id'',
      optional_text ''device_name'', time_column ''created_at'', filled_column ''expires_at'', optional_text ''used_at''] [''id'']),
    (''device_keys'', made [filled_column ''vault_id'', filled_column ''peer_id'', filled_column ''key_hash'', optional_text ''device_name'',
      time_column ''created_at'', optional_text ''revoked_at''] [''vault_id'', ''peer_id'']),
    (''blobs'', made [text_column ''vault_id'', text_column ''hash'', integer_column ''size'' No_Default, time_column ''created_at''] [''vault_id'', ''hash'']),
    (''blob_path_states'', made [text_column ''vault_id'', text_column ''path_key'', text_column ''display_path'',
      integer_column ''key_version'' (Default (SQL_Int 1)), integer_column ''generation'' No_Default,
      (text_column ''state'')\<lparr>column_check := One_Of [''live'', ''deleted'']\<rparr>, optional_text ''content_hash'', optional_integer ''size'',
      text_column ''peer_id'', time_column ''updated_at'', integer_column ''seq'' No_Default, optional_text ''env_json''] [''vault_id'', ''path_key'']),
    (''blob_uploads'', made [text_column ''vault_id'', text_column ''upload_id'', text_column ''hash_claimed'', integer_column ''size_claimed'' No_Default,
      integer_column ''received_bytes'' (Default (SQL_Int 0)), time_column ''created_at'', time_column ''updated_at''] [''upload_id'']),
    (''counters'', (made [optional_text ''name'', integer_column ''value'' No_Default] [''name''])\<lparr>table_rows := [[SQL_Text ''blob_seq'', SQL_Int 0]]\<rparr>),
    (''vault_incarnation'', made [optional_text ''vault_id'', (integer_column ''next_incarnation'' No_Default)\<lparr>column_check := At_Least 2\<rparr>] [''vault_id''])],
    sql_indexes = [''idx_blob_path_seq'', ''idx_blob_uploads_vault'']\<rparr>"
proof -
  have "migrations = take 5 migrations @ [incarnation_sql]"
    by (simp add: migrations_def)
  then have "run_migrations migrations blank_file = bind_result (run_migrations (take 5 migrations) blank_file) (run_migrations [incarnation_sql])"
    by (metis run_migrations_append)
  also have "run_migrations [incarnation_sql] = (\<lambda>f. bind_result (run_batch incarnation_sql f) (\<lambda>f. Inr (f\<lparr>user_version := user_version f + 1\<rparr>)))"
    by (simp add: fun_eq_iff)
  finally show ?thesis
    unfolding schema_5
    by (simp add: exec_stmt_def in_table_def add_column_def tbl_put_def tbl_get_def incarnation_sql_def vaults_with_history_def
      column_values_def map_filter_simps)
qed

lemma migrate_5: "run_batch incarnation_sql (store 5 d) = Inr ((store 6 (upgrade_step 5 d))\<lparr>user_version := 5\<rparr>)"
proof -
  have six: "take 6 migrations = migrations"
    by (simp add: migrations_def)
  show ?thesis
    unfolding store_def schema_version_def schema_5 six schema_6 sum.case
    by (simp add: seed_rows exec_stmt_def in_table_def add_column_def tbl_put_def tbl_get_def incarnation_sql_def
      upgrade_step_def filled_def contents_def value_defs split_beta null_or_def
      vaults_with_history_def column_values_def filter_map_Some vaults_of_store comp_def)
qed

end
