(* ===== verification/Reload.thy ===== *)
theory Reload
  imports Upgrade "HOL-Library.Monad_Syntax"
begin

text \<open>
  Reading a file of the current schema into the typed tables, row by row.
\<close>

section \<open>Reading a file\<close>

definition text_of :: "sql_value \<Rightarrow> string option" where
  "text_of v = (case v of SQL_Text s \<Rightarrow> Some s | _ \<Rightarrow> None)"

definition int_of :: "sql_value \<Rightarrow> int option" where
  "int_of v = (case v of SQL_Int i \<Rightarrow> Some i | _ \<Rightarrow> None)"

definition blob_of :: "sql_value \<Rightarrow> bytes option" where
  "blob_of v = (case v of SQL_Blob b \<Rightarrow> Some b | _ \<Rightarrow> None)"

definition time_of :: "sql_value \<Rightarrow> timestamp option" where
  "time_of v = (case v of SQL_Time t \<Rightarrow> Some t | _ \<Rightarrow> None)"

definition nullable :: "(sql_value \<Rightarrow> 'a option) \<Rightarrow> sql_value \<Rightarrow> 'a option option" where
  "nullable p v = (case v of SQL_Null \<Rightarrow> Some None | _ \<Rightarrow> map_option Some (p v))"

lemma read_back [simp]:
  "text_of (SQL_Text s) = Some s" "int_of (SQL_Int i) = Some i" "blob_of (SQL_Blob b) = Some b" "time_of (SQL_Time t) = Some t"
  "nullable text_of (null_or SQL_Text so) = Some so" "nullable int_of (null_or SQL_Int io) = Some io"
  "nullable time_of (null_or SQL_Time to) = Some to"
  by (simp_all add: text_of_def int_of_def blob_of_def time_of_def nullable_def null_or_def split: option.split)

text \<open>One reader per table; \<open>None\<close> for a row the schema does not allow.\<close>

definition read_vault :: "sql_value list \<Rightarrow> (string \<times> vault_row) option" where
  "read_vault r = (case r of [v, k, t, q] \<Rightarrow> do {
       v \<leftarrow> text_of v; k \<leftarrow> text_of k; t \<leftarrow> time_of t; q \<leftarrow> nullable int_of q;
       Some (v, \<lparr>api_key = k, vault_created_at = t, quota_bytes = q\<rparr>) }
     | _ \<Rightarrow> None)"

definition read_document :: "sql_value list \<Rightarrow> ((string \<times> string) \<times> doc_row) option" where
  "read_document r = (case r of [v, u, s, vv, t, i] \<Rightarrow> do {
       v \<leftarrow> text_of v; u \<leftarrow> text_of u; s \<leftarrow> blob_of s; vv \<leftarrow> blob_of vv; t \<leftarrow> time_of t; i \<leftarrow> int_of i;
       Some ((v, u), \<lparr>snapshot_blob = s, vv_blob = vv, updated_at = t, incarnation = i\<rparr>) }
     | _ \<Rightarrow> None)"

definition read_tombstone :: "sql_value list \<Rightarrow> ((string \<times> string) \<times> tombstone_row) option" where
  "read_tombstone r = (case r of [v, u, b, t, h, i] \<Rightarrow> do {
       v \<leftarrow> text_of v; u \<leftarrow> text_of u; b \<leftarrow> text_of b; t \<leftarrow> time_of t; h \<leftarrow> nullable text_of h; i \<leftarrow> int_of i;
       Some ((v, u), \<lparr>deleted_by = b, deleted_at = t, content_hash = h, tombstone_incarnation = i\<rparr>) }
     | _ \<Rightarrow> None)"

definition read_peer :: "sql_value list \<Rightarrow> ((string \<times> string) \<times> peer_row) option" where
  "read_peer r = (case r of [v, p, n, t] \<Rightarrow> do {
       v \<leftarrow> text_of v; p \<leftarrow> text_of p; n \<leftarrow> text_of n; t \<leftarrow> time_of t;
       Some ((v, p), \<lparr>device_name = n, last_seen_at = t\<rparr>) }
     | _ \<Rightarrow> None)"

definition read_invite :: "sql_value list \<Rightarrow> (int \<times> invite_row) option" where
  "read_invite r = (case r of [i, v, h, p, n, t, e, u] \<Rightarrow> do {
       i \<leftarrow> int_of i; v \<leftarrow> text_of v; h \<leftarrow> text_of h; p \<leftarrow> text_of p; n \<leftarrow> nullable text_of n; t \<leftarrow> time_of t;
       e \<leftarrow> time_of e; u \<leftarrow> nullable time_of u;
       Some (i, \<lparr>invite_vault_id = v, token_hash = h, inviter_peer_id = p, invite_device_name = n,
         invite_created_at = t, expires_at = e, used_at = u\<rparr>) }
     | _ \<Rightarrow> None)"

definition read_device_key :: "sql_value list \<Rightarrow> ((string \<times> string) \<times> device_key_row) option" where
  "read_device_key r = (case r of [v, p, h, n, t, x] \<Rightarrow> do {
       v \<leftarrow> text_of v; p \<leftarrow> text_of p; h \<leftarrow> text_of h; n \<leftarrow> nullable text_of n; t \<leftarrow> time_of t; x \<leftarrow> nullable time_of x;
       Some ((v, p), \<lparr>key_hash = h, key_device_name = n, key_created_at = t, revoked_at = x\<rparr>) }
     | _ \<Rightarrow> None)"

definition read_blob :: "sql_value list \<Rightarrow> ((string \<times> string) \<times> blob_row) option" where
  "read_blob r = (case r of [v, h, n, t] \<Rightarrow> do {
       v \<leftarrow> text_of v; h \<leftarrow> text_of h; n \<leftarrow> int_of n; t \<leftarrow> time_of t;
       Some ((v, h), \<lparr>blob_size = n, blob_created_at = t\<rparr>) }
     | _ \<Rightarrow> None)"

definition read_path :: "sql_value list \<Rightarrow> ((string \<times> string) \<times> path_row) option" where
  "read_path r = (case r of [v, k, d, kv, g, st, h, n, p, t, s, e] \<Rightarrow> do {
       v \<leftarrow> text_of v; k \<leftarrow> text_of k; d \<leftarrow> text_of d; kv \<leftarrow> int_of kv; g \<leftarrow> int_of g; st \<leftarrow> text_of st;
       h \<leftarrow> nullable text_of h; n \<leftarrow> nullable int_of n; p \<leftarrow> text_of p; t \<leftarrow> time_of t; s \<leftarrow> int_of s; e \<leftarrow> nullable text_of e;
       Some ((v, k), \<lparr>display_path = d, key_version = kv, generation = g, path_state = st, path_hash = h, path_size = n,
         path_peer_id = p, path_updated_at = t, seq = s, env_json = e\<rparr>) }
     | _ \<Rightarrow> None)"

definition read_upload_row :: "sql_value list \<Rightarrow> (string \<times> upload_row) option" where
  "read_upload_row r = (case r of [v, u, h, n, m, t, t'] \<Rightarrow> do {
       v \<leftarrow> text_of v; u \<leftarrow> text_of u; h \<leftarrow> text_of h; n \<leftarrow> int_of n; m \<leftarrow> int_of m; t \<leftarrow> time_of t; t' \<leftarrow> time_of t';
       Some (u, \<lparr>upload_vault_id = v, hash_claimed = h, size_claimed = n, received_bytes = m,
         upload_created_at = t, upload_updated_at = t'\<rparr>) }
     | _ \<Rightarrow> None)"

definition read_counter :: "sql_value list \<Rightarrow> (string \<times> int) option" where
  "read_counter r = (case r of [v, n] \<Rightarrow> do { v \<leftarrow> text_of v; n \<leftarrow> int_of n; Some (v, n) } | _ \<Rightarrow> None)"

definition read_table :: "(sql_value list \<Rightarrow> 'a option) \<Rightarrow> string \<Rightarrow> sql_file \<Rightarrow> 'a list option" where
  "read_table p name f = do { t \<leftarrow> tbl_get (sql_tables f) name; those (map p (table_rows t)) }"

definition load :: "sql_file \<Rightarrow> db option" where
  "load f = do {
     vs \<leftarrow> read_table read_vault ''vaults'' f;
     ds \<leftarrow> read_table read_document ''documents'' f;
     ts \<leftarrow> read_table read_tombstone ''tombstones'' f;
     ns \<leftarrow> read_table read_counter ''vault_incarnation'' f;
     ps \<leftarrow> read_table read_peer ''peers'' f;
     is \<leftarrow> read_table read_invite ''invites'' f;
     it \<leftarrow> tbl_get (sql_tables f) ''invites'';
     ks \<leftarrow> read_table read_device_key ''device_keys'' f;
     bs \<leftarrow> read_table read_blob ''blobs'' f;
     xs \<leftarrow> read_table read_path ''blob_path_states'' f;
     us \<leftarrow> read_table read_upload_row ''blob_uploads'' f;
     cs \<leftarrow> read_table read_counter ''counters'' f;
     n \<leftarrow> tbl_get cs ''blob_seq'';
     Some \<lparr>vaults = vs, documents = ds, tombstones = ts, vault_incarnation = ns, peers = ps, invites = is,
       invites_seq = autoincrement it, device_keys = ks, blobs = bs, blob_path_states = xs, blob_uploads = us, blob_seq = n\<rparr> }"

section \<open>A file is read back as it was written\<close>

lemma read_values:
  "read_vault (vault_values a) = Some a" "read_document (document_values b) = Some b"
  "read_tombstone (tombstone_values c) = Some c" "read_peer (peer_values e) = Some e"
  "read_invite (invite_values f) = Some f" "read_device_key (device_key_values g) = Some g"
  "read_blob (blob_values h) = Some h" "read_path (path_values i) = Some i"
  "read_upload_row (upload_values j) = Some j" "read_counter (counter_values k) = Some k"
  by (auto simp: value_defs read_vault_def read_document_def read_tombstone_def read_peer_def read_invite_def
    read_device_key_def read_blob_def read_path_def read_upload_row_def read_counter_def split: prod.split)

lemma values_length:
  "length (vault_values a) = 4" "length (document_values b) = 6" "length (tombstone_values c) = 6" "length (peer_values e) = 4"
  "length (invite_values f) = 8" "length (device_key_values g) = 6" "length (blob_values h) = 4" "length (path_values i) = 12"
  "length (upload_values j) = 7" "length (counter_values k) = 2"
  by (simp_all add: value_defs split: prod.split)

lemma those_rows: "(\<And>x. p (g x) = Some x) \<Longrightarrow> those (map (p \<circ> g) xs) = Some xs"
  by (induction xs) simp_all

lemma read_stored:
  assumes "case tbl_get (sql_tables (schema_version n)) name of None \<Rightarrow> False | Some t \<Rightarrow> width \<le> length (columns t)"
    and "contents d name = map g xs" and "\<And>x. p (g x) = Some x" and "\<And>x. length (g x) = width"
  shows "read_table p name (store n d) = Some xs"
proof -
  obtain t where t: "tbl_get (sql_tables (schema_version n)) name = Some t" "width \<le> length (columns t)"
    using assms(1) by (cases "tbl_get (sql_tables (schema_version n)) name") auto
  have "tbl_get (map (\<lambda>(k, t). (k, filled d k t)) ts) name = map_option (filled d name) (tbl_get ts name)" for ts
    by (induction ts) (auto simp: tbl_get_def)
  moreover have "take (length (columns t)) (g x) = g x" for x
    using assms(4) t(2) by simp
  moreover have "those (map (\<lambda>x. p (g x)) xs) = Some xs"
    using those_rows [of p g, OF assms(3)] by (simp add: comp_def)
  ultimately show ?thesis
    using t(1) assms(2) by (simp add: read_table_def store_def filled_def comp_def)
qed

lemma load_store: "load (store 6 d) = Some d"
proof -
  have six: "schema_version 6 = projr (run_migrations migrations blank_file)"
  proof -
    have "take 6 migrations = migrations"
      by (simp add: migrations_def)
    then show ?thesis
      by (simp only: schema_version_def schema_6 sum.case sum.sel)
  qed
  note tables = six schema_6 tbl_get_def contents_def
  have "read_table read_vault ''vaults'' (store 6 d) = Some (vaults d)"
    by (rule read_stored [OF _ _ read_values(1) values_length(1)]) (simp_all add: tables)
  moreover have "read_table read_document ''documents'' (store 6 d) = Some (documents d)"
    by (rule read_stored [OF _ _ read_values(2) values_length(2)]) (simp_all add: tables)
  moreover have "read_table read_tombstone ''tombstones'' (store 6 d) = Some (tombstones d)"
    by (rule read_stored [OF _ _ read_values(3) values_length(3)]) (simp_all add: tables)
  moreover have "read_table read_counter ''vault_incarnation'' (store 6 d) = Some (vault_incarnation d)"
    by (rule read_stored [OF _ _ read_values(10) values_length(10)]) (simp_all add: tables)
  moreover have "read_table read_peer ''peers'' (store 6 d) = Some (peers d)"
    by (rule read_stored [OF _ _ read_values(4) values_length(4)]) (simp_all add: tables)
  moreover have "read_table read_invite ''invites'' (store 6 d) = Some (invites d)"
    by (rule read_stored [OF _ _ read_values(5) values_length(5)]) (simp_all add: tables)
  moreover have "read_table read_device_key ''device_keys'' (store 6 d) = Some (device_keys d)"
    by (rule read_stored [OF _ _ read_values(6) values_length(6)]) (simp_all add: tables)
  moreover have "read_table read_blob ''blobs'' (store 6 d) = Some (blobs d)"
    by (rule read_stored [OF _ _ read_values(7) values_length(7)]) (simp_all add: tables)
  moreover have "read_table read_path ''blob_path_states'' (store 6 d) = Some (blob_path_states d)"
    by (rule read_stored [OF _ _ read_values(8) values_length(8)]) (simp_all add: tables)
  moreover have "read_table read_upload_row ''blob_uploads'' (store 6 d) = Some (blob_uploads d)"
    by (rule read_stored [OF _ _ read_values(9) values_length(9)]) (simp_all add: tables)
  moreover have "read_table read_counter ''counters'' (store 6 d) = Some [(''blob_seq'', blob_seq d)]"
    by (rule read_stored [OF _ _ read_values(10) values_length(10)]) (simp_all add: tables)
  moreover have "\<exists>t. tbl_get (sql_tables (store 6 d)) ''invites'' = Some t \<and> autoincrement t = invites_seq d"
    by (simp add: store_def tables filled_def)
  ultimately show ?thesis
    by (auto simp: load_def tbl_get_def)
qed

end
