(* ===== verification/Open_Db.thy ===== *)
theory Open_Db
  imports Reload
begin

text \<open>
  Opening the database: whatever version the file is at, whichever runner made it, and however often
  opening it failed before, \<open>open_db\<close> brings it to the current schema and keeps its contents.
\<close>

section \<open>Rules for the statements of an opening\<close>

text \<open>From \<open>P\<close>, a result leaves \<open>Q\<close> and an error \<open>E\<close>; without failures there is a result.\<close>

definition runs :: "(sql_file \<Rightarrow> bool) \<Rightarrow> 'a open_step \<Rightarrow> ('a \<Rightarrow> sql_file \<Rightarrow> bool) \<Rightarrow> (sql_file \<Rightarrow> bool) \<Rightarrow> bool" where
  "runs P m Q E \<longleftrightarrow> (\<forall>s r s'. P (sql_file s) \<longrightarrow> m s = (r, s') \<longrightarrow>
     (case r of Inl _ \<Rightarrow> E (sql_file s') \<and> \<not> no_faults s
      | Inr x \<Rightarrow> Q x (sql_file s') \<and> (no_faults s \<longrightarrow> no_faults s')))"

lemma runsD:
  assumes "runs P m Q E" and "P (sql_file s)"
  shows "m s = (Inl e, s') \<Longrightarrow> E (sql_file s')" "m s = (Inl e, s') \<Longrightarrow> \<not> no_faults s"
    "m s = (Inr x, s') \<Longrightarrow> Q x (sql_file s')" "m s = (Inr x, s') \<Longrightarrow> no_faults s \<Longrightarrow> no_faults s'"
  using assms unfolding runs_def by fastforce+

lemma runs_then:
  assumes "runs P m Q E" and "\<And>x. runs (Q x) (k x) R E"
  shows "runs P (then_do m k) R E"
  unfolding runs_def
proof (intro allI impI)
  fix s r s' assume "P (sql_file s)" and run: "then_do m k s = (r, s')"
  obtain r1 s1 where m: "m s = (r1, s1)" by force
  show "case r of Inl _ \<Rightarrow> E (sql_file s') \<and> \<not> no_faults s | Inr x \<Rightarrow> R x (sql_file s') \<and> (no_faults s \<longrightarrow> no_faults s')"
  proof (cases r1)
    case (Inl e)
    then have "r = Inl e" "s' = s1"
      using m run by (simp_all add: then_do_def)
    then show ?thesis
      using runsD(1,2) [OF assms(1) \<open>P (sql_file s)\<close>] m Inl by simp
  next
    case (Inr x)
    then have k: "k x s1 = (r, s')"
      using m run by (simp add: then_do_def)
    have mid: "Q x (sql_file s1)" "no_faults s \<Longrightarrow> no_faults s1"
      using runsD(3,4) [OF assms(1) \<open>P (sql_file s)\<close>] m Inr by simp_all
    show ?thesis
      using runsD [OF assms(2) mid(1)] k mid(2) by (cases r) auto
  qed
qed

lemma runs_give: "(\<And>f. P f \<Longrightarrow> Q x f) \<Longrightarrow> runs P (give x) Q E"
  by (simp add: runs_def give_def)

lemma runs_statement:
  assumes "\<And>f. P f \<Longrightarrow> E f"
    and "\<And>s x s'. P (sql_file s) \<Longrightarrow> f s = (x, s') \<Longrightarrow> Q x (sql_file s') \<and> session_faults s' = session_faults s"
  shows "runs P (statement f) Q E"
  unfolding runs_def
proof (intro allI impI)
  fix s r s' assume P: "P (sql_file s)" and run: "statement f s = (r, s')"
  let ?rest = "s\<lparr>session_faults := tl (session_faults s)\<rparr>"
  have rest: "no_faults ?rest" if "no_faults s"
    using that by (cases "session_faults s") (auto simp: no_faults_def)
  show "case r of Inl _ \<Rightarrow> E (sql_file s') \<and> \<not> no_faults s | Inr x \<Rightarrow> Q x (sql_file s') \<and> (no_faults s \<longrightarrow> no_faults s')"
  proof (cases "\<exists>e es. session_faults s = Some e # es")
    case True
    then show ?thesis
      using run P assms(1) by (auto simp: statement_def no_faults_def)
  next
    case False
    then obtain x where "f ?rest = (x, s')" "r = Inr x"
      using run by (auto simp: statement_def Let_def split: list.splits option.splits prod.splits)
    then show ?thesis
      using assms(2) [of ?rest x s'] P rest by (auto simp: no_faults_def)
  qed
qed

lemma runs_pragma: "(\<And>f. P f \<Longrightarrow> E f) \<Longrightarrow> runs P (pragma_update a b) (\<lambda>_. P) E"
  unfolding pragma_update_def by (rule runs_statement) auto

lemma runs_pragma_then: "(\<And>f. P f \<Longrightarrow> E f) \<Longrightarrow> runs P m Q E \<Longrightarrow> runs P (then_do (pragma_update a b) (\<lambda>_. m)) Q E"
  by (rule runs_then [OF runs_pragma])

lemma runs_error:
  assumes "runs P m Q E" and "\<And>f. E f \<Longrightarrow> E' f"
  shows "runs P m Q E'"
  unfolding runs_def
proof (intro allI impI)
  fix s r s' assume "P (sql_file s)" "m s = (r, s')"
  from runsD [OF assms(1) this(1)] this(2) show "case r of Inl _ \<Rightarrow> E' (sql_file s') \<and> \<not> no_faults s | Inr x \<Rightarrow> Q x (sql_file s') \<and> (no_faults s \<longrightarrow> no_faults s')"
    using assms(2) by (cases r) auto
qed

section \<open>From any version to the current one\<close>

lemma migrate_version:
  assumes "n < 6"
  shows "run_batch (migrations ! n) (store n d) = Inr ((store (Suc n) (upgrade_step n d))\<lparr>user_version := int n\<rparr>)"
proof -
  have "n = 0 \<or> n = 1 \<or> n = 2 \<or> n = 3 \<or> n = 4 \<or> n = 5"
    using assms by auto
  then show ?thesis
    using migrate_0 [of d] migrate_1 [of d] migrate_2 [of d] migrate_3 [of d] migrate_4 [of d] migrate_5 [of d]
    by (auto simp: migrations_def numeral_2_eq_2 eval_nat_numeral)
qed

lemma version_of_batch: "exec_stmt st f = Inr f' \<Longrightarrow> user_version f' = user_version f"
  by (cases st) (auto simp: exec_stmt_def in_table_def bind_result_Inr split: option.splits if_splits)

lemma version_of_migrations: "run_migrations ms f = Inr f' \<Longrightarrow> user_version f' = user_version f + int (length ms)"
proof (induction ms f rule: run_migrations.induct)
  case (2 m ms f)
  have "user_version g = user_version f" if "run_batch m f = Inr g" for g
    using that by (induction m f rule: run_batch.induct) (auto simp: bind_result_Inr dest: version_of_batch)
  then show ?case
    using 2 by (fastforce simp: bind_result_Inr)
qed simp

lemma schema_reached: "n \<le> 6 \<Longrightarrow> \<exists>f. run_migrations (take n migrations) blank_file = Inr f"
proof -
  assume "n \<le> 6"
  have "take n migrations @ drop n migrations = migrations" by simp
  then have "bind_result (run_migrations (take n migrations) blank_file) (run_migrations (drop n migrations)) \<noteq> Inl e" for e
    using schema_6 by (metis run_migrations_append sum.distinct(1))
  then show ?thesis
    by (cases "run_migrations (take n migrations) blank_file") auto
qed

lemma length_migrations: "length migrations = 6"
  by (simp add: migrations_def)

lemma store_version: "n \<le> 6 \<Longrightarrow> user_version (store n d) = int n"
  using schema_reached [of n] version_of_migrations [of "take n migrations" blank_file]
  by (auto simp: store_def schema_version_def blank_file_def length_migrations)

lemma migrate_store:
  assumes "n \<le> 6"
  shows "run_migrations (drop n migrations) (store n d) = Inr (store 6 (upgraded n d))"
  using assms
proof (induction n arbitrary: d rule: inc_induct)
  case base
  then show ?case by (simp add: migrations_def upgraded_def)
next
  case (step n)
  have "drop n migrations = migrations ! n # drop (Suc n) migrations"
    using step.hyps by (simp add: Cons_nth_drop_Suc length_migrations)
  moreover have "(store (Suc n) (upgrade_step n d))\<lparr>user_version := int n + 1\<rparr> = store (Suc n) (upgrade_step n d)"
    using store_version [of "Suc n" "upgrade_step n d"] step.hyps by simp
  moreover have "[n..<6] = n # [Suc n..<6]"
    using step.hyps by (simp add: upt_conv_Cons)
  ultimately show ?case
    using step.IH [of "upgrade_step n d"] step.hyps by (simp add: migrate_version upgraded_def)
qed

section \<open>The files an opening finds and leaves\<close>

text \<open>The file of version \<open>n\<close> as the previous runner left it: a table with one row per migration applied.\<close>

definition with_sqlx :: "sql_table \<Rightarrow> int \<Rightarrow> sql_file \<Rightarrow> sql_file" where
  "with_sqlx T v f = f\<lparr>user_version := v, sql_tables := (''_sqlx_migrations'', T) # sql_tables f\<rparr>"

definition left_by_version :: "nat \<Rightarrow> db \<Rightarrow> sql_file \<Rightarrow> bool" where
  "left_by_version n d f \<longleftrightarrow> f = store n d \<or> (\<exists>T. length (table_rows T) = n \<and> f = with_sqlx T 0 (store n d))"

definition part_way :: "nat \<Rightarrow> db \<Rightarrow> sql_file \<Rightarrow> bool" where
  "part_way n d f \<longleftrightarrow> (\<exists>k. n + k \<le> 6 \<and> run_migrations (take k (drop n migrations)) (store n d) = Inr f)"

definition to_adopt :: "nat \<Rightarrow> db \<Rightarrow> int \<Rightarrow> sql_file \<Rightarrow> bool" where
  "to_adopt n d v f \<longleftrightarrow> (\<exists>T. length (table_rows T) = n \<and> f = with_sqlx T v (store n d))"

definition on_the_way :: "nat \<Rightarrow> db \<Rightarrow> sql_file \<Rightarrow> bool" where
  "on_the_way n d f \<longleftrightarrow> part_way n d f \<or> to_adopt n d 0 f \<or> to_adopt n d (int n) f"

lemma part_way_start: "n \<le> 6 \<Longrightarrow> part_way n d (store n d)"
  unfolding part_way_def by (rule exI [of _ 0]) simp

lemma left_on_the_way: "n \<le> 6 \<Longrightarrow> left_by_version n d f \<Longrightarrow> on_the_way n d f"
  by (auto simp: left_by_version_def on_the_way_def to_adopt_def part_way_start)

text \<open>No migration makes the table of the previous runner.\<close>

definition creates :: "string \<Rightarrow> sql_stmt \<Rightarrow> bool" where
  "creates x s = (case s of Create_Table _ name _ _ \<Rightarrow> name = x | _ \<Rightarrow> False)"

lemma exec_creates: "exec_stmt s f = Inr f' \<Longrightarrow> \<not> creates x s \<Longrightarrow> tbl_get (sql_tables f) x = None \<Longrightarrow>
    tbl_get (sql_tables f') x = None"
  by (cases s) (auto simp: exec_stmt_def in_table_def creates_def bind_result_Inr sql.get_put split: option.splits if_splits)

lemma batch_creates: "run_batch ss f = Inr f' \<Longrightarrow> \<not> list_ex (creates x) ss \<Longrightarrow> tbl_get (sql_tables f) x = None \<Longrightarrow>
    tbl_get (sql_tables f') x = None"
  by (induction ss f rule: run_batch.induct) (auto simp: bind_result_Inr dest: exec_creates)

lemma migrations_create: "run_migrations ms f = Inr f' \<Longrightarrow> \<not> list_ex (list_ex (creates x)) ms \<Longrightarrow>
    tbl_get (sql_tables f) x = None \<Longrightarrow> tbl_get (sql_tables f') x = None"
  by (induction ms f rule: run_migrations.induct) (auto simp: bind_result_Inr dest: batch_creates)

lemma migrations_without_sqlx: "set ms \<subseteq> set migrations \<Longrightarrow> \<not> list_ex (list_ex (creates ''_sqlx_migrations'')) ms"
proof -
  have "\<not> list_ex (list_ex (creates ''_sqlx_migrations'')) migrations"
    by (simp add: migrations_def migration_defs creates_def)
  then show "set ms \<subseteq> set migrations \<Longrightarrow> ?thesis"
    unfolding list_ex_iff by blast
qed

lemma store_without_sqlx:
  assumes "n \<le> 6"
  shows "tbl_get (sql_tables (store n d)) ''_sqlx_migrations'' = None"
proof -
  have "set (take n migrations) \<subseteq> set migrations"
    by (rule set_take_subset)
  then have "tbl_get (sql_tables (schema_version n)) ''_sqlx_migrations'' = None"
    using schema_reached [OF assms] migrations_create [OF _ migrations_without_sqlx]
    by (auto simp: schema_version_def blank_file_def)
  moreover have "tbl_get (map (\<lambda>(k, t). (k, filled d k t)) ts) x = map_option (filled d x) (tbl_get ts x)" for ts x
    by (induction ts) (auto simp: tbl_get_def)
  ultimately show ?thesis
    by (simp add: store_def)
qed

lemma part_way_tables: "part_way n d f \<Longrightarrow> tbl_get (sql_tables f) ''_sqlx_migrations'' = None"
proof -
  assume "part_way n d f"
  then obtain k where k: "n + k \<le> 6" "run_migrations (take k (drop n migrations)) (store n d) = Inr f"
    by (auto simp: part_way_def)
  have "set (take k (drop n migrations)) \<subseteq> set migrations"
    by (meson order_trans set_drop_subset set_take_subset)
  then show ?thesis
    using migrations_create [OF k(2) migrations_without_sqlx] store_without_sqlx [of n d] k(1) by simp
qed

lemma drop_sqlx:
  assumes "n \<le> 6"
  shows "(with_sqlx T (int n) (store n d))\<lparr>sql_tables := tbl_del ''_sqlx_migrations'' (sql_tables (with_sqlx T (int n) (store n d)))\<rparr> = store n d"
proof -
  have "tbl_del ''_sqlx_migrations'' ts = ts" if "tbl_get ts ''_sqlx_migrations'' = None" for ts :: "(string, sql_table) table"
    using that by (induction ts) (auto simp: tbl_get_def tbl_del_def split: if_splits)
  then have "tbl_del ''_sqlx_migrations'' (sql_tables (store n d)) = sql_tables (store n d)"
    using store_without_sqlx [OF assms] by blast
  then show ?thesis
    using store_version [OF assms, of d] by (simp add: with_sqlx_def tbl_del_def)
qed

text \<open>Adoption takes every file on the way to one the runner understands, or leaves it on the way.\<close>

lemma runs_adopt:
  assumes "n \<le> 6"
  shows "runs (on_the_way n d) adopt_sqlx_migration_state (\<lambda>_. part_way n d) (on_the_way n d)"
proof -
  let ?start = "\<lambda>f. to_adopt n d 0 f \<or> to_adopt n d (int n) f" and ?E = "on_the_way n d"
  have way: "?E f" if "?start f" for f
    using that by (auto simp: on_the_way_def)
  have found: "runs ?E (has_table ''_sqlx_migrations'') (\<lambda>b f. if b then ?start f else part_way n d f) ?E"
    unfolding has_table_def by (rule runs_statement) (auto simp: on_the_way_def to_adopt_def with_sqlx_def dest: part_way_tables)
  have version: "runs ?start get_user_version (\<lambda>v f. (v = 0 \<or> v = int n) \<and> to_adopt n d v f) ?E"
    unfolding get_user_version_def by (rule runs_statement) (auto simp: way to_adopt_def with_sqlx_def)
  have count: "runs (to_adopt n d 0) (count_rows ''_sqlx_migrations'') (\<lambda>k f. to_adopt n d 0 f \<and> k = int n) ?E"
    unfolding count_rows_def by (rule runs_statement) (auto simp: way to_adopt_def with_sqlx_def)
  have set: "runs (\<lambda>f. to_adopt n d 0 f \<and> k = int n) (set_user_version k) (\<lambda>_. to_adopt n d (int n)) ?E" for k
    unfolding set_user_version_def by (rule runs_statement) (auto simp: way to_adopt_def with_sqlx_def)
  have dropped: "runs (to_adopt n d (int n)) (drop_table ''_sqlx_migrations'') (\<lambda>_. part_way n d) ?E"
    unfolding drop_table_def using assms by (intro runs_statement) (auto simp: way to_adopt_def drop_sqlx part_way_start)
  have adopted: "runs (\<lambda>f. (v = 0 \<or> v = int n) \<and> to_adopt n d v f)
      (if v = 0 then then_do (count_rows ''_sqlx_migrations'') set_user_version else give ()) (\<lambda>_. to_adopt n d (int n)) ?E" for v
    using runs_then [OF count set] by (auto simp: runs_def give_def)
  have "runs (\<lambda>f. if b then ?start f else part_way n d f) (if \<not> b then give () else then_do get_user_version (\<lambda>v.
      then_do (if v = 0 then then_do (count_rows ''_sqlx_migrations'') set_user_version else give ())
        (\<lambda>_. drop_table ''_sqlx_migrations''))) (\<lambda>_. part_way n d) ?E" for b
    using runs_then [OF version runs_then [OF adopted dropped]] by (cases b) (simp_all add: runs_give)
  then show ?thesis
    unfolding adopt_sqlx_migration_state_def by (rule runs_then [OF found])
qed

lemma runs_migrations:
  assumes R: "migration_runner R"
  shows "runs (part_way n d) (\<lambda>s. let (r, s) = R migrations s in (map_err Migration r, s))
    (\<lambda>_ f. f = store 6 (upgraded n d)) (part_way n d)"
  unfolding runs_def
proof (intro allI impI)
  fix s r s' assume way: "part_way n d (sql_file s)" and run: "(let (r, s) = R migrations s in (map_err Migration r, s)) = (r, s')"
  obtain q where q: "R migrations s = (q, s')" "r = map_err Migration q"
    using run by (auto simp: Let_def split: prod.splits)
  obtain k where k: "n + k \<le> 6" "run_migrations (take k (drop n migrations)) (store n d) = Inr (sql_file s)"
    using way by (auto simp: part_way_def)
  let ?rest = "drop (n + k) migrations"
  have version: "user_version (sql_file s) = int (n + k)"
    using version_of_migrations [OF k(2)] k(1) store_version [of n d] by (simp add: length_migrations)
  have whole: "run_migrations ?rest (sql_file s) = Inr (store 6 (upgraded n d))"
  proof -
    have "run_migrations (take k (drop n migrations) @ ?rest) (store n d) = Inr (store 6 (upgraded n d))"
      using migrate_store [of n d] k(1) by (metis add.commute append_take_drop_id drop_drop add_leD1)
    then show ?thesis
      using k(2) by (simp add: run_migrations_append)
  qed
  have law: "(case q of Inl _ \<Rightarrow> \<exists>j. run_migrations (take j ?rest) (sql_file s) = Inr (sql_file s')
      | Inr _ \<Rightarrow> run_migrations ?rest (sql_file s) = Inr (sql_file s')) \<and> (no_faults s \<longrightarrow> q = Inr () \<and> no_faults s')"
    using R [unfolded migration_runner_def Let_def, rule_format, OF q(1)] k(1) unfolding version nat_int
    by (simp add: whole length_migrations)
  have "part_way n d f" if "run_migrations (take j ?rest) (sql_file s) = Inr f" for j f
  proof -
    have "take j ?rest = take (min j (6 - (n + k))) ?rest"
      by (simp add: min_def length_migrations)
    then have "run_migrations (take (k + min j (6 - (n + k))) (drop n migrations)) (store n d) = Inr f"
      using that k(2) by (simp add: take_add run_migrations_append add.commute)
    then show ?thesis
      unfolding part_way_def using k(1) by (intro exI [of _ "k + min j (6 - (n + k))"]) simp
  qed
  then show "case r of Inl _ \<Rightarrow> part_way n d (sql_file s') \<and> \<not> no_faults s
      | Inr x \<Rightarrow> sql_file s' = store 6 (upgraded n d) \<and> (no_faults s \<longrightarrow> no_faults s')"
    using law q(2) whole by (cases q) auto
qed

lemma runs_open:
  assumes "migration_runner R" and "n \<le> 6"
  shows "runs (on_the_way n d) (open_db R) (\<lambda>_ f. f = store 6 (upgraded n d)) (on_the_way n d)"
proof -
  have "runs (part_way n d) (\<lambda>s. let (r, s) = R migrations s in (map_err Migration r, s)) (\<lambda>_ f. f = store 6 (upgraded n d)) (on_the_way n d)"
    by (rule runs_error [OF runs_migrations [OF assms(1)]]) (simp add: on_the_way_def)
  then show ?thesis
    unfolding open_db_def by (intro runs_pragma_then runs_then [OF runs_adopt [OF assms(2)]])
qed

section \<open>Properties\<close>

text \<open>An opening that failed, of a new process with its own failures, and the file it left.\<close>

definition failed_open :: "runner \<Rightarrow> sql_file \<Rightarrow> sql_file \<Rightarrow> bool" where
  "failed_open R f f' \<longleftrightarrow> (\<exists>s e s'. sql_file s = f \<and> open_db R s = (Inl e, s') \<and> sql_file s' = f')"

lemma on_the_way_failed:
  assumes "migration_runner R" and "n \<le> 6"
  shows "(failed_open R)\<^sup>*\<^sup>* f f' \<Longrightarrow> on_the_way n d f \<Longrightarrow> on_the_way n d f'"
proof (induction rule: rtranclp_induct)
  case (step g h)
  then obtain s e s' where att: "sql_file s = g" "open_db R s = (Inl e, s')" "sql_file s' = h"
    unfolding failed_open_def by blast
  have "on_the_way n d (sql_file s)"
    unfolding att(1) by (rule step.IH [OF step.prems])
  from runsD(1) [OF runs_open [OF assms] this att(2)] show ?case
    unfolding att(3) .
qed

lemma opened:
  assumes "migration_runner R" and "n \<le> 6" and "left_by_version n d f"
    and "(failed_open R)\<^sup>*\<^sup>* f (sql_file s)" and "open_db R s = (r, s')"
  shows "case r of Inl _ \<Rightarrow> \<not> no_faults s | Inr _ \<Rightarrow> sql_file s' = store 6 (upgraded n d)"
proof -
  have "on_the_way n d (sql_file s)"
    by (rule on_the_way_failed [OF assms(1,2,4) left_on_the_way [OF assms(2,3)]])
  note open_run = runsD [OF runs_open [OF assms(1,2)] this]
  show ?thesis
  proof (cases r)
    case (Inl e)
    show ?thesis
      using open_run(2) [OF assms(5) [unfolded Inl]] unfolding Inl by simp
  next
    case (Inr x)
    show ?thesis
      using open_run(3) [OF assms(5) [unfolded Inr]] unfolding Inr by simp
  qed
qed

text \<open>
  C4: upgrades keep the data.  A file left by any released version of the server, with the migration
  table of the previous runner or without, is brought to the current schema with its contents as the
  migrations mean them: every row is kept, what is new has its default, and live documents and
  tombstones start with token 1 under a counter of 2.  An upgrade that is interrupted by a failure of
  any statement, however often, is completed by the next opening, and an opening fails only then.
\<close>

theorem opening_upgrades_the_file:
  assumes "migration_runner R" and "n \<le> 6" and "left_by_version n d f"
    and "(failed_open R)\<^sup>*\<^sup>* f (sql_file s)" and "open_db R s = (r, s')"
  shows "case r of Inl _ \<Rightarrow> \<not> no_faults s | Inr _ \<Rightarrow> load (sql_file s') = Some (upgraded n d)"
  using opened [OF assms] by (cases r) (simp_all add: load_store)

end
