(* ===== verification/Upgrade_Server.thy ===== *)
theory Upgrade_Server
  imports Open_Db Server
begin

text \<open>
  The server on a database that was upgraded: the state the migrations leave is one the invariants of
  the server hold in.
\<close>

section \<open>What an upgrade keeps\<close>

text \<open>The schema without the incarnation tokens, and no path both live and deleted.\<close>

definition tables_fit :: "db \<Rightarrow> bool" where
  "tables_fit d \<longleftrightarrow> db_wf d \<and> checks_ok d \<and> auth_ok d \<and> seqs_ok d \<and>
     (\<forall>k. tbl_get (documents d) k = None \<or> tbl_get (tombstones d) k = None)"

lemma wf_map_rows: "tbl_wf t \<Longrightarrow> tbl_wf (map (\<lambda>(k, r). (k, g r)) t)"
  by (simp add: tbl_wf_def comp_def split_beta)

lemma get_map_rows: "tbl_get (map (\<lambda>(k, r). (k, g r)) t) k = map_option g (tbl_get t k)"
  by (induction t) auto

lemma wf_seed: "tbl_wf (map (\<lambda>v. (v, n)) (remdups vs))"
  by (simp add: tbl_wf_def comp_def)

lemma get_seed: "tbl_get (map (\<lambda>v. (v, n)) (remdups vs)) v = (if v \<in> set vs then Some n else None)"
  by (induction vs) auto

lemma wf_Nil [simp]: "tbl_wf []"
  by (simp add: tbl_wf_def)

lemma step_fits:
  assumes "tables_fit d"
  shows "tables_fit (upgrade_step n d)"
  using assms
  by (simp add: tables_fit_def upgrade_step_def db_wf_def checks_ok_def auth_ok_def seqs_ok_def wf_map_rows get_map_rows wf_seed get_seed)

lemma last_step_ok:
  assumes "tables_fit d"
  shows "server_ok (upgrade_step 5 d)"
proof -
  let ?d = "upgrade_step 5 d"
  have docs: "tbl_get (documents ?d) k = map_option (\<lambda>r. r\<lparr>incarnation := 1\<rparr>) (tbl_get (documents d) k)"
    "tbl_get (tombstones ?d) k = map_option (\<lambda>r. r\<lparr>tombstone_incarnation := 1\<rparr>) (tbl_get (tombstones d) k)" for k
    by (simp_all add: upgrade_step_def get_map_rows)
  have counter: "next_token v ?d = (if v \<in> fst ` fst ` set (documents d) \<union> fst ` fst ` set (tombstones d) then 2 else 1)" for v
    by (auto simp: next_token_def upgrade_step_def get_seed image_comp)
  have below: "tokens_below (abs_vault v ?d)" for v
  proof -
    have "incarnation r = 1 \<and> next_token v ?d = 2" if r: "tbl_get (documents ?d) (v, u) = Some r" for u r
    proof -
      obtain r0 where "tbl_get (documents d) (v, u) = Some r0" "r = r0\<lparr>incarnation := 1\<rparr>"
        using r docs(1) [of "(v, u)"] by auto
      then have "((v, u), r0) \<in> set (documents d)"
        by (simp add: tbl_get_set)
      then have "v \<in> fst ` fst ` set (documents d)"
        by (metis fst_conv image_eqI)
      then show ?thesis
        using \<open>r = _\<close> by (simp add: counter)
    qed
    then have "1 \<le> k \<and> k < next_token v ?d" if "status_of (abs_vault v ?d) u = Live k" for u k
      using that by (auto simp: abs_vault_def split: option.splits if_splits)
    moreover have "1 \<le> next_token v ?d"
      by (simp add: counter)
    ultimately show ?thesis
      by (simp add: tokens_below_def abs_vault_def)
  qed
  have fits: "tables_fit ?d"
    by (rule step_fits [OF assms])
  have "next_token v ?d \<le> i64_max" for v
    by (simp add: counter)
  then show ?thesis
    using fits below by (simp add: server_ok_def tables_fit_def doc_ok_def db_wf_def)
qed

lemma upgraded_ok:
  assumes "n \<le> 6" and "tables_fit d" and "n = 6 \<longrightarrow> server_ok d"
  shows "server_ok (upgraded n d)"
proof (cases "n = 6")
  case False
  then have "[n..<6] = [n..<5] @ [5]"
    using assms(1) upt_Suc_append [of n 5] by simp
  moreover have "tables_fit (fold upgrade_step ks d)" for ks
    using assms(2) by (induction ks arbitrary: d) (simp_all add: step_fits)
  ultimately show ?thesis
    by (simp add: upgraded_def last_step_ok)
qed (use assms in \<open>simp add: upgraded_def\<close>)

section \<open>A migration runner\<close>

text \<open>One transaction per migration, each of which may fail.\<close>

fun step_all :: runner where
  "step_all [] s = (Inr (), s)"
| "step_all (m # ms) s =
     (let rest = s\<lparr>session_faults := tl (session_faults s)\<rparr>
      in case session_faults s of
           Some e # _ \<Rightarrow> (Inl e, rest)
         | _ \<Rightarrow> (case run_batch m (sql_file s) of
               Inl e \<Rightarrow> (Inl e, rest)
             | Inr f \<Rightarrow> step_all ms (rest\<lparr>sql_file := f\<lparr>user_version := user_version f + 1\<rparr>\<rparr>)))"

definition step_runner :: runner where
  "step_runner ms s =
     (let v = user_version (sql_file s)
      in if v < 0 \<or> int (length ms) < v then (Inl ''database too far ahead'', s) else step_all (drop (nat v) ms) s)"

lemma step_all_runs: "step_all ms s = (r, s') \<Longrightarrow>
    (case r of Inl _ \<Rightarrow> \<exists>k. run_migrations (take k ms) (sql_file s) = Inr (sql_file s')
     | Inr _ \<Rightarrow> run_migrations ms (sql_file s) = Inr (sql_file s')) \<and>
    (no_faults s \<longrightarrow> (\<exists>f. run_migrations ms (sql_file s) = Inr f) \<longrightarrow> r = Inr () \<and> no_faults s')"
proof (induction ms arbitrary: s)
  case (Cons m ms)
  let ?rest = "s\<lparr>session_faults := tl (session_faults s)\<rparr>"
  have rest: "no_faults ?rest" if "no_faults s"
    using that by (cases "session_faults s") (auto simp: no_faults_def)
  show ?case
  proof (cases "\<exists>e es. session_faults s = Some e # es")
    case True
    then obtain e es where "session_faults s = Some e # es" by blast
    then have "r = Inl e" "sql_file s' = sql_file s" "\<not> no_faults s"
      using Cons.prems by (auto simp: no_faults_def)
    then show ?thesis
      by (auto intro!: exI [of _ 0])
  next
    case False
    show ?thesis
    proof (cases "run_batch m (sql_file s)")
      case (Inl e)
      then show ?thesis
          using Cons.prems False by (auto simp: Let_def intro!: exI [of _ 0] split: list.splits option.splits)
    next
      case (Inr f)
      let ?next = "?rest\<lparr>sql_file := f\<lparr>user_version := user_version f + 1\<rparr>\<rparr>"
      have run: "step_all ms ?next = (r, s')"
        using Cons.prems False Inr by (auto simp: Let_def split: list.splits option.splits)
      have IH: "(case r of Inl _ \<Rightarrow> \<exists>k. run_migrations (take k ms) (sql_file ?next) = Inr (sql_file s')
          | Inr _ \<Rightarrow> run_migrations ms (sql_file ?next) = Inr (sql_file s')) \<and>
          (no_faults ?next \<longrightarrow> (\<exists>f. run_migrations ms (sql_file ?next) = Inr f) \<longrightarrow> r = Inr () \<and> no_faults s')"
        by (rule Cons.IH [OF run])
      have shift: "run_migrations (take (Suc k) (m # ms)) (sql_file s) = run_migrations (take k ms) (sql_file ?next)" for k
        using Inr by simp
      have "\<exists>k. run_migrations (take k (m # ms)) (sql_file s) = Inr (sql_file s')"
        if "\<exists>k. run_migrations (take k ms) (sql_file ?next) = Inr (sql_file s')"
        using that shift by metis
      moreover have "no_faults ?next" if "no_faults s"
        using rest [OF that] by (simp add: no_faults_def)
      ultimately show ?thesis
        using IH Inr by (cases r) auto
    qed
  qed
qed auto

lemma step_runner_ok: "migration_runner step_runner"
  unfolding migration_runner_def step_runner_def Let_def
  by (auto dest: step_all_runs)

section \<open>Properties\<close>


section \<open>Witnesses\<close>

text \<open>A database of version 5, of the previous runner, with a live and a deleted document.\<close>

definition old_db :: db where
  "old_db = empty_db\<lparr>documents := [((''v'', ''n''), \<lparr>snapshot_blob = [1], vv_blob = [2], updated_at = 7, incarnation = 0\<rparr>)],
     tombstones := [((''v'', ''o''), \<lparr>deleted_by = ''p'', deleted_at = 6, content_hash = None, tombstone_incarnation = 0\<rparr>)]\<rparr>"

definition old_file :: sql_file where
  "old_file = with_sqlx \<lparr>columns = [], primary_key = [], autoincrement = 0, table_rows = replicate 5 []\<rparr> 0 (store 5 old_db)"

lemma old_file_left: "left_by_version 5 old_db old_file"
  unfolding left_by_version_def old_file_def
  by (rule disjI2, rule exI [of _ "\<lparr>columns = [], primary_key = [], autoincrement = 0, table_rows = replicate 5 []\<rparr>"]) simp

text \<open>The fourth pragma fails, and the next opening has no failure.\<close>

definition first_session :: session where
  "first_session = \<lparr>sql_file = old_file, pragmas = [], session_faults = [None, None, None, Some ''database is locked'']\<rparr>"

definition next_session :: session where
  "next_session = \<lparr>sql_file = old_file, pragmas = [], session_faults = []\<rparr>"

lemma first_fails: "(failed_open R)\<^sup>*\<^sup>* old_file (sql_file next_session)"
proof -
  have "failed_open R old_file (sql_file next_session)"
    unfolding failed_open_def
    by (rule exI [of _ first_session])
      (simp add: first_session_def next_session_def open_db_def then_do_def pragma_update_def statement_def)
  then show ?thesis ..
qed

theorem opening_upgrades_the_file_witness:
  "\<exists>s'. open_db step_runner next_session = (Inr (), s') \<and> load (sql_file s') = Some (upgraded 5 old_db)"
proof -
  obtain r s' where run: "open_db step_runner next_session = (r, s')" by force
  have "case r of Inl _ \<Rightarrow> \<not> no_faults next_session | Inr _ \<Rightarrow> load (sql_file s') = Some (upgraded 5 old_db)"
    using opening_upgrades_the_file [OF step_runner_ok _ old_file_left first_fails run] by simp
  then show ?thesis
    using run by (cases r) (auto simp: no_faults_def next_session_def)
qed

lemma old_db_fits: "tables_fit old_db"
  by (simp add: tables_fit_def old_db_def empty_db_def db_wf_def checks_ok_def auth_ok_def seqs_ok_def tbl_wf_def)

lemma opened_old_file:
  "\<exists>s'. open_db step_runner next_session = (Inr (), s') \<and> load (sql_file s') = Some (upgraded 5 old_db)"
proof -
  obtain r s' where run: "open_db step_runner next_session = (r, s')" by force
  then show ?thesis
    using opened [OF step_runner_ok _ old_file_left first_fails run]
    by (cases r) (auto simp: no_faults_def next_session_def load_store)
qed


end
