(* ===== verification/Boot.thy ===== *)
theory Boot
  imports Upgrade_Server
begin

text \<open>
  \<open>src/main.rs\<close> as a process: which of its two lives it takes, what it needs before it serves, how it
  ends otherwise, and its weekly maintenance of the database.
\<close>

section \<open>Places\<close>

definition bind_address :: "(string \<Rightarrow> string option) \<Rightarrow> string" where
  "bind_address env = (case env ''VAULTCRDT_BIND'' of None \<Rightarrow> ''0.0.0.0:8080'' | Some s \<Rightarrow> s)"

definition db_path :: "(string \<Rightarrow> string option) \<Rightarrow> string" where
  "db_path env = (case env ''VAULTCRDT_DB_PATH'' of None \<Rightarrow> ''./vaultcrdt.db'' | Some s \<Rightarrow> s)"

definition blob_dir :: "(string \<Rightarrow> string option) \<Rightarrow> string" where
  "blob_dir env = (case env ''VAULTCRDT_BLOB_DIR'' of None \<Rightarrow> ''/var/lib/vaultcrdt/blobs'' | Some s \<Rightarrow> s)"

section \<open>Maintenance\<close>

text \<open>A checkpoint of the log, an update of the planner's statistics, and a rewrite of the file.\<close>

definition run_maintenance :: "unit io" where
  "run_maintenance = and_then (query (\<lambda>_ _. ())) (\<lambda>_. exec (\<lambda>_ d. d))"

definition run_full_vacuum :: "unit io" where
  "run_full_vacuum = exec (\<lambda>_ d. d)"

definition weekly_tick :: "unit act" where
  "weekly_tick = ignore (on_db run_maintenance)"

lemma weekly_tick_run: "server_run L from_slice w (snd (weekly_tick w))"
proof -
  have "keeps (\<lambda>d. d = tables (db_conn w)) run_maintenance"
    unfolding run_maintenance_def by (intro keeps_intros keeps_exec)
  then show ?thesis
    by (intro server_run.outside) (auto simp: weekly_tick_def ignore_def on_db_def keeps_def split_beta)
qed

section \<open>The process\<close>

text \<open>
  \<open>db_at\<close> holds the database file at a path as a session that is about to be opened on it.  Once it is
  open, its connection goes on with the failures that are still to come; \<open>None\<close> would mean a file that
  is not of the current schema.
\<close>

datatype process_end = Exit_Code nat | Panic string | Serving settings

definition connected :: "timestamp \<Rightarrow> session \<Rightarrow> conn option" where
  "connected t s = map_option (\<lambda>d. \<lparr>tables = d, faults = session_faults s, now = t\<rparr>) (load (sql_file s))"

definition run_cli :: "runner \<Rightarrow> cli_env \<Rightarrow> (string \<Rightarrow> string option) \<Rightarrow> timestamp \<Rightarrow> string list \<Rightarrow> (string \<Rightarrow> session) \<Rightarrow>
    (nat \<times> conn option) option" where
  "run_cli R X env t args db_at =
     (case open_db R (db_at (db_path env)) of
        (Inl _, _) \<Rightarrow> Some (1, None)
      | (Inr _, s) \<Rightarrow> map_option (\<lambda>c.
          let (r, c) = run X (env_or parse_u64 DEFAULT_VAULT_QUOTA_BYTES (env ''VAULTCRDT_DEFAULT_VAULT_QUOTA'')) args c
          in (exit_code r, Some c)) (connected t s))"

text \<open>The server up to the point where it listens; \<open>fs\<close> are the files under \<open>blob_dir\<close>.\<close>

definition run_server :: "runner \<Rightarrow> string \<Rightarrow> (string \<Rightarrow> string option) \<Rightarrow> timestamp \<Rightarrow> (string list, bytes) table \<Rightarrow>
    (string \<times> nat) option list \<Rightarrow> (string \<Rightarrow> session) \<Rightarrow> (process_end \<times> world option) option" where
  "run_server R epoch env t fs io db_at =
     (case server_settings epoch env of
        Inl msg \<Rightarrow> Some (Panic msg, None)
      | Inr st \<Rightarrow>
          (case open_db R (db_at (db_path env)) of
             (Inl _, _) \<Rightarrow> Some (Exit_Code 1, None)
           | (Inr _, s) \<Rightarrow> map_option (\<lambda>c.
               let (r, w) = startup \<lparr>db_conn = c, files = fs, io_faults = io\<rparr>
               in (case r of Inl _ \<Rightarrow> Exit_Code 1 | Inr _ \<Rightarrow> Serving st, Some w)) (connected t s)))"

definition main_process :: "runner \<Rightarrow> cli_env \<Rightarrow> string \<Rightarrow> (string \<Rightarrow> string option) \<Rightarrow> timestamp \<Rightarrow> (string list, bytes) table \<Rightarrow>
    (string \<times> nat) option list \<Rightarrow> (string \<Rightarrow> session) \<Rightarrow> string list \<Rightarrow> process_end option" where
  "main_process R X epoch env t fs io db_at args =
     (case parse_invocation args of
        Server \<Rightarrow> map_option fst (run_server R epoch env t fs io db_at)
      | Usage_Error \<Rightarrow> Some (Exit_Code 2)
      | Cli_Command args \<Rightarrow> map_option (\<lambda>(code, _). Exit_Code code) (run_cli R X env t args db_at))"

section \<open>Properties\<close>

lemma connected_upgraded:
  assumes "migration_runner R" and "n \<le> 6" and "left_by_version n d f" and "(failed_open R)\<^sup>*\<^sup>* f (sql_file s)"
    and "open_db R s = (Inr u, s')"
  shows "connected t s' = Some \<lparr>tables = upgraded n d, faults = session_faults s', now = t\<rparr>"
  using opened [OF assms] by (simp add: connected_def load_store)

lemma startup_succeeds: "io = [] \<Longrightarrow> fst (startup \<lparr>db_conn = c, files = fs, io_faults = io\<rparr>) = Inr ()"
  by (simp add: startup_def bind_act_def create_dir_all_def file_op_def ignore_def)


definition some_env :: "string \<Rightarrow> string option" where
  "some_env = [''VAULTCRDT_JWT_SECRET'' \<mapsto> ''j'', ''VAULTCRDT_ADMIN_TOKEN'' \<mapsto> ''a'']"


end
