(* ===== verification/Spec2Isabelle.thy ===== *)
theory Spec2Isabelle
  imports Ws_Witnesses Session_Witnesses Blob_Quota Http_Witnesses Server_Witnesses Lock_Progress Boot
begin

text \<open>
  Verification of the VaultCRDT sync server (\<open>src/src/*.rs\<close>).

  The program.  Devices of a vault edit documents offline and merge them through this server.  Each
  document is a Loro CRDT, which the server stores as a snapshot with its version vector in SQLite; the
  devices talk to it over a WebSocket (\<open>ws.rs\<close>, \<open>handlers.rs\<close>) and hear of each other's changes over a
  broadcast channel.  Attachments go over HTTP (\<open>blobs.rs\<close>): resumable uploads into a content-addressed
  store, and an index from paths to contents in which the last writer wins.  A device gets its session
  token by the secret of the vault (\<open>lib.rs\<close>), or by a key of its own that it got for an invite
  (\<open>invites.rs\<close>); the operator makes vaults and invites on the command line (\<open>cli.rs\<close>).  \<open>main.rs\<close> reads
  the settings, starts the server and runs the retention jobs.

  Foundations.
    \<open>Prelude\<close>      strings, saturating integers, association tables, collections of rules.
    \<open>Interfaces\<close>   the contracts between components as locales: SQL table, token allocator, invariant of
                 a transition system, simulation, last-writer-wins register.  Each is interpreted on the
                 model in the theory of the component that provides it.
    \<open>Errors\<close>       \<open>errors.rs\<close>: the error type, its two renderings, HTTP responses.
    \<open>Sql\<close>          the tables of \<open>migrations/*.sql\<close>, and computations on the connection: every statement
                 may fail (the schedule \<open>faults\<close>), a transaction is all or nothing.

  The document lane.
    \<open>Loro\<close>, \<open>Messages\<close>  the third-party functions the lane calls (a record of parameters), \<open>vv_serde.rs\<close>,
                 and the message types of \<open>ws.rs\<close>.
    \<open>Db\<close>           \<open>db.rs\<close>, one definition per function.  \<open>Db_Facts\<close>: what they do to the tables.
    \<open>Fnv\<close>          \<open>fnv.rs\<close>, the content hash in 64-bit arithmetic.
    \<open>Handlers\<close>     \<open>handlers.rs\<close>: from a binary frame to the reply and the broadcast.  \<open>Handlers_Facts\<close>: the
                 handlers branch by branch.
    \<open>Path_Spec\<close>    the abstract vault: a path is absent, live under a token, or dead.  \<open>Doc_Server\<close>: the lane
                 as a transition system, its invariant, and the proof that each frame refines an action of
                 the abstract vault.  \<open>Isolation\<close>: vaults do not see each other.  \<open>Doc_Properties\<close>,
                 \<open>Doc_Replies\<close>: deletes, histories, acknowledgements, errors, the listing, retention.
    \<open>Doc_Locks\<close>    \<open>DocLocks\<close> of \<open>lib.rs\<close> under concurrent handlers, with eviction.
    \<open>Lock_Progress\<close>  the handlers in flight finish: no deadlock and no lost lock.
    \<open>Ws\<close>           \<open>ws.rs\<close>: handshake, registry, read loop, forwarding loop.  \<open>Ws_Sessions\<close>: all sockets together
                 over the registry and the broadcast channel; a live session misses nothing and hears
                 only its vault.

  The attachments (\<open>blobs.rs\<close>).
    \<open>Blob_Paths\<close>   keys, caps, SVG checks and headers.  \<open>Blob_Store\<close>: the handlers of uploads and downloads
                 over the database and the files.  \<open>Blob_Index\<close>: the path index.
    \<open>Blob_Logic\<close>   rules for the computations over both.  \<open>Blob_Safety\<close>, \<open>Blob_Runs\<close>: the invariant of the
                 store under concurrent requests, by rely and guarantee.  \<open>Blob_Properties\<close>, \<open>Blob_Lww\<close>,
                 \<open>Blob_Quota\<close>: what clients can rely on.

  Access.
    \<open>Auth_Core\<close>    \<open>auth.rs\<close>: comparison of secrets, rate limiter, session tokens.
    \<open>Http_Auth\<close>    the handlers of \<open>lib.rs\<close>: login, health, statistics, peers, retirement.
    \<open>Invites\<close>      \<open>invites.rs\<close>; its facts in \<open>Invite_Facts\<close>.
    \<open>Cli\<close>, \<open>Server_Main\<close>  \<open>cli.rs\<close>, and the settings and background tasks of \<open>main.rs\<close>.  \<open>Http_Facts\<close>: what login,
                 limiter, command line and settings promise together.

  The server as a whole.
    \<open>Router\<close>       \<open>build_router\<close> of \<open>lib.rs\<close>: the table of routes, and \<open>serve\<close>, one function from a decoded
                 request to its answer, event and new state, over all the handlers above.
    \<open>Blob_Frame\<close>, \<open>Serving\<close>  what a request can reach: a locale of the facts a handler keeps, from a few
                 facts about single rows and files, and its use on \<open>serve\<close>.
    \<open>Access\<close>       without a credential nothing happens.  \<open>Vault_Walls\<close>: a token is good for its own vault only.
    \<open>Schema\<close>, \<open>Server\<close>  the types of the database (keys, \<open>CHECK\<close>s, tokens, sequence numbers), and that every run
                 of the whole server keeps them: requests nested in each other's gaps, frames,
                 connections, commands and background tasks (\<open>server_run\<close>).

  The database file.
    \<open>Sql_File\<close>     files of untyped tables and the statements of the migrations, with SQLite's errors.
    \<open>Migrations\<close>   the six migrations of \<open>migrations/*.sql\<close>, the adoption of the state of the previous runner,
                 and \<open>open_db\<close>.  \<open>Upgrade\<close>: what each migration does to the contents; \<open>store n d\<close> is the
                 file of version \<open>n\<close> with contents \<open>d\<close>.  \<open>Reload\<close>: the file read into the typed tables
                 of \<open>Sql\<close>, which are what the rest of the model works on.
    \<open>Open_Db\<close>      an opening completes the upgrade from any version, after any failures.
    \<open>Upgrade_Server\<close>, \<open>Boot\<close>  the whole server on an upgraded file, and the process of \<open>main.rs\<close> around it.

  The theories \<open>*_Witnesses\<close> and \<open>Example_Libs\<close> apply the properties to concrete runs, with executable
  stand-ins for the libraries.

  Concurrency.  A document handler holds its document's lock from its first statement to its last, and
  the handlers of a vault touch only the rows of their document, so a frame is one step of the lane; that
  the lock excludes a second handler is proved in \<open>Doc_Locks\<close>.  Everywhere else the code releases the
  database between statements, and the model says so: a handler takes a function \<open>g\<close>, and \<open>g i\<close> is what
  the other requests do in its \<open>i\<close>-th gap.  The properties of logins and invites hold for every \<open>g\<close> that
  satisfies their stated condition; those of the blob store for every \<open>g\<close> built from the handlers
  themselves (\<open>schedule\<close> in \<open>Blob_Runs\<close>), nested to any depth.  A gap lies between two operations that are
  not under one lock; the two effects of discarding an upload are taken together.

  Failures.  Every SQL statement and every file operation may fail, as a schedule unknown to the code
  says, and a failed file write leaves any prefix.  A crash of the process, and what the file system
  keeps of a write that was not synced, is outside the model.

  Bounds.  No recursion needs fuel: the loops run over lists (the turns of a session, the UUIDs of the
  random source, the rows of a listing, the migrations), and a run of the server is a derivation of its
  step relation.  Machine integers are kept at their width where the code can reach it: the hash and the
  comparison of secrets are on 64-bit words, sums of sizes saturate as in the code, incarnation tokens
  stop at \<open>i64::MAX\<close>, the connection counter wraps (\<open>Ws_Sessions\<close> stays below the wrap).

  Third-party code is a parameter, or is taken as its documentation says where it only schedules what
  the code does: Loro, \<open>rmp_serde\<close>, \<open>serde_json\<close>, \<open>jsonwebtoken\<close>, Argon2, SHA-256, BLAKE3, \<open>svg_hush\<close> and the runner
  of \<open>rusqlite_migration\<close> are arguments of the definitions, with what a property needs of them as a named
  hypothesis; axum's matching of paths, tokio's mutex and broadcast channel, and SQLite's statements
  are modelled as documented.

  Not modelled: logging; the TCP listener, TLS, HTTP parsing and the graceful shutdown (a request arrives
  decoded, or with the extractor's rejection); which task tokio runs next, which is any; files not left
  by a released version (they are opened by the same code, but what they hold is unknown).  Of SQLite's
  types the affinities of columns are recorded and not applied, and a text written by \<open>datetime('now')\<close>
  is the time it denotes.  Text is trimmed and folded as ASCII.
\<close>

end
